theory Spec2Isabelle
  imports Main "HOL-Library.Sublist" "HOL-Library.Multiset"
begin

section \<open>Strings and numbers of the host language\<close>

text \<open>
  The program is TypeScript. A JavaScript string is a sequence of code units and
  \<open>length\<close>, \<open>indexOf\<close> and \<open>slice\<close> count code units; the model writes a string as
  a \<^typ>\<open>string\<close> (a list of \<^typ>\<open>char\<close>), so its alphabet is the code units 0 to 255.
  Offsets, lines, columns and priorities are JavaScript numbers that only ever hold
  integers here; they are \<^typ>\<open>int\<close>, so that the \<open>-1\<close> of \<open>indexOf\<close> is a value of
  the model as it is of the source.
\<close>

text \<open>
  \<open>String.prototype.indexOf(pat, pos)\<close>: the position is clamped to
  \<open>[0, length]\<close>, the result is the least index at or after it where \<open>pat\<close>
  occurs (the clamped position itself for the empty pattern), and \<open>-1\<close> when there
  is none.
\<close>

fun scanFrom :: "string \<Rightarrow> string \<Rightarrow> nat \<Rightarrow> int" where
  "scanFrom pat [] k = (if pat = [] then int k else - 1)"
| "scanFrom pat (c # cs) k =
     (if prefix pat (c # cs) then int k else scanFrom pat cs (Suc k))"

definition indexOf :: "string \<Rightarrow> string \<Rightarrow> int \<Rightarrow> int" where
  "indexOf text pat pos =
     (let k = nat (min (max pos 0) (int (length text)))
      in scanFrom pat (drop k text) k)"

section \<open>Data model (core/src/types.ts)\<close>

datatype SectionType =
  identityT | capabilitiesT | constraintsT | contextT | domainT
  | toolsT | formatT | examplesT | customT

datatype SourceKind = fragmentK | dynamicK | literalK | generatedK

text \<open>\<open>SourceMapping['source']\<close>: every field but the kind is optional.\<close>

record Source =
  kind :: SourceKind
  fragmentId :: "string option"
  fragmentVersion :: "string option"
  sectionType :: "SectionType option"
  sectionIndex :: "int option"
  sourceFile :: "string option"
  fileLine :: "int option"
  fileColumn :: "int option"
  dynamicKey :: "string option"

text \<open>\<open>SourceMapping['output']\<close>: the half-open range \<open>[start, end)\<close> with its position.\<close>

record Output =
  start :: int
  finish :: int
  line :: int
  column :: int

record SourceMapping =
  outputPos :: Output
  source :: Source

text \<open>The class \<open>SourceMap\<close>: its subject, its mappings and the rendered text it tracks.\<close>

record SourceMap =
  prompt :: string
  mappings :: "SourceMapping list"
  renderedText :: string

record RenderedSection =
  rtype :: SectionType
  name :: "string option"
  content :: string
  priority :: int
  cacheable :: bool
  sourceMapping :: SourceMapping

section \<open>Provenance table (core/src/source-map.ts)\<close>

definition newSourceMap :: "string \<Rightarrow> SourceMap" where
  "newSourceMap promptName = \<lparr>prompt = promptName, mappings = [], renderedText = []\<rparr>"

definition addMapping :: "SourceMapping \<Rightarrow> SourceMap \<Rightarrow> SourceMap" where
  "addMapping m sm = sm\<lparr>mappings := mappings sm @ [m]\<rparr>"

definition setRenderedText :: "string \<Rightarrow> SourceMap \<Rightarrow> SourceMap" where
  "setRenderedText t sm = sm\<lparr>renderedText := t\<rparr>"

text \<open>
  \<open>getLineColumn\<close>: the loop \<open>for (i = 0; i < offset && i < text.length; i++)\<close> walks the
  first \<open>offset\<close> code units of the text, counting from line 1, column 1.
\<close>

fun lineColumnLoop :: "string \<Rightarrow> int \<times> int \<Rightarrow> int \<times> int" where
  "lineColumnLoop [] lc = lc"
| "lineColumnLoop (c # cs) (l, col) =
     (if c = CHR 0x0A then lineColumnLoop cs (l + 1, 1) else lineColumnLoop cs (l, col + 1))"

definition getLineColumn :: "SourceMap \<Rightarrow> int \<Rightarrow> int \<times> int" where
  "getLineColumn sm offset = lineColumnLoop (take (nat offset) (renderedText sm)) (1, 1)"

text \<open>
  \<open>getCharOffset\<close>: \<open>while (offset < text.length && currentLine < line)\<close> advances over the
  text until the wanted line starts; the column is then added.
\<close>

fun charOffsetLoop :: "string \<Rightarrow> int \<Rightarrow> int \<Rightarrow> int \<Rightarrow> int" where
  "charOffsetLoop [] currentLine ln offset = offset"
| "charOffsetLoop (c # cs) currentLine ln offset =
     (if currentLine < ln
      then charOffsetLoop cs (if c = CHR 0x0A then currentLine + 1 else currentLine) ln (offset + 1)
      else offset)"

definition getCharOffset :: "SourceMap \<Rightarrow> int \<Rightarrow> int \<Rightarrow> int" where
  "getCharOffset sm ln col = charOffsetLoop (renderedText sm) 1 ln 0 + col - 1"

definition addFragmentMapping ::
  "int \<Rightarrow> int \<Rightarrow> string \<Rightarrow> string \<Rightarrow> SectionType \<Rightarrow> int \<Rightarrow> string option \<Rightarrow> int option
     \<Rightarrow> SourceMap \<Rightarrow> SourceMap" where
  "addFragmentMapping outputStart outputEnd fid fversion stype sindex sfile sline sm =
     (let (l, c) = getLineColumn sm outputStart
      in sm\<lparr>mappings := mappings sm @
           [\<lparr>outputPos = \<lparr>start = outputStart, finish = outputEnd, line = l, column = c\<rparr>,
             source = \<lparr>kind = fragmentK, fragmentId = Some fid, fragmentVersion = Some fversion,
                       sectionType = Some stype, sectionIndex = Some sindex,
                       sourceFile = sfile, fileLine = sline, fileColumn = None,
                       dynamicKey = None\<rparr>\<rparr>]\<rparr>)"

definition addDynamicMapping ::
  "int \<Rightarrow> int \<Rightarrow> SectionType \<Rightarrow> int \<Rightarrow> string option \<Rightarrow> SourceMap \<Rightarrow> SourceMap" where
  "addDynamicMapping outputStart outputEnd stype sindex dkey sm =
     (let (l, c) = getLineColumn sm outputStart
      in sm\<lparr>mappings := mappings sm @
           [\<lparr>outputPos = \<lparr>start = outputStart, finish = outputEnd, line = l, column = c\<rparr>,
             source = \<lparr>kind = dynamicK, fragmentId = None, fragmentVersion = None,
                       sectionType = Some stype, sectionIndex = Some sindex,
                       sourceFile = None, fileLine = None, fileColumn = None,
                       dynamicKey = dkey\<rparr>\<rparr>]\<rparr>)"

definition addLiteralMapping ::
  "int \<Rightarrow> int \<Rightarrow> SectionType \<Rightarrow> int \<Rightarrow> SourceMap \<Rightarrow> SourceMap" where
  "addLiteralMapping outputStart outputEnd stype sindex sm =
     (let (l, c) = getLineColumn sm outputStart
      in sm\<lparr>mappings := mappings sm @
           [\<lparr>outputPos = \<lparr>start = outputStart, finish = outputEnd, line = l, column = c\<rparr>,
             source = \<lparr>kind = literalK, fragmentId = None, fragmentVersion = None,
                       sectionType = Some stype, sectionIndex = Some sindex,
                       sourceFile = None, fileLine = None, fileColumn = None,
                       dynamicKey = None\<rparr>\<rparr>]\<rparr>)"

text \<open>
  The point queries scan the mappings in insertion order and return the origin of the
  first one whose range holds the offset; \<open>null\<close> is \<open>None\<close>.
\<close>

definition inRange :: "SourceMapping \<Rightarrow> int \<Rightarrow> bool" where
  "inRange m offset \<longleftrightarrow> offset \<ge> start (outputPos m) \<and> offset < finish (outputPos m)"

fun firstOrigin :: "SourceMapping list \<Rightarrow> int \<Rightarrow> Source option" where
  "firstOrigin [] offset = None"
| "firstOrigin (m # ms) offset =
     (if inRange m offset then Some (source m) else firstOrigin ms offset)"

definition originAtOffset :: "SourceMap \<Rightarrow> int \<Rightarrow> Source option" where
  "originAtOffset sm offset = firstOrigin (mappings sm) offset"

definition originAt :: "SourceMap \<Rightarrow> int \<Rightarrow> int \<Rightarrow> Source option" where
  "originAt sm ln col = firstOrigin (mappings sm) (getCharOffset sm ln col)"

definition positionsFrom :: "SourceMap \<Rightarrow> string \<Rightarrow> Output list" where
  "positionsFrom sm fid =
     map outputPos (filter (\<lambda>m. fragmentId (source m) = Some fid) (mappings sm))"

text \<open>
  \<open>toJSON\<close> gives the plain record \<open>{version: 1, prompt, mappings}\<close>; \<open>fromJSON\<close> builds
  a new table for \<open>data.prompt\<close> and adds the mappings one by one.
\<close>

record SourceMapData =
  version :: int
  dataPrompt :: string
  dataMappings :: "SourceMapping list"

definition toJSON :: "SourceMap \<Rightarrow> SourceMapData" where
  "toJSON sm = \<lparr>version = 1, dataPrompt = prompt sm, dataMappings = mappings sm\<rparr>"

definition fromJSON :: "SourceMapData \<Rightarrow> SourceMap" where
  "fromJSON d = fold addMapping (dataMappings d) (newSourceMap (dataPrompt d))"

text \<open>
  Two half-open ranges overlap when some offset lies in both; a table is
  non-overlapping when no two of its mappings, at different places of the list, do.
\<close>

definition overlaps :: "SourceMapping \<Rightarrow> SourceMapping \<Rightarrow> bool" where
  "overlaps a b \<longleftrightarrow>
     max (start (outputPos a)) (start (outputPos b)) < min (finish (outputPos a)) (finish (outputPos b))"

fun nonOverlapping :: "SourceMapping list \<Rightarrow> bool" where
  "nonOverlapping [] = True"
| "nonOverlapping (m # ms) = (list_all (\<lambda>m'. \<not> overlaps m m') ms \<and> nonOverlapping ms)"

section \<open>Cache-aware ordering (Prompt.optimizeForCaching)\<close>

text \<open>
  \<open>Array.prototype.sort\<close> with the comparator \<open>a.priority - b.priority\<close> is a stable
  sort on the priority (stability is part of the language since ES2019); on integer
  priorities the result of a stable sort is determined, and \<^const>\<open>sort_key\<close> computes it.
\<close>

definition optimizeForCaching :: "RenderedSection list \<Rightarrow> RenderedSection list" where
  "optimizeForCaching resolved =
     (let cacheableS = filter (\<lambda>s. cacheable s) resolved;
          nonCacheable = filter (\<lambda>s. \<not> cacheable s) resolved
      in sort_key priority cacheableS @ sort_key priority nonCacheable)"

section \<open>String helpers\<close>

text \<open>
  \<open>trim\<close> removes the white space and line terminators of the language at both ends;
  within the alphabet these are tab, line feed, vertical tab, form feed, carriage return,
  space and the no-break space. The same set is the class \<open>\s\<close> of a regular expression.
\<close>

definition isSpace :: "char \<Rightarrow> bool" where
  "isSpace c \<longleftrightarrow> c \<in> {CHR 0x09, CHR 0x0A, CHR 0x0B, CHR 0x0C, CHR 0x0D, CHR 0x20, CHR 0xA0}"

definition trim :: "string \<Rightarrow> string" where
  "trim s = rev (dropWhile isSpace (rev (dropWhile isSpace s)))"

definition upperLetters :: string where
  "upperLetters = ''ABCDEFGHIJKLMNOPQRSTUVWXYZ''"

definition lowerLetters :: string where
  "lowerLetters = ''abcdefghijklmnopqrstuvwxyz''"

definition isUpperAscii :: "char \<Rightarrow> bool" where
  "isUpperAscii c \<longleftrightarrow> c \<in> set upperLetters"

definition isLowerAscii :: "char \<Rightarrow> bool" where
  "isLowerAscii c \<longleftrightarrow> c \<in> set lowerLetters"

definition isDigit :: "char \<Rightarrow> bool" where
  "isDigit c \<longleftrightarrow> c \<in> set ''0123456789''"

text \<open>The class \<open>\w\<close>: letters, digits and the underscore of ASCII.\<close>

definition isWordChar :: "char \<Rightarrow> bool" where
  "isWordChar c \<longleftrightarrow> isUpperAscii c \<or> isLowerAscii c \<or> isDigit c \<or> c = CHR ''_''"

text \<open>A table of pairs read as a function that leaves every other code unit alone.\<close>

definition translate :: "(char \<times> char) list \<Rightarrow> char \<Rightarrow> char" where
  "translate table c = (case map_of table c of None \<Rightarrow> c | Some d \<Rightarrow> d)"

definition asciiUpper :: "char \<Rightarrow> char" where
  "asciiUpper c = translate (zip lowerLetters upperLetters) c"

definition asciiLower :: "char \<Rightarrow> char" where
  "asciiLower c = translate (zip upperLetters lowerLetters) c"

text \<open>
  \<open>toLowerCase\<close> and \<open>toUpperCase\<close> on the alphabet: the ASCII letters and the letters
  \<open>0xC0..0xDE\<close> / \<open>0xE0..0xFE\<close> (without the signs \<open>0xD7\<close> and \<open>0xF7\<close>) change case, the
  sharp s (\<open>0xDF\<close>) becomes \<open>SS\<close>. The upper-case forms of \<open>0xB5\<close> and \<open>0xFF\<close> lie
  outside the alphabet; the model leaves these two code units as they are.
\<close>

definition upperLatin :: string where
  "upperLatin = [CHR 0xC0, CHR 0xC1, CHR 0xC2, CHR 0xC3, CHR 0xC4, CHR 0xC5, CHR 0xC6, CHR 0xC7, CHR 0xC8, CHR 0xC9, CHR 0xCA, CHR 0xCB, CHR 0xCC, CHR 0xCD, CHR 0xCE, CHR 0xCF, CHR 0xD0, CHR 0xD1, CHR 0xD2, CHR 0xD3, CHR 0xD4, CHR 0xD5, CHR 0xD6, CHR 0xD8, CHR 0xD9, CHR 0xDA, CHR 0xDB, CHR 0xDC, CHR 0xDD, CHR 0xDE]"

definition lowerLatin :: string where
  "lowerLatin = [CHR 0xE0, CHR 0xE1, CHR 0xE2, CHR 0xE3, CHR 0xE4, CHR 0xE5, CHR 0xE6, CHR 0xE7, CHR 0xE8, CHR 0xE9, CHR 0xEA, CHR 0xEB, CHR 0xEC, CHR 0xED, CHR 0xEE, CHR 0xEF, CHR 0xF0, CHR 0xF1, CHR 0xF2, CHR 0xF3, CHR 0xF4, CHR 0xF5, CHR 0xF6, CHR 0xF8, CHR 0xF9, CHR 0xFA, CHR 0xFB, CHR 0xFC, CHR 0xFD, CHR 0xFE]"

definition toLowerCase :: "string \<Rightarrow> string" where
  "toLowerCase s = map (translate (zip (upperLetters @ upperLatin) (lowerLetters @ lowerLatin))) s"

definition toUpperCase :: "string \<Rightarrow> string" where
  "toUpperCase s =
     concat (map (\<lambda>c. if c = CHR 0xDF then ''SS''
                        else [translate (zip (lowerLetters @ lowerLatin) (upperLetters @ upperLatin)) c]) s)"

text \<open>
  A JavaScript string is truthy when it is present and not empty.
\<close>

fun truthyString :: "string option \<Rightarrow> bool" where
  "truthyString None = False"
| "truthyString (Some s) = (s \<noteq> [])"

fun orEmpty :: "string option \<Rightarrow> string" where
  "orEmpty None = []"
| "orEmpty (Some s) = s"

text \<open>\<open>Array.prototype.join\<close>.\<close>

fun joinWith :: "string \<Rightarrow> string list \<Rightarrow> string" where
  "joinWith sep [] = []"
| "joinWith sep [x] = x"
| "joinWith sep (x # y # ys) = x @ sep @ joinWith sep (y # ys)"

text \<open>\<open>s.replace(/[-_]/g, ' ')\<close>.\<close>

definition dashesToSpaces :: "string \<Rightarrow> string" where
  "dashesToSpaces s = map (\<lambda>c. if c = CHR ''-'' \<or> c = CHR ''_'' then CHR '' '' else c) s"

section \<open>Regular expressions of the host language\<close>

text \<open>
  The source uses regular expressions for placeholders, ignore directives, code fences and
  model families. They are written here as terms of a small pattern language, read by a
  backtracking matcher in the order the language prescribes: an alternative tries its
  left side first, a greedy star tries one more iteration before it stops, a lazy star
  stops before it tries one more, and an iteration that consumes nothing is refused.
  Every expression of the source has at most one capturing group.
\<close>

datatype regex =
    Chr "char \<Rightarrow> bool"
  | Eps
  | Seq regex regex
  | Alt regex regex
  | Star regex
  | Lazy regex
  | Group regex

text \<open>
  \<open>runs r s\<close>: every way \<open>r\<close> matches a prefix of \<open>s\<close>, as the rest of \<open>s\<close> after the
  match and the text of the group, in the order a backtracking matcher finds them.
\<close>

function (sequential) runs :: "regex \<Rightarrow> string \<Rightarrow> (string \<times> string option) list" where
  "runs (Chr P) [] = []"
| "runs (Chr P) (c # cs) = (if P c then [(cs, None)] else [])"
| "runs Eps s = [(s, None)]"
| "runs (Seq a b) s =
     concat (map (\<lambda>(s1, c1). map (\<lambda>(s2, c2). (s2, if c2 = None then c1 else c2)) (runs b s1))
               (runs a s))"
| "runs (Alt a b) s = runs a s @ runs b s"
| "runs (Star a) s =
     concat (map (\<lambda>(s1, c1). if length s1 < length s then runs (Star a) s1 else []) (runs a s))
       @ [(s, None)]"
| "runs (Lazy a) s =
     (s, None) # concat (map (\<lambda>(s1, c1). if length s1 < length s then runs (Lazy a) s1 else [])
                           (runs a s))"
| "runs (Group a) s = map (\<lambda>(s1, c1). (s1, Some (take (length s - length s1) s))) (runs a s)"
  by pat_completeness auto
termination
  by (relation "measure size <*lex*> measure length") auto

text \<open>
  \<open>RegExp.prototype.exec\<close> on a fresh expression: the leftmost position with a match and
  the first match there, as the text before it, the match, the group and the rest.
\<close>

fun searchFrom ::
  "regex \<Rightarrow> string \<Rightarrow> string \<Rightarrow> (string \<times> string \<times> string option \<times> string) option" where
  "searchFrom r acc [] =
     (case runs r [] of [] \<Rightarrow> None | (rest, cap) # _ \<Rightarrow> Some (rev acc, [], cap, []))"
| "searchFrom r acc (c # cs) =
     (case runs r (c # cs) of
        [] \<Rightarrow> searchFrom r (c # acc) cs
      | (rest, cap) # _ \<Rightarrow>
          Some (rev acc, take (Suc (length cs) - length rest) (c # cs), cap, rest))"

definition exec :: "regex \<Rightarrow> string \<Rightarrow> (string \<times> string \<times> string option \<times> string) option" where
  "exec r s = searchFrom r [] s"

definition test :: "regex \<Rightarrow> string \<Rightarrow> bool" where
  "test r s \<longleftrightarrow> exec r s \<noteq> None"

text \<open>
  A global expression cuts a string into the matches and the gaps between them, from left
  to right; after an empty match the search moves on by one code unit.
\<close>

datatype piece = Gap string | Match string "string option"

function pieces :: "regex \<Rightarrow> string \<Rightarrow> piece list" where
  "pieces r s =
     (case exec r s of
        None \<Rightarrow> [Gap s]
      | Some (pre, m, cap, rest) \<Rightarrow>
          Gap pre # Match m cap #
            (if length rest < length s then pieces r rest
             else case rest of [] \<Rightarrow> [Gap []] | c # cs \<Rightarrow> (case pieces r cs of
                    Gap g # ps \<Rightarrow> Gap (c # g) # ps | ps \<Rightarrow> Gap [c] # ps)))"
  by pat_completeness auto

declare runs.simps(6) [simp del] runs.simps(7) [simp del]

lemma runs_shorter: "(rest, cap) \<in> set (runs r s) \<Longrightarrow> length rest \<le> length s"
proof (induction r s arbitrary: rest cap rule: runs.induct)
  case (1 P)
  then show ?case by simp
next
  case (2 P c cs)
  then show ?case by (simp split: if_splits)
next
  case (3 s)
  then show ?case by simp
next
  case (4 a b s)
  from 4(3) obtain s1 c1 c2 where "(s1, c1) \<in> set (runs a s)" "(rest, c2) \<in> set (runs b s1)"
    by auto
  with 4(1,2) have "length s1 \<le> length s" "length rest \<le> length s1" by blast+
  then show ?case by simp
next
  case (5 a b s)
  then show ?case by auto
next
  case (6 a s)
  from 6(3) consider "(rest, cap) = (s, None)"
    | s1 c1 where "(s1, c1) \<in> set (runs a s)" "length s1 < length s" "(rest, cap) \<in> set (runs (Star a) s1)"
    by (subst (asm) runs.simps(6)) (auto split: if_splits)
  then show ?case
  proof cases
    case 1
    then show ?thesis by simp
  next
    case 2
    with 6(2)[of "(s1, c1)" s1 c1 rest cap] show ?thesis by simp
  qed
next
  case (7 a s)
  from 7(3) consider "(rest, cap) = (s, None)"
    | s1 c1 where "(s1, c1) \<in> set (runs a s)" "length s1 < length s" "(rest, cap) \<in> set (runs (Lazy a) s1)"
    by (subst (asm) runs.simps(7)) (auto split: if_splits)
  then show ?case
  proof cases
    case 1
    then show ?thesis by simp
  next
    case 2
    with 7(2)[of "(s1, c1)" s1 c1 rest cap] show ?thesis by simp
  qed
next
  case (8 a s)
  then show ?case by auto
qed

lemma searchFrom_shorter:
  "searchFrom r acc s = Some (pre, m, cap, rest) \<Longrightarrow> length rest \<le> length s"
proof (induction s arbitrary: acc)
  case Nil
  then show ?case by (auto split: list.splits)
next
  case (Cons c cs)
  show ?case
  proof (cases "runs r (c # cs)")
    case Nil
    with Cons.prems have "searchFrom r (c # acc) cs = Some (pre, m, cap, rest)" by simp
    from Cons.IH[OF this] show ?thesis by simp
  next
    case (Cons a list)
    with Cons.prems have "(rest, cap) \<in> set (runs r (c # cs))" by (cases a) auto
    then show ?thesis by (rule runs_shorter)
  qed
qed

termination pieces
proof (relation "measure (\<lambda>(r, s). length s)", goal_cases)
  case 1
  then show ?case by simp
next
  case (2 r s x2 pre y m z cap rest)
  then show ?case by simp
next
  case (3 r s x2 pre y m z cap rest c cs)
  then have "length (c # cs) \<le> length s"
    using searchFrom_shorter[of r "[]" s pre m cap "c # cs"] by (simp add: exec_def)
  then show ?case by simp
qed

declare pieces.simps [simp del]

text \<open>\<open>matchAll\<close> gives the matches with their groups, \<open>split\<close> the gaps.\<close>

fun matchesOf :: "piece list \<Rightarrow> (string \<times> string option) list" where
  "matchesOf [] = []"
| "matchesOf (Gap g # ps) = matchesOf ps"
| "matchesOf (Match m cap # ps) = (m, cap) # matchesOf ps"

fun gapsOf :: "piece list \<Rightarrow> string list" where
  "gapsOf [] = []"
| "gapsOf (Gap g # ps) = g # gapsOf ps"
| "gapsOf (Match m cap # ps) = gapsOf ps"

definition matchAll :: "regex \<Rightarrow> string \<Rightarrow> (string \<times> string option) list" where
  "matchAll r s = matchesOf (pieces r s)"

definition split :: "regex \<Rightarrow> string \<Rightarrow> string list" where
  "split r s = gapsOf (pieces r s)"

text \<open>Building blocks: literals, with and without the flag \<open>i\<close>, and the usual operators.\<close>

fun lit :: "string \<Rightarrow> regex" where
  "lit [] = Eps"
| "lit (c # cs) = Seq (Chr (\<lambda>x. x = c)) (lit cs)"

fun liti :: "string \<Rightarrow> regex" where
  "liti [] = Eps"
| "liti (c # cs) = Seq (Chr (\<lambda>x. asciiLower x = asciiLower c)) (liti cs)"

definition Plus :: "regex \<Rightarrow> regex" where
  "Plus r = Seq r (Star r)"

definition Opt :: "regex \<Rightarrow> regex" where
  "Opt r = Alt r Eps"

fun seqs :: "regex list \<Rightarrow> regex" where
  "seqs [] = Eps"
| "seqs [r] = r"
| "seqs (r # rs) = Seq r (seqs rs)"

definition spaceCls :: regex where
  "spaceCls = Chr isSpace"

definition wordCls :: regex where
  "wordCls = Chr isWordChar"

section \<open>Values of the host language\<close>

text \<open>
  The values a render context, a rule's options or a parsed JSON text can hold. Numbers
  are the integers; an object is the list of its own properties, in the order of their
  enumeration. A date is written by its ISO text, and a function by a name that tells
  the host which function it is.
\<close>

datatype JSValue =
    JUndefined
  | JNull
  | JBoolean bool
  | JNumber int
  | JString string
  | JBigInt int
  | JSymbol
  | JFunction string
  | JDate string
  | JArray "JSValue list"
  | JObject "(string \<times> JSValue) list"

text \<open>What the program throws: the kind of the error and its message.\<close>

datatype error = Error string | TypeError string | SyntaxError string

text \<open>
  The names of the members of \<open>Object.prototype\<close>. Every plain object inherits them:
  a read \<open>o[k]\<close> and a test \<open>k in o\<close> find them when \<open>o\<close> has no own property \<open>k\<close>.
  All are functions but \<open>__proto__\<close>, an accessor that gives \<open>Object.prototype\<close> itself.
\<close>

definition objectPrototypeNames :: "string list" where
  "objectPrototypeNames =
     [''constructor'', ''__defineGetter__'', ''__defineSetter__'', ''hasOwnProperty'',
      ''__lookupGetter__'', ''__lookupSetter__'', ''isPrototypeOf'', ''propertyIsEnumerable'',
      ''toString'', ''valueOf'', ''__proto__'', ''toLocaleString'']"

text \<open>
  What belongs to the built-in objects of the host and not to the program.
  \<open>inherited v k\<close> is what reading the property \<open>k\<close> of the value \<open>v\<close> gives when \<open>v\<close>
  has no own property of that name in the model: the member found on the prototype chain
  of \<open>v\<close> (for a function, a date, a symbol, a number or a boolean, every property there
  is), and \<open>undefined\<close> where there is none. \<open>functionText k\<close> is the text into which the
  function \<open>k\<close> of \<open>Object.prototype\<close> is converted. \<open>exponentText n\<close> is the text of a
  number of magnitude \<open>10^21\<close> or more, which is written with an exponent.
\<close>

record Builtins =
  inherited :: "JSValue \<Rightarrow> string \<Rightarrow> JSValue"
  functionText :: "string \<Rightarrow> string"
  exponentText :: "int \<Rightarrow> string"

text \<open>
  A property of an entry of the parsed array. The names read there (\<open>id\<close>, \<open>message\<close>,
  \<open>severity\<close>, \<open>suggestion\<close>, \<open>evidence\<close>) are no members of \<open>Object.prototype\<close>, so the
  read gives the own property or \<open>undefined\<close>.
\<close>

fun getProp :: "(string \<times> JSValue) list \<Rightarrow> string \<Rightarrow> JSValue" where
  "getProp props k = (case map_of props k of None \<Rightarrow> JUndefined | Some v \<Rightarrow> v)"

section \<open>Findings (core/src/types.ts)\<close>

datatype LintSeverity = error | warning | info

text \<open>
  The categories. \<open>objectMember k\<close> is not one of the type \<open>LintCategory\<close>: it is the
  member \<open>k\<close> of \<open>Object.prototype\<close>, which the parser of the semantic answers writes
  into the field for an id that is such a name.
\<close>

datatype LintCategory =
    contradiction | ambiguity | model_mismatch | cache_inefficiency | token_budget
  | ordering | duplication | deprecated | security | best_practice
  | objectMember string

record LintWarning =
  wid :: string
  category :: LintCategory
  severity :: LintSeverity
  message :: string
  wposition :: "Output option"
  fragments :: "string list option"
  suggestion :: "string option"
  evidence :: "string option"

section \<open>Parsing the provider's answer (lint/src/rules/semantic/parser.ts)\<close>

text \<open>
  \<open>CATEGORY_MAP[id]\<close>: the table is a plain object, so the read gives the own entry, for
  a name of \<open>Object.prototype\<close> the inherited member, and \<open>undefined\<close> (\<open>None\<close>) otherwise.
\<close>

fun CATEGORY_MAP :: "string \<Rightarrow> LintCategory option" where
  "CATEGORY_MAP k =
     (case map_of [(''semantic-contradiction'', contradiction),
                   (''semantic-ambiguity'', ambiguity),
                   (''semantic-injection-risk'', security),
                   (''semantic-verbosity'', token_budget),
                   (''semantic-missing-practice'', best_practice),
                   (''semantic-scope-creep'', best_practice)] k of
        Some c \<Rightarrow> Some c
      | None \<Rightarrow> if k \<in> set objectPrototypeNames then Some (objectMember k) else None)"

fun VALID_SEVERITIES :: "string \<Rightarrow> LintSeverity option" where
  "VALID_SEVERITIES k = map_of [(''error'', error), (''warning'', warning), (''info'', info)] k"

text \<open>\<open>String.prototype.lastIndexOf\<close> for a pattern of one code unit, and \<open>slice\<close>.\<close>

fun lastIndexLoop :: "char \<Rightarrow> string \<Rightarrow> int \<Rightarrow> int \<Rightarrow> int" where
  "lastIndexLoop c [] k found = found"
| "lastIndexLoop c (x # xs) k found = lastIndexLoop c xs (k + 1) (if x = c then k else found)"

definition lastIndexOfChar :: "string \<Rightarrow> char \<Rightarrow> int" where
  "lastIndexOfChar s c = lastIndexLoop c s 0 (- 1)"

definition slice :: "string \<Rightarrow> int \<Rightarrow> int \<Rightarrow> string" where
  "slice s a b = take (nat b - nat a) (drop (nat a) s)"

text \<open>The fence expression \<open>/```(?:json)?\s*([\s\S]*?)```/\<close>.\<close>

definition fenceRegex :: regex where
  "fenceRegex =
     seqs [lit ''```'', Opt (lit ''json''), Star spaceCls, Group (Lazy (Chr (\<lambda>c. True))), lit ''```'']"

text \<open>
  \<open>tryParse\<close>. \<open>JSON.parse\<close> belongs to the host; it is the parameter \<open>parse\<close>, which
  gives \<open>None\<close> where \<open>JSON.parse\<close> throws. Each of the three strategies catches that,
  and the function returns \<open>null\<close> when none has given a value.
\<close>

definition directParse :: "(string \<Rightarrow> JSValue option) \<Rightarrow> string \<Rightarrow> JSValue option" where
  "directParse parse trimmed = parse trimmed"

definition fenceParse :: "(string \<Rightarrow> JSValue option) \<Rightarrow> string \<Rightarrow> JSValue option" where
  "fenceParse parse trimmed =
     (case exec fenceRegex trimmed of
        Some (pre, m, cap, rest) \<Rightarrow> parse (trim (orEmpty cap))
      | None \<Rightarrow> None)"

definition bracketParse :: "(string \<Rightarrow> JSValue option) \<Rightarrow> string \<Rightarrow> JSValue option" where
  "bracketParse parse trimmed =
     (let firstBracket = indexOf trimmed ''['' 0;
          lastBracket = lastIndexOfChar trimmed CHR '']''
      in if firstBracket \<noteq> - 1 \<and> lastBracket > firstBracket
         then parse (slice trimmed firstBracket (lastBracket + 1)) else None)"

definition tryParse :: "(string \<Rightarrow> JSValue option) \<Rightarrow> string \<Rightarrow> JSValue" where
  "tryParse parse raw =
     (let trimmed = trim raw
      in case directParse parse trimmed of
           Some v \<Rightarrow> v
         | None \<Rightarrow>
            (case fenceParse parse trimmed of
               Some v \<Rightarrow> v
             | None \<Rightarrow>
                (case bracketParse parse trimmed of
                   Some v \<Rightarrow> v
                 | None \<Rightarrow> JNull)))"

definition parseErrorWarning :: LintWarning where
  "parseErrorWarning =
     \<lparr>wid = ''semantic-parse-error'', category = best_practice, severity = info,
      message = ''LLM linter returned unparseable response. Raw output available in debug mode.'',
      wposition = None, fragments = None, suggestion = None, evidence = None\<rparr>"

text \<open>
  One entry of the parsed array: anything but an object or an array is skipped, and so is
  an entry whose \<open>id\<close> or \<open>message\<close> is not a non-empty string.
\<close>

fun stringProp :: "(string \<times> JSValue) list \<Rightarrow> string \<Rightarrow> string option" where
  "stringProp props k = (case getProp props k of JString v \<Rightarrow> Some v | _ \<Rightarrow> None)"

fun findingOf :: "JSValue \<Rightarrow> LintWarning list" where
  "findingOf (JObject props) =
     (case (stringProp props ''id'', stringProp props ''message'') of
        (Some i, Some msg) \<Rightarrow>
          if i = [] \<or> msg = [] then []
          else [\<lparr>wid = i,
                 category = (case CATEGORY_MAP i of None \<Rightarrow> best_practice | Some c \<Rightarrow> c),
                 severity = (case stringProp props ''severity'' of
                               None \<Rightarrow> info
                             | Some sv \<Rightarrow> (case VALID_SEVERITIES sv of None \<Rightarrow> info | Some v \<Rightarrow> v)),
                 message = msg, wposition = None, fragments = None,
                 suggestion = stringProp props ''suggestion'',
                 evidence = stringProp props ''evidence''\<rparr>]
      | _ \<Rightarrow> [])"
| "findingOf v = []"

definition parseSemanticResponse :: "(string \<Rightarrow> JSValue option) \<Rightarrow> string \<Rightarrow> LintWarning list" where
  "parseSemanticResponse parse raw =
     (case tryParse parse raw of
        JArray items \<Rightarrow> concat (map findingOf items)
      | _ \<Rightarrow> [parseErrorWarning])"

section \<open>Inline ignore directives (lint/src/linter.ts, parseIgnoredRules)\<close>

text \<open>
  The four expressions of \<open>parseIgnoredRules\<close>, all with the flag \<open>i\<close>:
  \<open>/<!--\s*promptier-ignore-all\s*-->/\<close>, \<open>/\[promptier-ignore-all\]/\<close>,
  \<open>/<!--\s*promptier-ignore\s+([\w-]+(?:\s*,\s*[\w-]+)*)\s*-->/g\<close> and
  \<open>/\[promptier-ignore:\s*([\w-]+(?:\s*,\s*[\w-]+)*)\]/g\<close>; the lists are split at
  \<open>/\s*,\s*/\<close>.
\<close>

definition idChar :: regex where
  "idChar = Chr (\<lambda>c. isWordChar c \<or> c = CHR ''-'')"

definition idList :: regex where
  "idList = Group (Seq (Plus idChar) (Star (seqs [Star spaceCls, lit '','', Star spaceCls, Plus idChar])))"

definition ignoreAllXml :: regex where
  "ignoreAllXml = seqs [lit ''<!--'', Star spaceCls, liti ''promptier-ignore-all'', Star spaceCls, lit ''-->'']"

definition ignoreAllBracket :: regex where
  "ignoreAllBracket = liti ''[promptier-ignore-all]''"

definition ignoreXml :: regex where
  "ignoreXml = seqs [lit ''<!--'', Star spaceCls, liti ''promptier-ignore'', Plus spaceCls, idList, Star spaceCls, lit ''-->'']"

definition ignoreBracket :: regex where
  "ignoreBracket = seqs [liti ''[promptier-ignore:'', Star spaceCls, idList, lit '']'']"

definition commaRegex :: regex where
  "commaRegex = seqs [Star spaceCls, lit '','', Star spaceCls]"

text \<open>
  The set of ignored rule ids, as the list of the ids in the order they are added; the
  program only asks whether an id is in it. The id \<open>*\<close> stands for all rules.
\<close>

definition directiveIds :: "regex \<Rightarrow> string \<Rightarrow> string list" where
  "directiveIds r text =
     concat (map (\<lambda>(m, cap). map trim (split commaRegex (orEmpty cap))) (matchAll r text))"

definition parseIgnoredRules :: "string \<Rightarrow> string list" where
  "parseIgnoredRules text =
     (if test ignoreAllXml text \<or> test ignoreAllBracket text then [''*'']
      else directiveIds ignoreXml text @ directiveIds ignoreBracket text)"


section \<open>Formatters (core/src/format)\<close>

datatype FormatName = xml | markdown | plain

text \<open>
  The three built-in strategies. The Markdown formatter carries its header level, the
  plain one its separator and whether it writes labels.
\<close>

datatype Formatter = XmlFormatter | MarkdownFormatter nat | PlainFormatter string bool

definition createXmlFormatter :: Formatter where
  "createXmlFormatter = XmlFormatter"

definition createMarkdownFormatter :: Formatter where
  "createMarkdownFormatter = MarkdownFormatter 2"

definition createPlainFormatter :: Formatter where
  "createPlainFormatter = PlainFormatter ''---'' True"

fun createFormatter :: "FormatName \<Rightarrow> Formatter" where
  "createFormatter xml = createXmlFormatter"
| "createFormatter markdown = createMarkdownFormatter"
| "createFormatter plain = createPlainFormatter"

fun SECTION_TAGS :: "SectionType \<Rightarrow> string" where
  "SECTION_TAGS identityT = ''identity''"
| "SECTION_TAGS capabilitiesT = ''capabilities''"
| "SECTION_TAGS constraintsT = ''constraints''"
| "SECTION_TAGS contextT = ''context''"
| "SECTION_TAGS domainT = ''domain''"
| "SECTION_TAGS toolsT = ''tools''"
| "SECTION_TAGS formatT = ''format''"
| "SECTION_TAGS examplesT = ''examples''"
| "SECTION_TAGS customT = ''section''"

fun SECTION_HEADERS :: "SectionType \<Rightarrow> string" where
  "SECTION_HEADERS identityT = ''Identity''"
| "SECTION_HEADERS capabilitiesT = ''Capabilities''"
| "SECTION_HEADERS constraintsT = ''Constraints''"
| "SECTION_HEADERS contextT = ''Context''"
| "SECTION_HEADERS domainT = ''Domain Knowledge''"
| "SECTION_HEADERS toolsT = ''Available Tools''"
| "SECTION_HEADERS formatT = ''Output Format''"
| "SECTION_HEADERS examplesT = ''Examples''"
| "SECTION_HEADERS customT = ''Section''"

fun SECTION_LABELS :: "SectionType \<Rightarrow> string" where
  "SECTION_LABELS identityT = ''IDENTITY''"
| "SECTION_LABELS capabilitiesT = ''CAPABILITIES''"
| "SECTION_LABELS constraintsT = ''CONSTRAINTS''"
| "SECTION_LABELS contextT = ''CONTEXT''"
| "SECTION_LABELS domainT = ''DOMAIN''"
| "SECTION_LABELS toolsT = ''TOOLS''"
| "SECTION_LABELS formatT = ''OUTPUT FORMAT''"
| "SECTION_LABELS examplesT = ''EXAMPLES''"
| "SECTION_LABELS customT = ''SECTION''"

text \<open>
  \<open>sanitizeTagName\<close>: lower-case the name, replace every code unit outside
  \<open>[a-z0-9_.-]\<close> by a dash, collapse runs of dashes, drop one dash at the start and one
  at the end, and put an underscore in front unless the first code unit is a letter or
  an underscore.
\<close>

fun collapseDashes :: "string \<Rightarrow> string" where
  "collapseDashes [] = []"
| "collapseDashes [c] = [c]"
| "collapseDashes (c # d # cs) =
     (if c = CHR ''-'' \<and> d = CHR ''-'' then collapseDashes (d # cs) else c # collapseDashes (d # cs))"

definition dropEndDash :: "string \<Rightarrow> string" where
  "dropEndDash s = (if s \<noteq> [] \<and> last s = CHR ''-'' then butlast s else s)"

fun dropEdgeDashes :: "string \<Rightarrow> string" where
  "dropEdgeDashes [] = []"
| "dropEdgeDashes (c # cs) = (if c = CHR ''-'' then dropEndDash cs else dropEndDash (c # cs))"

definition sanitizeTagName :: "string \<Rightarrow> string" where
  "sanitizeTagName nm =
     (let sanitized0 = dropEdgeDashes (collapseDashes
            (map (\<lambda>c. if isLowerAscii c \<or> isDigit c \<or> c \<in> {CHR ''_'', CHR ''.'', CHR ''-''}
                       then c else CHR ''-'') (toLowerCase nm)));
          sanitized =
            (case sanitized0 of
               [] \<Rightarrow> ''_''
             | c # cs \<Rightarrow> if isLowerAscii c \<or> isUpperAscii c \<or> c = CHR ''_''
                         then sanitized0 else CHR ''_'' # sanitized0)
      in if sanitized = [] then ''section'' else sanitized)"

text \<open>
  \<open>toTitleCase\<close>: dashes and underscores become spaces, then \<open>/\b\w/g\<close> puts every word
  character that follows the start or a non-word character into upper case.
\<close>

fun capitalizeWords :: "bool \<Rightarrow> string \<Rightarrow> string" where
  "capitalizeWords prevWord [] = []"
| "capitalizeWords prevWord (c # cs) =
     (if isWordChar c \<and> \<not> prevWord then asciiUpper c else c) # capitalizeWords (isWordChar c) cs"

definition toTitleCase :: "string \<Rightarrow> string" where
  "toTitleCase str = capitalizeWords False (dashesToSpaces str)"

definition getTagName :: "RenderedSection \<Rightarrow> string" where
  "getTagName section =
     (if rtype section = customT \<and> truthyString (name section)
      then sanitizeTagName (orEmpty (name section)) else SECTION_TAGS (rtype section))"

definition getHeader :: "RenderedSection \<Rightarrow> string" where
  "getHeader section =
     (if rtype section = customT \<and> truthyString (name section)
      then toTitleCase (orEmpty (name section)) else SECTION_HEADERS (rtype section))"

definition getLabel :: "RenderedSection \<Rightarrow> string" where
  "getLabel section =
     (if rtype section = customT \<and> truthyString (name section)
      then dashesToSpaces (toUpperCase (orEmpty (name section))) else SECTION_LABELS (rtype section))"

fun formatSection :: "Formatter \<Rightarrow> RenderedSection \<Rightarrow> string" where
  "formatSection XmlFormatter section =
     (let tagName = getTagName section; c = trim (content section)
      in if c = [] then ''<'' @ tagName @ ''></'' @ tagName @ ''>''
         else if CHR 0x0A \<notin> set c \<and> length c < 80
         then ''<'' @ tagName @ ''>'' @ c @ ''</'' @ tagName @ ''>''
         else ''<'' @ tagName @ ''>'' @ [CHR 0x0A] @ c @ [CHR 0x0A] @ ''</'' @ tagName @ ''>'')"
| "formatSection (MarkdownFormatter headerLevel) section =
     (let header = getHeader section; c = trim (content section);
          headerPrefix = replicate headerLevel CHR ''#''
      in if c = [] then headerPrefix @ '' '' @ header
         else headerPrefix @ '' '' @ header @ [CHR 0x0A, CHR 0x0A] @ c)"
| "formatSection (PlainFormatter separator includeLabels) section =
     (let c = trim (content section)
      in if \<not> includeLabels then c
         else let label = getLabel section
              in if c = [] then ''['' @ label @ '']''
                 else ''['' @ label @ '']'' @ [CHR 0x0A] @ c)"

fun format :: "Formatter \<Rightarrow> RenderedSection list \<Rightarrow> string" where
  "format XmlFormatter sections =
     joinWith [CHR 0x0A, CHR 0x0A] (map (formatSection XmlFormatter) sections)"
| "format (MarkdownFormatter headerLevel) sections =
     joinWith [CHR 0x0A, CHR 0x0A] (map (formatSection (MarkdownFormatter headerLevel)) sections)"
| "format (PlainFormatter separator includeLabels) sections =
     joinWith ([CHR 0x0A, CHR 0x0A] @ separator @ [CHR 0x0A, CHR 0x0A])
       (map (formatSection (PlainFormatter separator includeLabels)) sections)"

text \<open>The formatter of a render with \<open>formatForModel: false\<close>: the texts, untrimmed.\<close>

definition rawFormat :: "RenderedSection list \<Rightarrow> string" where
  "rawFormat sections = joinWith [CHR 0x0A, CHR 0x0A] (map content sections)"

section \<open>Converting values to text\<close>

text \<open>
  \<open>String(n)\<close> for an integer: its decimal digits below \<open>10^21\<close>, and from there on the
  form with an exponent, which is the host's.
\<close>

fun digitChar :: "nat \<Rightarrow> char" where
  "digitChar n = (''0123456789'' ! (n mod 10))"

fun showNat :: "nat \<Rightarrow> string" where
  "showNat n = (if n < 10 then [digitChar n] else showNat (n div 10) @ [digitChar n])"

declare showNat.simps [simp del]

definition showDigits :: "int \<Rightarrow> string" where
  "showDigits i = (if i < 0 then CHR ''-'' # showNat (nat (- i)) else showNat (nat i))"

definition showInt :: "Builtins \<Rightarrow> int \<Rightarrow> string" where
  "showInt b i = (if \<bar>i\<bar> < 10 ^ 21 then showDigits i else exponentText b i)"

text \<open>
  \<open>JSON.stringify\<close> on the values of the model. A string is quoted with the escapes of
  the language; \<open>undefined\<close>, functions and symbols have no JSON text (the result is
  \<open>undefined\<close>, here \<open>None\<close>; inside an array they are written \<open>null\<close>, inside an
  object their property is left out); a BigInt makes it throw a \<open>TypeError\<close>.
\<close>

definition hexDigit :: "nat \<Rightarrow> char" where
  "hexDigit n = (''0123456789abcdef'' ! (n mod 16))"

definition quoteChar :: "char \<Rightarrow> string" where
  "quoteChar c =
     (if c = CHR 0x22 then [CHR 0x5C, CHR 0x22]
      else if c = CHR 0x5C then [CHR 0x5C, CHR 0x5C]
      else if c = CHR 0x08 then [CHR 0x5C, CHR ''b'']
      else if c = CHR 0x0C then [CHR 0x5C, CHR ''f'']
      else if c = CHR 0x0A then [CHR 0x5C, CHR ''n'']
      else if c = CHR 0x0D then [CHR 0x5C, CHR ''r'']
      else if c = CHR 0x09 then [CHR 0x5C, CHR ''t'']
      else if (of_char c :: nat) < 32
      then [CHR 0x5C, CHR ''u'', CHR ''0'', CHR ''0'', hexDigit (of_char c div 16), hexDigit (of_char c)]
      else [c])"

definition quoteJSON :: "string \<Rightarrow> string" where
  "quoteJSON s = [CHR 0x22] @ concat (map quoteChar s) @ [CHR 0x22]"

fun stringify :: "Builtins \<Rightarrow> JSValue \<Rightarrow> error + string option"
  and stringifyElems :: "Builtins \<Rightarrow> JSValue list \<Rightarrow> error + string list"
  and stringifyProps :: "Builtins \<Rightarrow> (string \<times> JSValue) list \<Rightarrow> error + string list" where
  "stringify h JUndefined = Inr None"
| "stringify h JNull = Inr (Some ''null'')"
| "stringify h (JBoolean b) = Inr (Some (if b then ''true'' else ''false''))"
| "stringify h (JNumber n) = Inr (Some (showInt h n))"
| "stringify h (JString s) = Inr (Some (quoteJSON s))"
| "stringify h (JBigInt n) = Inl (TypeError ''Do not know how to serialize a BigInt'')"
| "stringify h JSymbol = Inr None"
| "stringify h (JFunction f) = Inr None"
| "stringify h (JDate isoText) = Inr (Some (quoteJSON isoText))"
| "stringify h (JArray xs) =
     (case stringifyElems h xs of
        Inl e \<Rightarrow> Inl e
      | Inr ts \<Rightarrow> Inr (Some (''['' @ joinWith '','' ts @ '']'')))"
| "stringify h (JObject props) =
     (case stringifyProps h props of
        Inl e \<Rightarrow> Inl e
      | Inr ts \<Rightarrow> Inr (Some (''{'' @ joinWith '','' ts @ ''}'')))"
| "stringifyElems h [] = Inr []"
| "stringifyElems h (x # xs) =
     (case stringify h x of
        Inl e \<Rightarrow> Inl e
      | Inr t \<Rightarrow>
          (case stringifyElems h xs of
             Inl e \<Rightarrow> Inl e
           | Inr ts \<Rightarrow> Inr ((case t of None \<Rightarrow> ''null'' | Some u \<Rightarrow> u) # ts)))"
| "stringifyProps h [] = Inr []"
| "stringifyProps h (kv # kvs) =
     (case stringify h (snd kv) of
        Inl e \<Rightarrow> Inl e
      | Inr t \<Rightarrow>
          (case stringifyProps h kvs of
             Inl e \<Rightarrow> Inl e
           | Inr ts \<Rightarrow>
               Inr ((case t of None \<Rightarrow> [] | Some u \<Rightarrow> [quoteJSON (fst kv) @ '':'' @ u]) @ ts)))"

section \<open>Prompts and sections (core/src/types.ts, section.ts)\<close>

type_synonym RenderContext = "(string \<times> JSValue) list"

record FragmentMetadata =
  fdeprecated :: "bool option"
  supersededBy :: "string option"

record FragmentDefinition =
  fid :: string
  fversion :: string
  fcontent :: string
  metadata :: "FragmentMetadata option"
  fsourceFile :: "string option"
  fsourceLine :: "int option"

text \<open>
  The content of a section: a literal string, a fragment, or a generator, a function of
  the context that returns its text or throws (a rejected promise is a throw at the
  \<open>await\<close>).
\<close>

datatype Content =
    Literal string
  | FragmentContent FragmentDefinition
  | Dynamic "RenderContext \<Rightarrow> error + string"

record SectionConfig =
  stype :: SectionType
  sname :: "string option"
  spriority :: int
  scacheable :: bool
  truncatable :: bool
  maxTokens :: "int option"
  scontent :: Content

record PromptOptions =
  optMaxTokens :: "int option"
  cacheOptimize :: "bool option"
  formatForModel :: "bool option"
  optFormat :: "FormatName option"

record Prompt =
  pname :: string
  model :: string
  sections :: "SectionConfig list"
  options :: PromptOptions

fun typeName :: "SectionType \<Rightarrow> string" where
  "typeName identityT = ''identity''"
| "typeName capabilitiesT = ''capabilities''"
| "typeName constraintsT = ''constraints''"
| "typeName contextT = ''context''"
| "typeName domainT = ''domain''"
| "typeName toolsT = ''tools''"
| "typeName formatT = ''format''"
| "typeName examplesT = ''examples''"
| "typeName customT = ''custom''"

fun DEFAULT_PRIORITIES :: "SectionType \<Rightarrow> int" where
  "DEFAULT_PRIORITIES identityT = 0"
| "DEFAULT_PRIORITIES capabilitiesT = 10"
| "DEFAULT_PRIORITIES constraintsT = 20"
| "DEFAULT_PRIORITIES domainT = 30"
| "DEFAULT_PRIORITIES toolsT = 40"
| "DEFAULT_PRIORITIES contextT = 50"
| "DEFAULT_PRIORITIES examplesT = 60"
| "DEFAULT_PRIORITIES formatT = 70"
| "DEFAULT_PRIORITIES customT = 50"

fun DEFAULT_CACHEABLE :: "SectionType \<Rightarrow> bool" where
  "DEFAULT_CACHEABLE contextT = False"
| "DEFAULT_CACHEABLE t = True"

text \<open>\<open>Section.create\<close> and \<open>Section.context\<close> with no options.\<close>

definition createSection :: "SectionType \<Rightarrow> Content \<Rightarrow> SectionConfig" where
  "createSection t c =
     \<lparr>stype = t, sname = None, spriority = DEFAULT_PRIORITIES t, scacheable = DEFAULT_CACHEABLE t,
      truncatable = False, maxTokens = None, scontent = c\<rparr>"

definition contextSection :: "(RenderContext \<Rightarrow> error + string) \<Rightarrow> SectionConfig" where
  "contextSection dynamicFn =
     \<lparr>stype = contextT, sname = None, spriority = DEFAULT_PRIORITIES contextT, scacheable = False,
      truncatable = False, maxTokens = None, scontent = Dynamic dynamicFn\<rparr>"

fun isDynamic :: "SectionConfig \<Rightarrow> bool" where
  "isDynamic section = (case scontent section of Dynamic f \<Rightarrow> True | _ \<Rightarrow> False)"

fun getFragment :: "SectionConfig \<Rightarrow> FragmentDefinition option" where
  "getFragment section =
     (case scontent section of
        Dynamic f \<Rightarrow> None
      | Literal c \<Rightarrow>
          Some \<lparr>fid = ''anonymous-'' @ typeName (stype section), fversion = ''1.0.0'', fcontent = c,
                metadata = None, fsourceFile = None, fsourceLine = None\<rparr>
      | FragmentContent f \<Rightarrow> Some f)"

section \<open>Resolving content (Prompt.resolveSections, resolveContent, interpolate)\<close>

text \<open>
  \<open>getNestedValue\<close>: the path is split at the dots and followed from the context; it
  stops with \<open>undefined\<close> at \<open>null\<close> or \<open>undefined\<close>. The read \<open>current[part]\<close> gives
  the own property of an object, the length and the indexed elements of an array and of
  a string, and in every other case what the value inherits from the built-in objects of
  the host (so \<open>constructor\<close> read from the context is the function \<open>Object\<close>).
\<close>

definition digitValue :: "char \<Rightarrow> nat" where
  "digitValue c = (case map_of (zip ''0123456789'' [0..<10]) c of None \<Rightarrow> 0 | Some d \<Rightarrow> d)"

fun parseIndex :: "string \<Rightarrow> nat option" where
  "parseIndex s =
     (if s = [] \<or> \<not> list_all isDigit s \<or> (take 1 s = ''0'' \<and> length s > 1) then None
      else Some (foldl (\<lambda>n c. 10 * n + digitValue c) 0 s))"

fun readProp :: "Builtins \<Rightarrow> JSValue \<Rightarrow> string \<Rightarrow> JSValue" where
  "readProp h (JObject props) k =
     (case map_of props k of Some v \<Rightarrow> v | None \<Rightarrow> inherited h (JObject props) k)"
| "readProp h (JArray xs) k =
     (if k = ''length'' then JNumber (int (length xs))
      else case parseIndex k of
             Some i \<Rightarrow> if i < length xs then xs ! i else inherited h (JArray xs) k
           | None \<Rightarrow> inherited h (JArray xs) k)"
| "readProp h (JString s) k =
     (if k = ''length'' then JNumber (int (length s))
      else case parseIndex k of
             Some i \<Rightarrow> if i < length s then JString [s ! i] else inherited h (JString s) k
           | None \<Rightarrow> inherited h (JString s) k)"
| "readProp h v k = inherited h v k"

fun followPath :: "Builtins \<Rightarrow> JSValue \<Rightarrow> string list \<Rightarrow> JSValue" where
  "followPath h current [] = current"
| "followPath h current (part # parts) =
     (if current = JNull \<or> current = JUndefined then JUndefined
      else followPath h (readProp h current part) parts)"

definition getNestedValue :: "Builtins \<Rightarrow> RenderContext \<Rightarrow> string \<Rightarrow> JSValue" where
  "getNestedValue h obj path = followPath h (JObject obj) (split (lit ''.'') path)"

text \<open>
  The callback of \<open>interpolate\<close>: what a placeholder is replaced by. An unresolved path
  leaves the placeholder as it is; an object goes through \<open>JSON.stringify\<close>, and so does
  every value that is not a string, a number or a boolean.
\<close>

fun substitute :: "Builtins \<Rightarrow> RenderContext \<Rightarrow> string \<Rightarrow> string option \<Rightarrow> error + string" where
  "substitute h ctx m key =
     (case getNestedValue h ctx (orEmpty key) of
        JUndefined \<Rightarrow> Inr m
      | JNull \<Rightarrow> Inr ''null''
      | JString v \<Rightarrow> Inr v
      | JNumber n \<Rightarrow> Inr (showInt h n)
      | JBoolean b \<Rightarrow> Inr (if b then ''true'' else ''false'')
      | v \<Rightarrow> (case stringify h v of
                 Inl e \<Rightarrow> Inl e
               | Inr None \<Rightarrow> Inr ''undefined''
               | Inr (Some t) \<Rightarrow> Inr t))"

text \<open>The placeholder expression \<open>/\{\{(\$?\w+(?:\.\w+)*)\}\}/g\<close>.\<close>

definition placeholder :: regex where
  "placeholder =
     seqs [lit ''{{'',
           Group (seqs [Opt (lit ''$''), Plus wordCls, Star (Seq (lit ''.'') (Plus wordCls))]),
           lit ''}}'']"

text \<open>
  \<open>String.prototype.replace\<close> with a global expression and a callback: the gaps stay, each
  match is replaced by what the callback returns, from left to right; a callback that
  throws ends the replacement with its error.
\<close>

fun replacePieces :: "(string \<Rightarrow> string option \<Rightarrow> error + string) \<Rightarrow> piece list \<Rightarrow> error + string" where
  "replacePieces f [] = Inr []"
| "replacePieces f (Gap g # ps) =
     (case replacePieces f ps of Inl e \<Rightarrow> Inl e | Inr t \<Rightarrow> Inr (g @ t))"
| "replacePieces f (Match m cap # ps) =
     (case f m cap of
        Inl e \<Rightarrow> Inl e
      | Inr u \<Rightarrow> (case replacePieces f ps of Inl e \<Rightarrow> Inl e | Inr t \<Rightarrow> Inr (u @ t)))"

definition interpolate :: "Builtins \<Rightarrow> string \<Rightarrow> RenderContext \<Rightarrow> error + string" where
  "interpolate h c ctx = replacePieces (substitute h ctx) (pieces placeholder c)"

fun resolveContent :: "Builtins \<Rightarrow> Content \<Rightarrow> RenderContext \<Rightarrow> error + string" where
  "resolveContent h (Dynamic f) ctx = f ctx"
| "resolveContent h (Literal c) ctx = interpolate h c ctx"
| "resolveContent h (FragmentContent f) ctx = interpolate h (fcontent f) ctx"

text \<open>
  \<open>resolveSections\<close>: the sections are resolved one after the other, in declaration order;
  the first content that throws ends the loop with its error.
\<close>

definition renderedSection :: "SectionConfig \<Rightarrow> int \<Rightarrow> string \<Rightarrow> RenderedSection" where
  "renderedSection section i c =
     \<lparr>rtype = stype section, name = sname section, content = c,
      priority = spriority section, cacheable = scacheable section,
      sourceMapping =
        \<lparr>outputPos = \<lparr>start = 0, finish = 0, line = 0, column = 0\<rparr>,
         source =
           \<lparr>kind = (if isDynamic section then dynamicK else fragmentK),
            fragmentId = map_option fid (getFragment section),
            fragmentVersion = map_option fversion (getFragment section),
            sectionType = Some (stype section), sectionIndex = Some i,
            sourceFile = (case getFragment section of None \<Rightarrow> None | Some f \<Rightarrow> fsourceFile f),
            fileLine = (case getFragment section of None \<Rightarrow> None | Some f \<Rightarrow> fsourceLine f),
            fileColumn = None, dynamicKey = None\<rparr>\<rparr>\<rparr>"

fun resolveLoop ::
  "Builtins \<Rightarrow> SectionConfig list \<Rightarrow> int \<Rightarrow> RenderContext \<Rightarrow> error + RenderedSection list" where
  "resolveLoop h [] i ctx = Inr []"
| "resolveLoop h (section # rest) i ctx =
     (case resolveContent h (scontent section) ctx of
        Inl e \<Rightarrow> Inl e
      | Inr c \<Rightarrow>
          (case resolveLoop h rest (i + 1) ctx of
             Inl e \<Rightarrow> Inl e
           | Inr rs \<Rightarrow> Inr (renderedSection section i c # rs)))"

definition resolveSections :: "Builtins \<Rightarrow> Prompt \<Rightarrow> RenderContext \<Rightarrow> error + RenderedSection list" where
  "resolveSections h p ctx = resolveLoop h (sections p) 0 ctx"

section \<open>Assembling the provenance table (Prompt.buildSourceMap)\<close>

text \<open>
  The branch of \<open>buildSourceMap\<close> that adds the mapping of a section found on
  \<open>[a, b)\<close>: a dynamic section, a section with a fragment identifier, or a literal.
\<close>

definition sectionMapping :: "SourceMap \<Rightarrow> RenderedSection \<Rightarrow> int \<Rightarrow> int \<Rightarrow> int \<Rightarrow> SourceMap" where
  "sectionMapping sm s i a b =
     (let src = source (sourceMapping s)
      in if kind src = dynamicK then addDynamicMapping a b (rtype s) i None sm
         else if truthyString (fragmentId src)
         then addFragmentMapping a b (orEmpty (fragmentId src))
                (case fragmentVersion src of None \<Rightarrow> ''1.0.0'' | Some v \<Rightarrow> v)
                (rtype s) i (sourceFile src) (fileLine src) sm
         else addLiteralMapping a b (rtype s) i sm)"

text \<open>
  The loop of \<open>buildSourceMap\<close>: \<open>i\<close> is the section's index in the ordered list and
  \<open>offset\<close> the search cursor. A section whose text is not found from the cursor on is
  skipped (\<open>continue\<close>): no mapping, and the cursor stays.
\<close>

fun buildLoop :: "string \<Rightarrow> RenderedSection list \<Rightarrow> int \<Rightarrow> int \<Rightarrow> SourceMap \<Rightarrow> SourceMap" where
  "buildLoop text [] i offset sm = sm"
| "buildLoop text (s # ss) i offset sm =
     (let sectionStart = indexOf text (content s) offset
      in if sectionStart = - 1 then buildLoop text ss (i + 1) offset sm
         else
           let sectionEnd = sectionStart + int (length (content s))
           in buildLoop text ss (i + 1) sectionEnd (sectionMapping sm s i sectionStart sectionEnd))"

definition buildSourceMap :: "string \<Rightarrow> string \<Rightarrow> RenderedSection list \<Rightarrow> SourceMap" where
  "buildSourceMap promptName text ordered =
     buildLoop text ordered 0 0 (setRenderedText text (newSourceMap promptName))"

text \<open>
  The order of a table: each mapping ends where it starts or later, and the next
  mapping starts at that end or later.
\<close>

fun chained :: "int \<Rightarrow> SourceMapping list \<Rightarrow> bool" where
  "chained lo [] = True"
| "chained lo (m # ms) =
     (lo \<le> start (outputPos m) \<and> start (outputPos m) \<le> finish (outputPos m)
      \<and> chained (finish (outputPos m)) ms)"

definition startsStrictlyIncreasing :: "SourceMapping list \<Rightarrow> bool" where
  "startsStrictlyIncreasing ms = sorted_wrt (\<lambda>a b. start (outputPos a) < start (outputPos b)) ms"

definition startsIncreasing :: "SourceMapping list \<Rightarrow> bool" where
  "startsIncreasing ms = sorted_wrt (\<lambda>a b. start (outputPos a) \<le> start (outputPos b)) ms"

text \<open>
  What a table says about the sections it was built from. The section of a mapping is
  the one at its section index in the ordered list, and the text a mapping covers is the
  part of the output on its range. A table is \<open>located\<close> from a cursor when every
  mapping lies on the first occurrence of the text of its section at or after the
  cursor, has the length of that text, and moves the cursor to its end for the next
  mapping. The sections of a table increase when every mapping is of a later section
  than the mappings before it.
\<close>

definition sectionOf :: "RenderedSection list \<Rightarrow> SourceMapping \<Rightarrow> RenderedSection option" where
  "sectionOf ordered m =
     (case sectionIndex (source m) of
        None \<Rightarrow> None
      | Some i \<Rightarrow> if 0 \<le> i \<and> nat i < length ordered then Some (ordered ! nat i) else None)"

definition covered :: "string \<Rightarrow> SourceMapping \<Rightarrow> string" where
  "covered text m = slice text (start (outputPos m)) (finish (outputPos m))"

fun located :: "string \<Rightarrow> RenderedSection list \<Rightarrow> int \<Rightarrow> SourceMapping list \<Rightarrow> bool" where
  "located text ordered cursor [] = True"
| "located text ordered cursor (m # ms) =
     (case sectionOf ordered m of
        None \<Rightarrow> False
      | Some s \<Rightarrow>
          start (outputPos m) = indexOf text (content s) cursor
          \<and> start (outputPos m) \<noteq> - 1
          \<and> finish (outputPos m) = start (outputPos m) + int (length (content s))
          \<and> located text ordered (finish (outputPos m)) ms)"

definition sectionsIncreasing :: "SourceMapping list \<Rightarrow> bool" where
  "sectionsIncreasing ms =
     sorted_wrt (\<lambda>a b. case (sectionIndex (source a), sectionIndex (source b)) of
                          (Some i, Some j) \<Rightarrow> i < j
                        | _ \<Rightarrow> False) ms"

text \<open>
  The cursor of the search for the section at index \<open>i\<close>, read from a table: the end of
  the last mapping of an earlier section, and the cursor \<open>c\<close> the table starts from when
  there is none. A section is mapped when the table has a mapping with its index.
\<close>

fun cursorFrom :: "int \<Rightarrow> SourceMapping list \<Rightarrow> int \<Rightarrow> int" where
  "cursorFrom c [] i = c"
| "cursorFrom c (m # ms) i =
     (case sectionIndex (source m) of
        None \<Rightarrow> cursorFrom c ms i
      | Some j \<Rightarrow> if j < i then cursorFrom (finish (outputPos m)) ms i else cursorFrom c ms i)"

definition mapped :: "SourceMapping list \<Rightarrow> int \<Rightarrow> bool" where
  "mapped ms i = list_ex (\<lambda>m. sectionIndex (source m) = Some i) ms"

section \<open>Models and token counts (core/src/models, tokens.ts)\<close>

datatype Tokenizer = cl100k_base | o200k_base | customTokenizerT

text \<open>
  \<open>ModelConfig\<close>. A custom tokenizer is a function of the host program and may throw.
  The field \<open>cacheConfig\<close>, which the pipeline never reads, is left out.
\<close>

record ModelConfig =
  mid :: string
  contextWindow :: int
  preferredFormat :: FormatName
  supportsSystemPrompt :: bool
  supportsCaching :: bool
  tokenizer :: Tokenizer
  customTokenizer :: "(string \<Rightarrow> error + int) option"

datatype ModelFamily = claude | gpt | gemini | unknown

definition alts :: "string list \<Rightarrow> regex" where
  "alts xs = foldr (\<lambda>x r. Alt (liti x) r) (butlast xs) (liti (last xs))"

fun MODEL_PATTERNS :: "ModelFamily \<Rightarrow> regex" where
  "MODEL_PATTERNS claude = alts [''claude'', ''anthropic'']"
| "MODEL_PATTERNS gpt = alts [''gpt'', ''openai'', ''o1-'', ''o3-'']"
| "MODEL_PATTERNS gemini = alts [''gemini'', ''google'']"
| "MODEL_PATTERNS unknown = Chr (\<lambda>c. False)"

definition detectModelFamily :: "string \<Rightarrow> ModelFamily" where
  "detectModelFamily modelId =
     (if test (MODEL_PATTERNS claude) modelId then claude
      else if test (MODEL_PATTERNS gpt) modelId then gpt
      else if test (MODEL_PATTERNS gemini) modelId then gemini
      else unknown)"

fun familyDefaults :: "ModelFamily \<Rightarrow> string \<Rightarrow> ModelConfig" where
  "familyDefaults claude i =
     \<lparr>mid = i, contextWindow = 200000, preferredFormat = xml, supportsSystemPrompt = True,
      supportsCaching = True, tokenizer = cl100k_base, customTokenizer = None\<rparr>"
| "familyDefaults gpt i =
     \<lparr>mid = i, contextWindow = 128000, preferredFormat = markdown, supportsSystemPrompt = True,
      supportsCaching = False, tokenizer = o200k_base, customTokenizer = None\<rparr>"
| "familyDefaults gemini i =
     \<lparr>mid = i, contextWindow = 1000000, preferredFormat = markdown, supportsSystemPrompt = True,
      supportsCaching = False, tokenizer = cl100k_base, customTokenizer = None\<rparr>"
| "familyDefaults unknown i =
     \<lparr>mid = i, contextWindow = 8192, preferredFormat = plain, supportsSystemPrompt = True,
      supportsCaching = False, tokenizer = cl100k_base, customTokenizer = None\<rparr>"

definition models :: "(string \<times> ModelConfig) list" where
  "models =
     [(''claude-opus-4-20250514'', familyDefaults claude ''claude-opus-4-20250514''),
      (''claude-sonnet-4-20250514'', familyDefaults claude ''claude-sonnet-4-20250514''),
      (''claude-haiku-3-20250514'', familyDefaults claude ''claude-haiku-3-20250514''),
      (''gpt-4o'', familyDefaults gpt ''gpt-4o''),
      (''gpt-4o-mini'', familyDefaults gpt ''gpt-4o-mini''),
      (''gpt-4-turbo'', (familyDefaults gpt ''gpt-4-turbo'')\<lparr>tokenizer := cl100k_base\<rparr>),
      (''gemini-1.5-pro'', (familyDefaults gemini ''gemini-1.5-pro'')\<lparr>contextWindow := 2000000\<rparr>),
      (''gemini-1.5-flash'', familyDefaults gemini ''gemini-1.5-flash'')]"

text \<open>
  What the pipeline takes from its surroundings: the built-in objects, the registry of
  custom models (a module-level map filled by \<open>registerModel\<close>), the tokenizer library
  and the clock. The library is \<open>None\<close> when it cannot be loaded; loaded, it gives for
  an encoding name its encoder, or \<open>None\<close> when \<open>get_encoding\<close> throws; an encoder gives
  the number of tokens of a text or throws.
\<close>

record Host =
  builtins :: Builtins
  customModels :: "(string \<times> ModelConfig) list"
  tiktoken :: "(Tokenizer \<Rightarrow> (string \<Rightarrow> error + int) option) option"
  nowIso :: string

text \<open>
  \<open>getModelConfig\<close>. The test \<open>modelId in models\<close> is on a plain object, so it holds for
  the own keys and for the names of \<open>Object.prototype\<close>; for such a name the function
  returns the inherited member, which has none of the properties of a configuration:
  every field read from it is \<open>undefined\<close>.
\<close>

datatype ConfigRead = Config ModelConfig | ObjectMember string

definition getModelConfig :: "Host \<Rightarrow> string \<Rightarrow> ConfigRead" where
  "getModelConfig host modelId =
     (case map_of models modelId of
        Some c \<Rightarrow> Config c
      | None \<Rightarrow>
          if modelId \<in> set objectPrototypeNames then ObjectMember modelId
          else
            (case map_of (customModels host) modelId of
               Some c \<Rightarrow> Config c
             | None \<Rightarrow> Config (familyDefaults (detectModelFamily modelId) modelId)))"

fun contextWindowOf :: "ConfigRead \<Rightarrow> int option" where
  "contextWindowOf (Config c) = Some (contextWindow c)"
| "contextWindowOf (ObjectMember k) = None"

fun preferredFormatOf :: "ConfigRead \<Rightarrow> FormatName option" where
  "preferredFormatOf (Config c) = Some (preferredFormat c)"
| "preferredFormatOf (ObjectMember k) = None"

fun supportsCachingOf :: "ConfigRead \<Rightarrow> bool option" where
  "supportsCachingOf (Config c) = Some (supportsCaching c)"
| "supportsCachingOf (ObjectMember k) = None"

fun tokenizerOf :: "ConfigRead \<Rightarrow> Tokenizer option" where
  "tokenizerOf (Config c) = Some (tokenizer c)"
| "tokenizerOf (ObjectMember k) = None"

fun customTokenizerOf :: "ConfigRead \<Rightarrow> (string \<Rightarrow> error + int) option" where
  "customTokenizerOf (Config c) = customTokenizer c"
| "customTokenizerOf (ObjectMember k) = None"

text \<open>
  \<open>getEncoding\<close> falls back to an estimate of four code units a token when the library
  cannot be loaded or does not give the encoding; every tokenizer name but \<open>o200k_base\<close>,
  and \<open>undefined\<close>, uses \<open>cl100k_base\<close>.
\<close>

definition estimate :: "string \<Rightarrow> error + int" where
  "estimate text = Inr ((int (length text) + 3) div 4)"

definition getEncoding :: "Host \<Rightarrow> Tokenizer option \<Rightarrow> string \<Rightarrow> error + int" where
  "getEncoding host t =
     (case tiktoken host of
        None \<Rightarrow> estimate
      | Some lib \<Rightarrow>
          (case lib (if t = Some o200k_base then o200k_base else cl100k_base) of
             None \<Rightarrow> estimate
           | Some enc \<Rightarrow> enc))"

definition countTokens :: "Host \<Rightarrow> string \<Rightarrow> string \<Rightarrow> error + int" where
  "countTokens host text modelId =
     (let config = getModelConfig host modelId
      in case (tokenizerOf config, customTokenizerOf config) of
           (Some customTokenizerT, Some f) \<Rightarrow> f text
         | _ \<Rightarrow> getEncoding host (tokenizerOf config) text)"

fun getFormatterForModel :: "Host \<Rightarrow> string \<Rightarrow> Formatter" where
  "getFormatterForModel host modelId =
     (case preferredFormatOf (getModelConfig host modelId) of
        Some xml \<Rightarrow> createXmlFormatter
      | Some markdown \<Rightarrow> createMarkdownFormatter
      | _ \<Rightarrow> createPlainFormatter)"

section \<open>Rendering (Prompt.render, buildMetadata)\<close>

record FragmentReference =
  refId :: string
  refVersion :: string
  refSectionType :: SectionType
  refSectionIndex :: int

text \<open>
  A count kept in the object \<open>tokensBySection\<close> or in \<open>cacheableTokens\<close>: a number, or
  the text that \<open>+\<close> gives when one of its operands is no number.
\<close>

datatype Count = Tokens int | Text string

text \<open>
  \<open>PromptMetadata\<close>, without the list \<open>warnings\<close> of the quick checks, whose messages
  are written with the number formats of the host's locale.
\<close>

record PromptMetadata =
  metaName :: string
  metaModel :: string
  tokenCount :: int
  tokensBySection :: "(string \<times> Count) list"
  sourceMap :: SourceMapData
  cacheablePrefix :: int
  cacheableTokens :: Count
  metaFragments :: "FragmentReference list"

record CompiledPrompt =
  outText :: string
  meta :: PromptMetadata

text \<open>
  \<open>Map.prototype.set\<close>: a key of the map keeps its place, a new one goes last.
\<close>

definition mapSet :: "'k \<Rightarrow> 'v \<Rightarrow> ('k \<times> 'v) list \<Rightarrow> ('k \<times> 'v) list" where
  "mapSet k v entries =
     (if k \<in> fst ` set entries then map (\<lambda>(k', v'). if k' = k then (k', v) else (k', v')) entries
      else entries @ [(k, v)])"

text \<open>
  Setting a property of a plain object: an own key keeps its place; a new key that is an
  array index (the digits of a number below \<open>2^32 - 1\<close>) goes among the index keys, which
  are enumerated first and in ascending order; every other new key goes last.
\<close>

definition arrayIndex :: "string \<Rightarrow> nat option" where
  "arrayIndex k =
     (case parseIndex k of None \<Rightarrow> None | Some n \<Rightarrow> if n < 4294967295 then Some n else None)"

definition indexBelow :: "nat \<Rightarrow> string \<times> 'v \<Rightarrow> bool" where
  "indexBelow n kv = (case arrayIndex (fst kv) of None \<Rightarrow> False | Some m \<Rightarrow> m < n)"

definition setProp :: "string \<Rightarrow> 'v \<Rightarrow> (string \<times> 'v) list \<Rightarrow> (string \<times> 'v) list" where
  "setProp k v props =
     (if k \<in> fst ` set props then map (\<lambda>(k', v'). if k' = k then (k', v) else (k', v')) props
      else case arrayIndex k of
             None \<Rightarrow> props @ [(k, v)]
           | Some n \<Rightarrow> takeWhile (indexBelow n) props @ (k, v) # dropWhile (indexBelow n) props)"

definition sectionKey :: "RenderedSection \<Rightarrow> string" where
  "sectionKey section = (case name section of None \<Rightarrow> typeName (rtype section) | Some n \<Rightarrow> n)"

text \<open>
  The operator \<open>+\<close> on counts: two numbers are added; when one operand is a text, the
  other is converted to its text and the two are joined.
\<close>

fun countText :: "Builtins \<Rightarrow> Count \<Rightarrow> string" where
  "countText h (Tokens n) = showInt h n"
| "countText h (Text t) = t"

fun addCount :: "Builtins \<Rightarrow> Count \<Rightarrow> Count \<Rightarrow> Count" where
  "addCount h (Tokens a) (Tokens b) = Tokens (a + b)"
| "addCount h a b = Text (countText h a @ countText h b)"

text \<open>
  \<open>tokensBySection[key] ?? 0\<close> on the plain object: the own count; for a name of
  \<open>Object.prototype\<close> that is no own key the inherited member, which \<open>+\<close> converts to
  its text; and \<open>0\<close> otherwise.
\<close>

definition memberText :: "Builtins \<Rightarrow> string \<Rightarrow> string" where
  "memberText h k = (if k = ''__proto__'' then ''[object Object]'' else functionText h k)"

definition countOr0 :: "Builtins \<Rightarrow> (string \<times> Count) list \<Rightarrow> string \<Rightarrow> Count" where
  "countOr0 h tbs k =
     (case map_of tbs k of
        Some c \<Rightarrow> c
      | None \<Rightarrow> if k \<in> set objectPrototypeNames then Text (memberText h k) else Tokens 0)"

text \<open>
  The assignment \<open>tokensBySection[key] = v\<close>: for the key \<open>__proto__\<close> it calls the
  accessor of \<open>Object.prototype\<close>, which ignores a value that is no object, so no
  property is written.
\<close>

definition assignCount :: "string \<Rightarrow> Count \<Rightarrow> (string \<times> Count) list \<Rightarrow> (string \<times> Count) list" where
  "assignCount k v tbs = (if k = ''__proto__'' then tbs else setProp k v tbs)"

fun tokensLoop ::
  "Host \<Rightarrow> string \<Rightarrow> RenderedSection list \<Rightarrow> (string \<times> Count) list \<Rightarrow> error + (string \<times> Count) list" where
  "tokensLoop host modelId [] acc = Inr acc"
| "tokensLoop host modelId (section # rest) acc =
     (case countTokens host (content section) modelId of
        Inl e \<Rightarrow> Inl e
      | Inr sectionTokens \<Rightarrow>
          tokensLoop host modelId rest
            (assignCount (sectionKey section)
               (addCount (builtins host) (countOr0 (builtins host) acc (sectionKey section))
                  (Tokens sectionTokens))
               acc))"

fun prefixLoop ::
  "Builtins \<Rightarrow> (string \<times> Count) list \<Rightarrow> RenderedSection list \<Rightarrow> int \<times> Count \<Rightarrow> int \<times> Count" where
  "prefixLoop h tbs [] acc = acc"
| "prefixLoop h tbs (section # rest) (chars, toks) =
     (if \<not> cacheable section then (chars, toks)
      else prefixLoop h tbs rest
             (chars + int (length (content section)) + 4,
              addCount h toks (countOr0 h tbs (sectionKey section))))"

fun fragmentsLoop :: "SectionConfig list \<Rightarrow> int \<Rightarrow> FragmentReference list" where
  "fragmentsLoop [] i = []"
| "fragmentsLoop (section # rest) i =
     (case getFragment section of
        None \<Rightarrow> fragmentsLoop rest (i + 1)
      | Some f \<Rightarrow>
          \<lparr>refId = fid f, refVersion = fversion f, refSectionType = stype section,
           refSectionIndex = i\<rparr> # fragmentsLoop rest (i + 1))"

definition buildMetadata ::
  "Host \<Rightarrow> Prompt \<Rightarrow> string \<Rightarrow> RenderedSection list \<Rightarrow> SourceMap \<Rightarrow> error + PromptMetadata" where
  "buildMetadata host p text ordered sm =
     (case countTokens host text (model p) of
        Inl e \<Rightarrow> Inl e
      | Inr n \<Rightarrow>
          (case tokensLoop host (model p) ordered [] of
             Inl e \<Rightarrow> Inl e
           | Inr tbs \<Rightarrow>
               Inr \<lparr>metaName = pname p, metaModel = model p, tokenCount = n,
                    tokensBySection = tbs, sourceMap = toJSON sm,
                    cacheablePrefix = fst (prefixLoop (builtins host) tbs ordered (0, Tokens 0)),
                    cacheableTokens = snd (prefixLoop (builtins host) tbs ordered (0, Tokens 0)),
                    metaFragments = fragmentsLoop (sections p) 0\<rparr>))"

definition enrich :: "Host \<Rightarrow> Prompt \<Rightarrow> RenderContext \<Rightarrow> RenderContext" where
  "enrich host p ctx =
     setProp ''$tokenBudget''
       (case optMaxTokens (options p) of
          Some n \<Rightarrow> JNumber n
        | None \<Rightarrow>
            (case contextWindowOf (getModelConfig host (model p)) of
               Some n \<Rightarrow> JNumber n
             | None \<Rightarrow> JUndefined))
       (setProp ''$now'' (JDate (nowIso host)) (setProp ''$model'' (JString (model p)) ctx))"

definition formatWith :: "Host \<Rightarrow> Prompt \<Rightarrow> RenderedSection list \<Rightarrow> string" where
  "formatWith host p ordered =
     (if formatForModel (options p) = Some False then rawFormat ordered
      else case optFormat (options p) of
             Some f \<Rightarrow> format (createFormatter f) ordered
           | None \<Rightarrow> format (getFormatterForModel host (model p)) ordered)"

text \<open>
  \<open>render\<close>. \<open>orderedSections\<close> is its first part: the context is enriched, the sections
  are resolved and, unless \<open>cacheOptimize\<close> is \<open>false\<close>, reordered. The rest formats the
  ordered sections, builds the provenance table over the text and computes the metadata.
\<close>

definition orderedSections :: "Host \<Rightarrow> Prompt \<Rightarrow> RenderContext \<Rightarrow> error + RenderedSection list" where
  "orderedSections host p ctx =
     (case resolveSections (builtins host) p (enrich host p ctx) of
        Inl e \<Rightarrow> Inl e
      | Inr resolved \<Rightarrow>
          Inr (if cacheOptimize (options p) \<noteq> Some False
               then optimizeForCaching resolved else resolved))"

definition render :: "Host \<Rightarrow> Prompt \<Rightarrow> RenderContext \<Rightarrow> error + CompiledPrompt" where
  "render host p ctx =
     (case orderedSections host p ctx of
        Inl e \<Rightarrow> Inl e
      | Inr ordered \<Rightarrow>
          (let text = formatWith host p ordered;
               sm = buildSourceMap (pname p) text ordered
           in case buildMetadata host p text ordered sm of
                Inl e \<Rightarrow> Inl e
              | Inr m \<Rightarrow> Inr \<lparr>outText = text, meta = m\<rparr>))"

section \<open>The rule engine (lint/src/types.ts, linter.ts)\<close>

text \<open>
  The severity of a configuration. \<open>memberS k\<close> is not one of the type \<open>RuleSeverity\<close>:
  it is the member \<open>k\<close> of \<open>Object.prototype\<close>, which the constructor reads from the
  plain object \<open>config.rules\<close> for a rule whose id is such a name.
\<close>

datatype RuleSeverity = errorS | warningS | infoS | offS | memberS string

type_synonym RuleOptions = "(string \<times> JSValue) list"

datatype RuleConfig = Plain RuleSeverity | WithOptions RuleSeverity RuleOptions

record LintModelConfig =
  lcContextWindow :: "int option"
  lcPreferredFormat :: "FormatName option"
  lcSupportsCaching :: "bool option"

record LintContext =
  ctxPrompt :: Prompt
  ctxText :: string
  ctxSections :: "SectionConfig list"
  modelId :: string
  modelConfig :: LintModelConfig
  ctxTokenCount :: int
  ctxOptions :: "RuleOptions option"

text \<open>
  A rule: its check is a function of the context that returns its findings or throws (a
  rejected promise is a throw at the \<open>await\<close> in the engine; a result that is no array
  makes the loop over it throw inside the same \<open>try\<close>). The findings are new objects,
  as those of every rule of the repository are: a check that writes to the context, or
  that hands out an object another rule also returns, is outside the model.
\<close>

record LintRule =
  rid :: string
  rcategory :: LintCategory
  defaultSeverity :: LintSeverity
  description :: string
  check :: "LintContext \<Rightarrow> error + LintWarning list"

record LlmClient =
  generate :: "string \<Rightarrow> string option \<Rightarrow> error + string"
  healthCheck :: "bool \<times> string option"
  modelName :: string

record LlmConfig =
  enabled :: "bool option"
  provider :: "string option"
  llmModel :: "string option"
  llmHost :: "string option"
  timeout :: "int option"
  client :: "LlmClient option"

record LinterConfig =
  cfgRules :: "(string \<times> RuleConfig) list option"
  llm :: "LlmConfig option"
  custom :: "LintRule list option"

record LintStats =
  rulesChecked :: int
  llmCalls :: int

text \<open>\<open>LintResult\<close>; the elapsed wall-clock time of the statistics is left out.\<close>

record LintResult =
  passed :: bool
  errors :: "LintWarning list"
  warnings :: "LintWarning list"
  infos :: "LintWarning list"
  stats :: LintStats

text \<open>The two maps of a \<open>Linter\<close>, in insertion order.\<close>

record Linter =
  rules :: "(string \<times> LintRule) list"
  ruleConfig :: "(string \<times> RuleConfig) list"

fun severityConfig :: "LintSeverity \<Rightarrow> RuleConfig" where
  "severityConfig error = Plain errorS"
| "severityConfig warning = Plain warningS"
| "severityConfig info = Plain infoS"

fun parseRuleConfig :: "RuleConfig \<Rightarrow> RuleSeverity \<times> RuleOptions option" where
  "parseRuleConfig (WithOptions sv opts) = (sv, Some opts)"
| "parseRuleConfig (Plain sv) = (sv, None)"

text \<open>
  The rule \<open>missing-identity\<close> of the built-in list.
\<close>

definition missingIdentity :: LintRule where
  "missingIdentity =
     \<lparr>rid = ''missing-identity'', rcategory = best_practice, defaultSeverity = warning,
      description = ''Warns when no identity section is defined'',
      check = (\<lambda>ctx.
        if \<not> list_ex (\<lambda>s. stype s = identityT) (ctxSections ctx)
        then Inr [\<lparr>wid = ''missing-identity'', category = best_practice, severity = warning,
                   message = ''No identity section. Agent may lack consistent persona.'',
                   wposition = None, fragments = None,
                   suggestion = Some ''Add an identity section to define who the agent is.'',
                   evidence = None\<rparr>]
        else Inr [])\<rparr>"

text \<open>
  The built-in list \<open>heuristicRules\<close>, in its order, with the identifier, the category and
  the default severity of every rule. The checks of the other ten rules read the text with
  expressions and number formats of their own; they are the parameter \<open>body\<close>, a check for
  each identifier, and every statement below holds whatever they return or throw.
\<close>

definition heuristicRules :: "(string \<Rightarrow> LintContext \<Rightarrow> error + LintWarning list) \<Rightarrow> LintRule list" where
  "heuristicRules body =
     [\<lparr>rid = ''token-limit-exceeded'', rcategory = token_budget, defaultSeverity = error,
       description = ''Checks if the prompt exceeds the model context window'',
       check = body ''token-limit-exceeded''\<rparr>,
      \<lparr>rid = ''token-limit-warning'', rcategory = token_budget, defaultSeverity = warning,
       description = ''Warns when prompt is approaching the context window limit'',
       check = body ''token-limit-warning''\<rparr>,
      \<lparr>rid = ''xml-tags-with-gpt'', rcategory = model_mismatch, defaultSeverity = warning,
       description = ''Warns when using XML tags with GPT models'',
       check = body ''xml-tags-with-gpt''\<rparr>,
      \<lparr>rid = ''markdown-with-claude'', rcategory = model_mismatch, defaultSeverity = info,
       description = ''Suggests using XML tags instead of markdown for Claude'',
       check = body ''markdown-with-claude''\<rparr>,
      \<lparr>rid = ''dynamic-before-static'', rcategory = cache_inefficiency, defaultSeverity = warning,
       description = ''Warns when dynamic content appears before static content'',
       check = body ''dynamic-before-static''\<rparr>,
      missingIdentity,
      \<lparr>rid = ''format-not-last'', rcategory = ordering, defaultSeverity = info,
       description = ''Suggests placing format section at the end'',
       check = body ''format-not-last''\<rparr>,
      \<lparr>rid = ''duplicate-instructions'', rcategory = duplication, defaultSeverity = warning,
       description = ''Detects duplicate sentences in the prompt'',
       check = body ''duplicate-instructions''\<rparr>,
      \<lparr>rid = ''user-input-in-system'', rcategory = security, defaultSeverity = error,
       description = ''Detects potential user input markers in non-context sections'',
       check = body ''user-input-in-system''\<rparr>,
      \<lparr>rid = ''empty-sections'', rcategory = best_practice, defaultSeverity = warning,
       description = ''Warns about empty sections'',
       check = body ''empty-sections''\<rparr>,
      \<lparr>rid = ''conflicting-patterns'', rcategory = contradiction, defaultSeverity = warning,
       description = ''Detects potentially conflicting instruction patterns'',
       check = body ''conflicting-patterns''\<rparr>]"

text \<open>
  The constructor: the built-in rules, then the custom ones (a custom identifier may
  replace a built-in rule), each with its configured or default severity; then every
  entry of \<open>config.rules\<close> is written to the configuration. The field \<open>llm\<close> of the
  configuration is not read.
\<close>

definition configured :: "(string \<times> RuleConfig) list option \<Rightarrow> string \<Rightarrow> RuleConfig option" where
  "configured cfg k =
     (case cfg of
        None \<Rightarrow> None
      | Some rs \<Rightarrow>
          (case map_of rs k of
             Some c \<Rightarrow> Some c
           | None \<Rightarrow> if k \<in> set objectPrototypeNames then Some (Plain (memberS k)) else None))"

definition registerRule :: "(string \<times> RuleConfig) list option \<Rightarrow> LintRule \<Rightarrow> Linter \<Rightarrow> Linter" where
  "registerRule cfg rule l =
     \<lparr>rules = mapSet (rid rule) rule (rules l),
      ruleConfig = mapSet (rid rule)
        (case configured cfg (rid rule) of
           None \<Rightarrow> severityConfig (defaultSeverity rule)
         | Some c \<Rightarrow> c)
        (ruleConfig l)\<rparr>"

definition newLinter ::
  "(string \<Rightarrow> LintContext \<Rightarrow> error + LintWarning list) \<Rightarrow> LinterConfig \<Rightarrow> Linter" where
  "newLinter body config =
     (let l0 = \<lparr>rules = [], ruleConfig = []\<rparr>;
          l1 = fold (registerRule (cfgRules config)) (heuristicRules body) l0;
          l2 = fold (registerRule (cfgRules config)) (case custom config of None \<Rightarrow> [] | Some cs \<Rightarrow> cs) l1
      in l2\<lparr>ruleConfig :=
              fold (\<lambda>(ruleId, sv) rc. mapSet ruleId sv rc)
                (case cfgRules config of None \<Rightarrow> [] | Some rs \<Rightarrow> rs) (ruleConfig l2)\<rparr>)"

definition addRule :: "LintRule \<Rightarrow> RuleConfig option \<Rightarrow> Linter \<Rightarrow> Linter" where
  "addRule rule sv l =
     \<lparr>rules = mapSet (rid rule) rule (rules l),
      ruleConfig = mapSet (rid rule)
        (case sv of None \<Rightarrow> severityConfig (defaultSeverity rule) | Some c \<Rightarrow> c) (ruleConfig l)\<rparr>"

definition configureRule :: "string \<Rightarrow> RuleConfig \<Rightarrow> Linter \<Rightarrow> Linter" where
  "configureRule ruleId sv l = l\<lparr>ruleConfig := mapSet ruleId sv (ruleConfig l)\<rparr>"

definition disableRule :: "string \<Rightarrow> Linter \<Rightarrow> Linter" where
  "disableRule ruleId l = l\<lparr>ruleConfig := mapSet ruleId (Plain offS) (ruleConfig l)\<rparr>"

text \<open>
  The configured severity is written over the severity of every finding a rule returns
  when it is \<open>error\<close>, \<open>warning\<close> or \<open>info\<close>; with any other value the finding keeps the
  severity the rule gave it.
\<close>

fun applySeverity :: "RuleSeverity \<Rightarrow> LintWarning \<Rightarrow> LintWarning" where
  "applySeverity errorS w = w\<lparr>severity := error\<rparr>"
| "applySeverity warningS w = w\<lparr>severity := warning\<rparr>"
| "applySeverity infoS w = w\<lparr>severity := info\<rparr>"
| "applySeverity offS w = w"
| "applySeverity (memberS k) w = w"

text \<open>
  The body of the loop over the registered rules, for one rule: a rule with no
  configuration, one that is \<open>off\<close> and one that is ignored are passed over; every other
  rule counts as checked and is run on the context, with its options when it has some.
  What the check throws is caught: the rule adds no finding and the loop goes on.
\<close>

definition ruleContext :: "RuleOptions option \<Rightarrow> LintContext \<Rightarrow> LintContext" where
  "ruleContext opts context =
     (case opts of None \<Rightarrow> context | Some os \<Rightarrow> context\<lparr>ctxOptions := Some os\<rparr>)"

fun runRule ::
  "(string \<times> RuleConfig) list \<Rightarrow> string list \<Rightarrow> LintContext \<Rightarrow> string \<times> LintRule
     \<Rightarrow> LintWarning list \<times> int \<Rightarrow> LintWarning list \<times> int" where
  "runRule config ignoredRules context (ruleId, rule) (allWarnings, checked) =
     (case map_of config ruleId of
        None \<Rightarrow> (allWarnings, checked)
      | Some rc \<Rightarrow>
          (let (sv, opts) = parseRuleConfig rc
           in if sv = offS then (allWarnings, checked)
              else if ''*'' \<in> set ignoredRules \<or> ruleId \<in> set ignoredRules
              then (allWarnings, checked)
              else
                case check rule (ruleContext opts context) of
                  Inl e \<Rightarrow> (allWarnings, checked + 1)
                | Inr found \<Rightarrow> (allWarnings @ map (applySeverity sv) found, checked + 1)))"

text \<open>The loop: the rules in the order of their registration.\<close>

definition runRules ::
  "(string \<times> LintRule) list \<Rightarrow> (string \<times> RuleConfig) list \<Rightarrow> string list \<Rightarrow> LintContext
     \<Rightarrow> LintWarning list \<times> int \<Rightarrow> LintWarning list \<times> int" where
  "runRules rs config ignoredRules context acc = fold (runRule config ignoredRules context) rs acc"

definition lintContext :: "Host \<Rightarrow> Prompt \<Rightarrow> CompiledPrompt \<Rightarrow> LintContext" where
  "lintContext host p cp =
     (let mc = getModelConfig host (model p)
      in \<lparr>ctxPrompt = p, ctxText = outText cp, ctxSections = sections p, modelId = model p,
          modelConfig = \<lparr>lcContextWindow = contextWindowOf mc,
                          lcPreferredFormat = preferredFormatOf mc,
                          lcSupportsCaching = supportsCachingOf mc\<rparr>,
          ctxTokenCount = tokenCount (meta cp), ctxOptions = None\<rparr>)"

definition aggregate :: "LintWarning list \<times> int \<Rightarrow> LintResult" where
  "aggregate r =
     (let allWarnings = fst r;
          errs = filter (\<lambda>w. severity w = error) allWarnings
      in \<lparr>passed = (length errs = 0), errors = errs,
          warnings = filter (\<lambda>w. severity w = warning) allWarnings,
          infos = filter (\<lambda>w. severity w = info) allWarnings,
          stats = \<lparr>rulesChecked = snd r, llmCalls = 0\<rparr>\<rparr>)"

text \<open>
  \<open>Linter.lint\<close>: the prompt is rendered with the empty context, and what the render
  throws leaves \<open>lint\<close>, as nothing catches it. \<open>lintRendered\<close> is the rest of \<open>lint\<close>,
  from the set of ignored rules on.
\<close>

definition lintRendered :: "Host \<Rightarrow> Linter \<Rightarrow> Prompt \<Rightarrow> CompiledPrompt \<Rightarrow> string list \<Rightarrow> LintResult" where
  "lintRendered host l p cp ignoredRules =
     aggregate (runRules (rules l) (ruleConfig l) ignoredRules (lintContext host p cp) ([], 0))"

definition lint :: "Host \<Rightarrow> Linter \<Rightarrow> Prompt \<Rightarrow> error + LintResult" where
  "lint host l p =
     (case render host p [] of
        Inl e \<Rightarrow> Inl e
      | Inr cp \<Rightarrow> Inr (lintRendered host l p cp (parseIgnoredRules (outText cp))))"

text \<open>A rule whose failures are replaced by the empty list of findings.\<close>

definition withoutFailures :: "LintRule \<Rightarrow> LintRule" where
  "withoutFailures r =
     r\<lparr>check := (\<lambda>c. case check r c of Inl e \<Rightarrow> Inr [] | Inr found \<Rightarrow> Inr found)\<rparr>"



section \<open>Example inputs\<close>

text \<open>
  A table over the text \<open>Hello World\<close>, a line break and \<open>Line two\<close>: a fragment on
  \<open>[0, 11)\<close> and a dynamic section on \<open>[12, 20)\<close>; the line break at offset 11 is in
  neither.
\<close>

definition greetingOrigin :: Source where
  "greetingOrigin =
     \<lparr>kind = fragmentK, fragmentId = Some ''greeting'', fragmentVersion = Some ''1.0.0'',
      sectionType = Some identityT, sectionIndex = Some 0,
      sourceFile = None, fileLine = None, fileColumn = None, dynamicKey = None\<rparr>"

definition userOrigin :: Source where
  "userOrigin =
     \<lparr>kind = dynamicK, fragmentId = None, fragmentVersion = None,
      sectionType = Some contextT, sectionIndex = Some 1,
      sourceFile = None, fileLine = None, fileColumn = None, dynamicKey = Some ''ctx.user''\<rparr>"

definition helloTable :: SourceMap where
  "helloTable =
     addDynamicMapping 12 20 contextT 1 (Some ''ctx.user'')
       (addFragmentMapping 0 11 ''greeting'' ''1.0.0'' identityT 0 None None
          (setRenderedText (''Hello World'' @ [CHR 0x0A] @ ''Line two'') (newSourceMap ''test-prompt'')))"

text \<open>
  A host with no custom models and no tokenizer library, so that tokens are estimated,
  over any built-in objects; prompts with two literal sections for the default model.
\<close>

definition host0 :: "Builtins \<Rightarrow> Host" where
  "host0 h = \<lparr>builtins = h, customModels = [], tiktoken = None, nowIso = ''2026-01-24T00:00:00.000Z''\<rparr>"

definition noOptions :: PromptOptions where
  "noOptions = \<lparr>optMaxTokens = None, cacheOptimize = None, formatForModel = None, optFormat = None\<rparr>"

definition helpfulPrompt :: Prompt where
  "helpfulPrompt =
     \<lparr>pname = ''helpful'', model = ''claude-sonnet-4-20250514'',
      sections = [createSection identityT (Literal ''Be helpful.''),
                  createSection constraintsT (Literal ''Be helpful.'')],
      options = noOptions\<rparr>"

definition emptyPrompt :: Prompt where
  "emptyPrompt =
     \<lparr>pname = ''empty'', model = ''claude-sonnet-4-20250514'',
      sections = [createSection identityT (Literal ''''), createSection formatT (Literal '''')],
      options = noOptions\<rparr>"

text \<open>The provenance table of a render; empty when the render throws.\<close>

definition renderMappings :: "Host \<Rightarrow> Prompt \<Rightarrow> RenderContext \<Rightarrow> SourceMapping list" where
  "renderMappings host p ctx =
     (case render host p ctx of Inl e \<Rightarrow> [] | Inr cp \<Rightarrow> dataMappings (sourceMap (meta cp)))"


text \<open>What the render of \<open>helpfulPrompt\<close> returns.\<close>

definition helpfulCompiled :: CompiledPrompt where
  "helpfulCompiled =
     \<lparr>outText = ''<identity>Be helpful.</identity>'' @ [CHR 0x0A, CHR 0x0A]
                  @ ''<constraints>Be helpful.</constraints>'',
      meta =
        \<lparr>metaName = ''helpful'', metaModel = ''claude-sonnet-4-20250514'', tokenCount = 18,
         tokensBySection = [(''identity'', Tokens 3), (''constraints'', Tokens 3)],
         sourceMap =
           \<lparr>version = 1, dataPrompt = ''helpful'',
            dataMappings =
              [\<lparr>outputPos = \<lparr>start = 10, finish = 21, line = 1, column = 11\<rparr>,
                source = \<lparr>kind = fragmentK, fragmentId = Some ''anonymous-identity'',
                          fragmentVersion = Some ''1.0.0'', sectionType = Some identityT,
                          sectionIndex = Some 0, sourceFile = None, fileLine = None,
                          fileColumn = None, dynamicKey = None\<rparr>\<rparr>,
               \<lparr>outputPos = \<lparr>start = 47, finish = 58, line = 3, column = 14\<rparr>,
                source = \<lparr>kind = fragmentK, fragmentId = Some ''anonymous-constraints'',
                          fragmentVersion = Some ''1.0.0'', sectionType = Some constraintsT,
                          sectionIndex = Some 1, sourceFile = None, fileLine = None,
                          fileColumn = None, dynamicKey = None\<rparr>\<rparr>]\<rparr>,
         cacheablePrefix = 30, cacheableTokens = Tokens 6,
         metaFragments =
           [\<lparr>refId = ''anonymous-identity'', refVersion = ''1.0.0'',
             refSectionType = identityT, refSectionIndex = 0\<rparr>,
            \<lparr>refId = ''anonymous-constraints'', refVersion = ''1.0.0'',
             refSectionType = constraintsT, refSectionIndex = 1\<rparr>]\<rparr>\<rparr>"

text \<open>
  A parser for a fragment of JSON (arrays, objects with distinct keys, strings without
  escapes, integers, \<open>true\<close>, \<open>false\<close>, \<open>null\<close>), to run the examples of the semantic
  parser: on a text of the fragment it gives the value \<open>JSON.parse\<close> gives, and it rejects
  the texts below that are not JSON.
\<close>

definition skipWs :: "string \<Rightarrow> string" where
  "skipWs s = dropWhile (\<lambda>c. c \<in> {CHR '' '', CHR 0x09, CHR 0x0A, CHR 0x0D}) s"

definition jsonString :: "string \<Rightarrow> (string \<times> string) option" where
  "jsonString r =
     (let body = takeWhile (\<lambda>c. c \<noteq> CHR 0x22) r; rest = dropWhile (\<lambda>c. c \<noteq> CHR 0x22) r
      in if rest = [] \<or> list_ex (\<lambda>c. c = CHR 0x5C \<or> (of_char c :: nat) < 32) body then None
         else Some (body, tl rest))"

definition jsonNumber :: "string \<Rightarrow> (JSValue \<times> string) option" where
  "jsonNumber s =
     (let ds = takeWhile isDigit s; rest = dropWhile isDigit s
      in if ds = [] \<or> (length ds > 1 \<and> take 1 ds = ''0'')
            \<or> (rest \<noteq> [] \<and> hd rest \<in> {CHR ''.'', CHR ''e'', CHR ''E''}) then None
         else Some (JNumber (int (foldl (\<lambda>n c. 10 * n + digitValue c) 0 ds)), rest))"

definition expect :: "char \<Rightarrow> string \<Rightarrow> string option" where
  "expect c s = (case skipWs s of [] \<Rightarrow> None | x # r \<Rightarrow> if x = c then Some r else None)"

fun jsonValue :: "nat \<Rightarrow> string \<Rightarrow> (JSValue \<times> string) option"
  and jsonElems :: "nat \<Rightarrow> string \<Rightarrow> (JSValue list \<times> string) option"
  and jsonMembers :: "nat \<Rightarrow> string \<Rightarrow> ((string \<times> JSValue) list \<times> string) option" where
  "jsonValue 0 s = None"
| "jsonValue (Suc n) s =
     (case skipWs s of
        [] \<Rightarrow> None
      | c # r \<Rightarrow>
          if c = CHR ''['' then
            (case expect CHR '']'' r of
               Some r' \<Rightarrow> Some (JArray [], r')
             | None \<Rightarrow> map_option (\<lambda>(vs, t). (JArray vs, t)) (jsonElems n r))
          else if c = CHR ''{'' then
            (case expect CHR ''}'' r of
               Some r' \<Rightarrow> Some (JObject [], r')
             | None \<Rightarrow> map_option (\<lambda>(kvs, t). (JObject kvs, t)) (jsonMembers n r))
          else if c = CHR 0x22 then map_option (\<lambda>(b, t). (JString b, t)) (jsonString r)
          else if prefix ''null'' (c # r) then Some (JNull, drop 4 (c # r))
          else if prefix ''true'' (c # r) then Some (JBoolean True, drop 4 (c # r))
          else if prefix ''false'' (c # r) then Some (JBoolean False, drop 5 (c # r))
          else if c = CHR ''-'' then
            map_option (\<lambda>(v, t). (case v of JNumber k \<Rightarrow> JNumber (- k) | _ \<Rightarrow> v, t)) (jsonNumber r)
          else jsonNumber (c # r))"
| "jsonElems 0 s = None"
| "jsonElems (Suc n) s =
     (case jsonValue n s of
        None \<Rightarrow> None
      | Some (v, r) \<Rightarrow>
          (case expect CHR '']'' r of
             Some r' \<Rightarrow> Some ([v], r')
           | None \<Rightarrow>
               (case expect CHR '','' r of
                  Some r' \<Rightarrow> map_option (\<lambda>(vs, t). (v # vs, t)) (jsonElems n r')
                | None \<Rightarrow> None)))"
| "jsonMembers 0 s = None"
| "jsonMembers (Suc n) s =
     (case Option.bind (expect (CHR 0x22) s) jsonString of
        None \<Rightarrow> None
      | Some (k, r1) \<Rightarrow>
          (case Option.bind (expect CHR '':'' r1) (jsonValue n) of
             None \<Rightarrow> None
           | Some (v, r3) \<Rightarrow>
               (case expect CHR ''}'' r3 of
                  Some r4 \<Rightarrow> Some ([(k, v)], r4)
                | None \<Rightarrow>
                    (case expect CHR '','' r3 of
                       Some r4 \<Rightarrow> map_option (\<lambda>(kvs, t). ((k, v) # kvs, t)) (jsonMembers n r4)
                     | None \<Rightarrow> None))))"

definition miniJSON :: "string \<Rightarrow> JSValue option" where
  "miniJSON s =
     (case jsonValue (Suc (length s)) s of
        None \<Rightarrow> None
      | Some (v, r) \<Rightarrow> if skipWs r = [] then Some v else None)"

text \<open>Answers of a provider: inside a code fence, and inside a sentence.\<close>

definition q :: string where
  "q = [CHR 0x22]"

definition fencedAnswer :: string where
  "fencedAnswer = ''```json'' @ [CHR 0x0A] @ ''[{'' @ q @ ''id'' @ q @ '': '' @ q @ ''semantic-ambiguity'' @ q
      @ '', '' @ q @ ''message'' @ q @ '': '' @ q @ ''Vague'' @ q @ ''}]'' @ [CHR 0x0A] @ ''```''"

definition chattyAnswer :: string where
  "chattyAnswer = ''Issues: [{'' @ q @ ''id'' @ q @ '': '' @ q @ ''semantic-ambiguity'' @ q
      @ '', '' @ q @ ''message'' @ q @ '': '' @ q @ ''Vague'' @ q @ ''}] done''"

definition vagueFinding :: LintWarning where
  "vagueFinding = \<lparr>wid = ''semantic-ambiguity'', category = ambiguity, severity = info,
     message = ''Vague'', wposition = None, fragments = None, suggestion = None, evidence = None\<rparr>"

text \<open>
  A section with a leading space, whose untrimmed text is not in the output, and a
  section of two lines with a line break at its end, whose untrimmed text is.
\<close>

definition leadingPrompt :: Prompt where
  "leadingPrompt =
     \<lparr>pname = ''leading'', model = ''claude-sonnet-4-20250514'',
      sections = [createSection identityT (Literal '' Be helpful.''),
                  createSection formatT (Literal ''Respond in JSON.'')],
      options = noOptions\<rparr>"

definition leadingSections :: "RenderedSection list" where
  "leadingSections =
     [renderedSection (createSection identityT (Literal '' Be helpful.'')) 0 '' Be helpful.'',
      renderedSection (createSection formatT (Literal ''Respond in JSON.'')) 1 ''Respond in JSON.'']"

definition leadingText :: string where
  "leadingText = ''<identity>Be helpful.</identity>'' @ [CHR 0x0A, CHR 0x0A] @ ''<format>Respond in JSON.</format>''"

definition trailingContent :: string where
  "trailingContent = ''You are helpful.'' @ [CHR 0x0A] @ ''Be brief.'' @ [CHR 0x0A]"

definition trailingPrompt :: Prompt where
  "trailingPrompt =
     \<lparr>pname = ''trailing'', model = ''claude-sonnet-4-20250514'',
      sections = [createSection identityT (Literal trailingContent)],
      options = noOptions\<rparr>"

text \<open>The text of a render.\<close>

definition renderText :: "Host \<Rightarrow> Prompt \<Rightarrow> RenderContext \<Rightarrow> error + string" where
  "renderText host p ctx = map_sum id outText (render host p ctx)"

text \<open>
  Linters and prompts for the rule engine: built-in rules whose other checks find
  nothing, the configuration that sets \<open>missing-identity\<close> to \<open>error\<close>, a configuration
  with semantic analysis enabled, a custom rule that always has a finding and one that
  always throws.
\<close>

definition silentBody :: "string \<Rightarrow> LintContext \<Rightarrow> error + LintWarning list" where
  "silentBody ruleId context = Inr []"

definition defaultConfig :: LinterConfig where
  "defaultConfig = \<lparr>cfgRules = None, llm = None, custom = None\<rparr>"


definition emptyArrayClient :: LlmClient where
  "emptyArrayClient = \<lparr>generate = (\<lambda>userPrompt systemPrompt. Inr ''[]''), healthCheck = (True, None),
                         modelName = ''test-model''\<rparr>"

definition semanticConfig :: LinterConfig where
  "semanticConfig =
     \<lparr>cfgRules = None,
      llm = Some \<lparr>enabled = Some True, provider = None, llmModel = None, llmHost = None,
                  timeout = None, client = Some emptyArrayClient\<rparr>,
      custom = None\<rparr>"



definition alwaysThrows :: LintRule where
  "alwaysThrows =
     \<lparr>rid = ''always-throws'', rcategory = best_practice, defaultSeverity = error,
      description = ''Always throws'', check = (\<lambda>context. Inl (Error ''rule failed''))\<rparr>"

definition missingIdentityFinding :: LintWarning where
  "missingIdentityFinding =
     \<lparr>wid = ''missing-identity'', category = best_practice, severity = warning,
      message = ''No identity section. Agent may lack consistent persona.'',
      wposition = None, fragments = None,
      suggestion = Some ''Add an identity section to define who the agent is.'',
      evidence = None\<rparr>"

definition literalPrompt :: "string \<Rightarrow> (SectionType \<times> string) list \<Rightarrow> Prompt" where
  "literalPrompt n parts =
     \<lparr>pname = n, model = ''claude-sonnet-4-20250514'',
      sections = map (\<lambda>(t, c). createSection t (Literal c)) parts, options = noOptions\<rparr>"

definition formatOnlyPrompt :: Prompt where
  "formatOnlyPrompt = literalPrompt ''test-agent'' [(formatT, ''Respond in JSON.'')]"



definition assistantPrompt :: Prompt where
  "assistantPrompt =
     literalPrompt ''test'' [(identityT, ''You are a helpful assistant.''), (formatT, ''Respond clearly.'')]"

definition bigintPrompt :: Prompt where
  "bigintPrompt = literalPrompt ''bigint'' [(identityT, ''Budget: {{n}}'')]"

text \<open>A prompt whose second section is a generator that throws.\<close>

definition failingGenerator :: "RenderContext \<Rightarrow> error + string" where
  "failingGenerator ctx = Inl (Error ''generator failed'')"

definition failingPrompt :: Prompt where
  "failingPrompt =
     \<lparr>pname = ''failing'', model = ''claude-sonnet-4-20250514'',
      sections = [createSection identityT (Literal ''You are helpful.''),
                  contextSection failingGenerator],
      options = noOptions\<rparr>"

section \<open>Point queries\<close>

lemma overlaps_iff: "overlaps a b \<longleftrightarrow> (\<exists>offset. inRange a offset \<and> inRange b offset)"
proof
  assume "overlaps a b"
  then have "inRange a (max (start (outputPos a)) (start (outputPos b)))"
    and "inRange b (max (start (outputPos a)) (start (outputPos b)))"
    by (auto simp: overlaps_def inRange_def)
  then show "\<exists>offset. inRange a offset \<and> inRange b offset" by blast
next
  assume "\<exists>offset. inRange a offset \<and> inRange b offset"
  then show "overlaps a b" by (auto simp: overlaps_def inRange_def)
qed

lemma firstOrigin_none: "firstOrigin ms offset = None \<longleftrightarrow> (\<forall>m \<in> set ms. \<not> inRange m offset)"
  by (induction ms) auto

lemma firstOrigin_unique:
  "nonOverlapping ms \<Longrightarrow> m \<in> set ms \<Longrightarrow> inRange m offset \<Longrightarrow> firstOrigin ms offset = Some (source m)"
proof (induction ms)
  case Nil
  then show ?case by simp
next
  case (Cons a ms)
  show ?case
  proof (cases "inRange a offset")
    case False
    with Cons show ?thesis by auto
  next
    case True
    show ?thesis
    proof (cases "m = a")
      case True
      with \<open>inRange a offset\<close> show ?thesis by simp
    next
      case False
      with Cons.prems have "m \<in> set ms" by simp
      with Cons.prems have "\<not> overlaps a m" by (auto simp: list_all_iff)
      with True Cons.prems(3) show ?thesis by (auto simp: overlaps_iff)
    qed
  qed
qed

text \<open>
  C2. On a table whose ranges are pairwise non-overlapping, \<open>originAtOffset\<close> returns the
  origin of the mapping whose half-open range holds the offset, and \<open>null\<close> for an offset
  that lies in no mapping's range.
\<close>

theorem originAtOffset_correct:
  assumes "nonOverlapping (mappings sm)"
  shows "(\<forall>m \<in> set (mappings sm). inRange m offset \<longrightarrow> originAtOffset sm offset = Some (source m))
       \<and> ((\<forall>m \<in> set (mappings sm). \<not> inRange m offset) \<longrightarrow> originAtOffset sm offset = None)"
  using assms by (auto simp: originAtOffset_def firstOrigin_unique firstOrigin_none)

theorem originAtOffset_correct_witness:
  "nonOverlapping (mappings helloTable)
   \<and> originAtOffset helloTable 5 = Some greetingOrigin
   \<and> originAtOffset helloTable 12 = Some userOrigin
   \<and> originAtOffset helloTable 11 = None"
proof -
  have ms: "map outputPos (mappings helloTable) =
      [\<lparr>start = 0, finish = 11, line = 1, column = 1\<rparr>, \<lparr>start = 12, finish = 20, line = 2, column = 1\<rparr>]"
    and srcs: "map source (mappings helloTable) = [greetingOrigin, userOrigin]"
    by (simp_all add: helloTable_def addDynamicMapping_def addFragmentMapping_def setRenderedText_def
        newSourceMap_def getLineColumn_def greetingOrigin_def userOrigin_def)
  then obtain m1 m2 where m: "mappings helloTable = [m1, m2]"
    "outputPos m1 = \<lparr>start = 0, finish = 11, line = 1, column = 1\<rparr>"
    "outputPos m2 = \<lparr>start = 12, finish = 20, line = 2, column = 1\<rparr>"
    "source m1 = greetingOrigin" "source m2 = userOrigin"
    by auto
  have h: "nonOverlapping (mappings helloTable)"
    by (simp add: m overlaps_def)
  from originAtOffset_correct [OF h, of 5] originAtOffset_correct [OF h, of 12]
    originAtOffset_correct [OF h, of 11] h
  show ?thesis by (simp add: m inRange_def)
qed

section \<open>Searching a text\<close>

lemma scanFrom_found:
  "scanFrom pat t k = r \<Longrightarrow> r \<noteq> - 1 \<Longrightarrow>
     int k \<le> r \<and> r + int (length pat) \<le> int k + int (length t) \<and> prefix pat (drop (nat (r - int k)) t)"
proof (induction t arbitrary: k)
  case Nil
  then show ?case by (auto split: if_splits)
next
  case (Cons c cs)
  show ?case
  proof (cases "prefix pat (c # cs)")
    case True
    with Cons.prems have "r = int k" by simp
    with True show ?thesis by (auto dest: prefix_length_le)
  next
    case False
    with Cons.prems have "scanFrom pat cs (Suc k) = r" by simp
    from Cons.IH[OF this Cons.prems(2)]
    have a: "int (Suc k) \<le> r" and b: "r + int (length pat) \<le> int (Suc k) + int (length cs)"
      and c: "prefix pat (drop (nat (r - int (Suc k))) cs)" by auto
    from a have "nat (r - int k) = Suc (nat (r - int (Suc k)))" by simp
    with a b c show ?thesis by simp
  qed
qed

lemma indexOf_found:
  assumes "indexOf text pat pos = r" "r \<noteq> - 1"
  shows "min (max pos 0) (int (length text)) \<le> r \<and> r + int (length pat) \<le> int (length text)
         \<and> take (length pat) (drop (nat r) text) = pat"
proof -
  define k where "k = nat (min (max pos 0) (int (length text)))"
  have kl: "k \<le> length text" by (simp add: k_def)
  from assms have s: "scanFrom pat (drop k text) k = r" by (simp add: indexOf_def k_def Let_def)
  from scanFrom_found[OF s assms(2)]
  have a: "int k \<le> r" and b: "r + int (length pat) \<le> int k + int (length (drop k text))"
    and c: "prefix pat (drop (nat (r - int k)) (drop k text))" by auto
  from a have "nat (r - int k) + k = nat r" by simp
  with c have "prefix pat (drop (nat r) text)" by simp
  then have "take (length pat) (drop (nat r) text) = pat"
    by (auto simp: prefix_def)
  moreover have "int k = min (max pos 0) (int (length text))" by (simp add: k_def)
  ultimately show ?thesis using a b kl by simp
qed

lemma scanFrom_least:
  "prefix pat (drop j t) \<Longrightarrow> j \<le> length t \<Longrightarrow> scanFrom pat t k \<noteq> - 1 \<and> scanFrom pat t k \<le> int (k + j)"
proof (induction t arbitrary: k j)
  case Nil
  then show ?case by simp
next
  case (Cons c cs)
  show ?case
  proof (cases "prefix pat (c # cs)")
    case True
    then show ?thesis by simp
  next
    case False
    with Cons.prems obtain j' where j: "j = Suc j'" by (cases j) auto
    with Cons.prems have "prefix pat (drop j' cs)" "j' \<le> length cs" by auto
    from Cons.IH[OF this, of "Suc k"] False j show ?thesis by simp
  qed
qed

lemma indexOf_iff:
  "indexOf text pat pos \<noteq> - 1 \<longleftrightarrow>
     (\<exists>j. nat (min (max pos 0) (int (length text))) \<le> j \<and> j + length pat \<le> length text
          \<and> take (length pat) (drop j text) = pat)"
proof
  assume a: "indexOf text pat pos \<noteq> - 1"
  from indexOf_found[OF refl a]
  have lo: "min (max pos 0) (int (length text)) \<le> indexOf text pat pos"
    and hi: "indexOf text pat pos + int (length pat) \<le> int (length text)"
    and eq: "take (length pat) (drop (nat (indexOf text pat pos)) text) = pat" by auto
  show "\<exists>j. nat (min (max pos 0) (int (length text))) \<le> j \<and> j + length pat \<le> length text
          \<and> take (length pat) (drop j text) = pat"
    using lo hi eq by (intro exI[of _ "nat (indexOf text pat pos)"]) auto
next
  assume "\<exists>j. nat (min (max pos 0) (int (length text))) \<le> j \<and> j + length pat \<le> length text
          \<and> take (length pat) (drop j text) = pat"
  then obtain j where j: "nat (min (max pos 0) (int (length text))) \<le> j" "j + length pat \<le> length text"
    "take (length pat) (drop j text) = pat" by blast
  define k where "k = nat (min (max pos 0) (int (length text)))"
  have "prefix pat (drop (j - k) (drop k text))"
    using j by (simp add: k_def) (metis take_is_prefix)
  moreover have "j - k \<le> length (drop k text)" using j unfolding k_def length_drop by arith
  ultimately have "scanFrom pat (drop k text) k \<noteq> - 1" using scanFrom_least by blast
  then show "indexOf text pat pos \<noteq> - 1" by (simp add: indexOf_def k_def Let_def)
qed

lemma indexOf_from_start:
  "indexOf text pat pos \<noteq> - 1 \<Longrightarrow> indexOf text pat 0 \<noteq> - 1"
  unfolding indexOf_iff by auto

section \<open>The order of the provenance table\<close>

lemma mappings_add [simp]:
  "mappings (addDynamicMapping a b t i k sm) = mappings sm @
     [\<lparr>outputPos = \<lparr>start = a, finish = b, line = fst (getLineColumn sm a), column = snd (getLineColumn sm a)\<rparr>,
       source = \<lparr>kind = dynamicK, fragmentId = None, fragmentVersion = None,
                 sectionType = Some t, sectionIndex = Some i,
                 sourceFile = None, fileLine = None, fileColumn = None, dynamicKey = k\<rparr>\<rparr>]"
  "mappings (addLiteralMapping a b t i sm) = mappings sm @
     [\<lparr>outputPos = \<lparr>start = a, finish = b, line = fst (getLineColumn sm a), column = snd (getLineColumn sm a)\<rparr>,
       source = \<lparr>kind = literalK, fragmentId = None, fragmentVersion = None,
                 sectionType = Some t, sectionIndex = Some i,
                 sourceFile = None, fileLine = None, fileColumn = None, dynamicKey = None\<rparr>\<rparr>]"
  "mappings (addFragmentMapping a b fi fv t i sf sl sm) = mappings sm @
     [\<lparr>outputPos = \<lparr>start = a, finish = b, line = fst (getLineColumn sm a), column = snd (getLineColumn sm a)\<rparr>,
       source = \<lparr>kind = fragmentK, fragmentId = Some fi, fragmentVersion = Some fv,
                 sectionType = Some t, sectionIndex = Some i,
                 sourceFile = sf, fileLine = sl, fileColumn = None, dynamicKey = None\<rparr>\<rparr>]"
  by (simp_all add: addDynamicMapping_def addLiteralMapping_def addFragmentMapping_def split: prod.splits)

lemma sectionMapping_range:
  "\<exists>m. mappings (sectionMapping sm s i a b) = mappings sm @ [m]
       \<and> start (outputPos m) = a \<and> finish (outputPos m) = b \<and> sectionIndex (source m) = Some i"
  by (simp add: sectionMapping_def Let_def)

lemma buildLoop_step:
  "buildLoop text (s # ss) i offset sm =
     (let sectionStart = indexOf text (content s) offset
      in if sectionStart = - 1 then buildLoop text ss (i + 1) offset sm
         else buildLoop text ss (i + 1) (sectionStart + int (length (content s)))
                (sectionMapping sm s i sectionStart (sectionStart + int (length (content s)))))"
  by (simp add: Let_def)

lemma chained_lower:
  "chained lo ms \<Longrightarrow> m \<in> set ms \<Longrightarrow> lo \<le> start (outputPos m) \<and> start (outputPos m) \<le> finish (outputPos m)"
  by (induction ms arbitrary: lo) force+

lemma chained_weaken: "chained lo ms \<Longrightarrow> lo' \<le> lo \<Longrightarrow> chained lo' ms"
  by (cases ms) auto

lemma chained_nonOverlapping: "chained lo ms \<Longrightarrow> nonOverlapping ms"
proof (induction ms arbitrary: lo)
  case Nil
  then show ?case by simp
next
  case (Cons m ms)
  then have c: "chained (finish (outputPos m)) ms" by simp
  have "\<not> overlaps m m'" if "m' \<in> set ms" for m'
    using chained_lower[OF c that] Cons.prems by (auto simp: overlaps_def)
  with Cons.IH[OF c] show ?case by (simp add: list_all_iff)
qed

lemma chained_startsIncreasing: "chained lo ms \<Longrightarrow> startsIncreasing ms"
proof (induction ms arbitrary: lo)
  case Nil
  then show ?case by (simp add: startsIncreasing_def)
next
  case (Cons m ms)
  then have c: "chained (finish (outputPos m)) ms" by simp
  have "start (outputPos m) \<le> start (outputPos m')" if "m' \<in> set ms" for m'
    using chained_lower[OF c that] Cons.prems by auto
  with Cons.IH[OF c] show ?case by (simp add: startsIncreasing_def)
qed

lemma chained_strict:
  "chained lo ms \<Longrightarrow> \<forall>m \<in> set ms. start (outputPos m) < finish (outputPos m) \<Longrightarrow> startsStrictlyIncreasing ms"
proof (induction ms arbitrary: lo)
  case Nil
  then show ?case by (simp add: startsStrictlyIncreasing_def)
next
  case (Cons m ms)
  then have c: "chained (finish (outputPos m)) ms" by simp
  have "start (outputPos m) < start (outputPos m')" if "m' \<in> set ms" for m'
    using chained_lower[OF c that] Cons.prems by auto
  with Cons.IH[OF c] Cons.prems show ?case by (simp add: startsStrictlyIncreasing_def)
qed

lemma chained_pairs:
  "chained lo ms \<Longrightarrow> sorted_wrt (\<lambda>a b. finish (outputPos a) \<le> start (outputPos b)) ms"
proof (induction ms arbitrary: lo)
  case Nil
  then show ?case by simp
next
  case (Cons m ms)
  then have c: "chained (finish (outputPos m)) ms" by simp
  have "finish (outputPos m) \<le> start (outputPos m')" if "m' \<in> set ms" for m'
    using chained_lower[OF c that] by simp
  with Cons.IH[OF c] show ?case by simp
qed

lemma cursorFrom_later:
  "\<forall>m \<in> set ms. \<exists>j. sectionIndex (source m) = Some j \<and> i \<le> j \<Longrightarrow> cursorFrom c ms i = c"
  by (induction ms arbitrary: c) auto

lemma mapped_later:
  "\<forall>m \<in> set ms. \<exists>j. sectionIndex (source m) = Some j \<and> k \<le> j \<Longrightarrow> i < k \<Longrightarrow> \<not> mapped ms i"
  by (auto simp: mapped_def list_ex_iff)

lemma sectionsIncreasing_Cons:
  "sectionIndex (source m) = Some k \<Longrightarrow>
   \<forall>m' \<in> set ms. \<exists>j. sectionIndex (source m') = Some j \<and> k < j \<Longrightarrow>
   sectionsIncreasing ms \<Longrightarrow> sectionsIncreasing (m # ms)"
  by (auto simp: sectionsIncreasing_def)

text \<open>
  The table the loop builds from a cursor: the new mappings are chained and located from
  the cursor, they are of later and later sections, and a section has a mapping exactly
  when its text is found from its cursor on.
\<close>

lemma buildLoop_table:
  assumes "0 \<le> offset" "offset \<le> int (length text)" "ss = drop k ordered"
  shows "\<exists>new. mappings (buildLoop text ss (int k) offset sm) = mappings sm @ new
      \<and> chained offset new \<and> located text ordered offset new \<and> sectionsIncreasing new
      \<and> (\<forall>m \<in> set new. \<exists>j. sectionIndex (source m) = Some j \<and> int k \<le> j)
      \<and> (\<forall>m \<in> set new. finish (outputPos m) \<le> int (length text))
      \<and> (\<forall>i. int k \<le> i \<and> nat i < length ordered \<longrightarrow>
            (mapped new i \<longleftrightarrow> indexOf text (content (ordered ! nat i)) (cursorFrom offset new i) \<noteq> - 1))"
  using assms
proof (induction ss arbitrary: k offset sm)
  case Nil
  then have "length ordered \<le> k" by simp
  then have "\<not> (int k \<le> i \<and> nat i < length ordered)" for i by auto
  then have "\<forall>i. int k \<le> i \<and> nat i < length ordered \<longrightarrow>
      (mapped [] i \<longleftrightarrow> indexOf text (content (ordered ! nat i)) (cursorFrom offset [] i) \<noteq> - 1)"
    by blast
  then show ?case by (intro exI[of _ "[]"]) (simp add: sectionsIncreasing_def)
next
  case (Cons s ss)
  from Cons.prems(3) have kl: "k < length ordered"
    by (metis drop_all leI list.distinct(1))
  from Cons.prems(3) have sk: "ordered ! k = s"
    by (metis kl hd_drop_conv_nth list.sel(1))
  from Cons.prems(3) have rest: "ss = drop (Suc k) ordered"
    by (metis drop_Suc list.sel(3) tl_drop)
  have ik: "int (Suc k) = int k + 1" by simp
  define r where "r = indexOf text (content s) offset"
  show ?case
  proof (cases "r = - 1")
    case True
    have eq: "buildLoop text (s # ss) (int k) offset sm = buildLoop text ss (int (Suc k)) offset sm"
      unfolding buildLoop_step r_def[symmetric] ik using True by (simp add: Let_def)
    from Cons.IH[OF Cons.prems(1,2) rest, of sm]
    obtain new where new: "mappings (buildLoop text ss (int (Suc k)) offset sm) = mappings sm @ new"
      "chained offset new" "located text ordered offset new" "sectionsIncreasing new"
      "\<forall>m \<in> set new. \<exists>j. sectionIndex (source m) = Some j \<and> int (Suc k) \<le> j"
      "\<forall>m \<in> set new. finish (outputPos m) \<le> int (length text)"
      "\<forall>i. int (Suc k) \<le> i \<and> nat i < length ordered \<longrightarrow>
            (mapped new i \<longleftrightarrow> indexOf text (content (ordered ! nat i)) (cursorFrom offset new i) \<noteq> - 1)"
      by blast
    have ge: "\<forall>m \<in> set new. \<exists>j. sectionIndex (source m) = Some j \<and> int k \<le> j"
      using new(5) by fastforce
    have comp: "mapped new i \<longleftrightarrow> indexOf text (content (ordered ! nat i)) (cursorFrom offset new i) \<noteq> - 1"
      if i: "int k \<le> i \<and> nat i < length ordered" for i
    proof (cases "i = int k")
      case ki: True
      have "\<not> mapped new i" using new(5) ki by (intro mapped_later[of new "int (Suc k)"]) auto
      moreover have "cursorFrom offset new i = offset" using ge ki by (intro cursorFrom_later) simp
      ultimately show ?thesis using True ki sk by (simp add: r_def)
    next
      case False
      with i have "int (Suc k) \<le> i \<and> nat i < length ordered" by auto
      with new(7) show ?thesis by blast
    qed
    show ?thesis unfolding eq using new(1-4,6) ge comp by blast
  next
    case False
    from indexOf_found[OF r_def[symmetric] False] Cons.prems
    have lo: "offset \<le> r" and hi: "r + int (length (content s)) \<le> int (length text)" by auto
    define e where "e = r + int (length (content s))"
    obtain m where m: "mappings (sectionMapping sm s (int k) r e) = mappings sm @ [m]"
      "start (outputPos m) = r" "finish (outputPos m) = e" "sectionIndex (source m) = Some (int k)"
      using sectionMapping_range by blast
    have e: "0 \<le> e" "e \<le> int (length text)" using lo hi Cons.prems by (auto simp: e_def)
    have eq: "buildLoop text (s # ss) (int k) offset sm
        = buildLoop text ss (int (Suc k)) e (sectionMapping sm s (int k) r e)"
      unfolding buildLoop_step r_def[symmetric] e_def ik using False by (simp add: Let_def)
    from Cons.IH[OF e rest, of "sectionMapping sm s (int k) r e"]
    obtain new where new:
      "mappings (buildLoop text ss (int (Suc k)) e (sectionMapping sm s (int k) r e))
         = mappings (sectionMapping sm s (int k) r e) @ new"
      "chained e new" "located text ordered e new" "sectionsIncreasing new"
      "\<forall>m \<in> set new. \<exists>j. sectionIndex (source m) = Some j \<and> int (Suc k) \<le> j"
      "\<forall>m \<in> set new. finish (outputPos m) \<le> int (length text)"
      "\<forall>i. int (Suc k) \<le> i \<and> nat i < length ordered \<longrightarrow>
            (mapped new i \<longleftrightarrow> indexOf text (content (ordered ! nat i)) (cursorFrom e new i) \<noteq> - 1)"
      by blast
    have 1: "mappings (buildLoop text (s # ss) (int k) offset sm) = mappings sm @ (m # new)"
      unfolding eq new(1) m(1) by simp
    have 2: "chained offset (m # new)" using m new(2) lo by (simp add: e_def)
    have so: "sectionOf ordered m = Some s" using m(4) kl sk by (simp add: sectionOf_def)
    have 3: "located text ordered offset (m # new)"
      using so m new(3) False by (simp add: r_def e_def)
    have gt: "\<forall>m' \<in> set new. \<exists>j. sectionIndex (source m') = Some j \<and> int k < j"
      using new(5) by fastforce
    have 4: "sectionsIncreasing (m # new)"
      using m(4) gt new(4) by (rule sectionsIncreasing_Cons)
    have 5: "\<forall>m' \<in> set (m # new). \<exists>j. sectionIndex (source m') = Some j \<and> int k \<le> j"
      using m(4) new(5) by fastforce
    have 6: "\<forall>m' \<in> set (m # new). finish (outputPos m') \<le> int (length text)"
      using m(3) e new(6) by simp
    have comp: "mapped (m # new) i
        \<longleftrightarrow> indexOf text (content (ordered ! nat i)) (cursorFrom offset (m # new) i) \<noteq> - 1"
      if i: "int k \<le> i \<and> nat i < length ordered" for i
    proof (cases "i = int k")
      case ki: True
      have "mapped (m # new) i" using m(4) ki by (simp add: mapped_def)
      moreover have "cursorFrom offset new i = offset"
        using new(5) ki by (intro cursorFrom_later) fastforce
      then have "cursorFrom offset (m # new) i = offset" using m(4) ki by simp
      ultimately show ?thesis using False ki sk by (simp add: r_def)
    next
      case ne: False
      with i have i': "int (Suc k) \<le> i \<and> nat i < length ordered" by auto
      have "mapped (m # new) i \<longleftrightarrow> mapped new i" using m(4) ne by (auto simp: mapped_def)
      moreover have "cursorFrom offset (m # new) i = cursorFrom e new i"
        using m(3,4) i' by simp
      ultimately show ?thesis using new(7) i' by simp
    qed
    show ?thesis using 1 2 3 4 5 6 comp by blast
  qed
qed

lemma located_covered:
  "located text ordered c ms \<Longrightarrow> 0 \<le> c \<Longrightarrow>
     list_all (\<lambda>m. case sectionOf ordered m of None \<Rightarrow> False | Some s \<Rightarrow> covered text m = content s) ms"
proof (induction ms arbitrary: c)
  case Nil
  then show ?case by simp
next
  case (Cons m ms)
  from Cons.prems(1) obtain s where s: "sectionOf ordered m = Some s"
    "start (outputPos m) = indexOf text (content s) c" "start (outputPos m) \<noteq> - 1"
    "finish (outputPos m) = start (outputPos m) + int (length (content s))"
    "located text ordered (finish (outputPos m)) ms"
    by (auto split: option.splits)
  from indexOf_found[OF s(2)[symmetric] s(3)] Cons.prems(2)
  have ge: "0 \<le> start (outputPos m)"
    and tk: "take (length (content s)) (drop (nat (start (outputPos m))) text) = content s" by auto
  have "nat (finish (outputPos m)) - nat (start (outputPos m)) = length (content s)"
    using ge s(4) by simp
  then have "covered text m = content s" using tk by (simp add: covered_def slice_def)
  moreover have "0 \<le> finish (outputPos m)" using ge s(4) by simp
  ultimately show ?case using Cons.IH[OF s(5)] s(1) by simp
qed

lemma render_parts:
  assumes "render host p ctx = Inr cp"
  shows "\<exists>ordered. orderedSections host p ctx = Inr ordered
           \<and> outText cp = formatWith host p ordered
           \<and> dataMappings (sourceMap (meta cp))
               = mappings (buildLoop (outText cp) ordered 0 0
                   (setRenderedText (outText cp) (newSourceMap (pname p))))"
proof -
  from assms obtain ordered where o: "orderedSections host p ctx = Inr ordered"
    by (auto simp: render_def split: sum.splits)
  with assms have "outText cp = formatWith host p ordered
      \<and> sourceMap (meta cp) = toJSON (buildSourceMap (pname p) (formatWith host p ordered) ordered)"
    unfolding render_def by (auto simp: Let_def buildMetadata_def split: sum.splits)
  with o show ?thesis by (auto simp: toJSON_def buildSourceMap_def)
qed

lemma nonempty_range:
  "covered text m \<noteq> [] \<Longrightarrow> start (outputPos m) < finish (outputPos m)"
  by (auto simp: covered_def slice_def)

text \<open>
  C1 (as amended). For every render that returns, with the ordered sections it has
  formatted: the table has at most one mapping for a section, in the output order of the
  sections; the ranges are pairwise non-overlapping and every mapping starts at or after
  the end of the mapping before it, so the starts never decrease; every mapping lies on
  the first occurrence of the text of its section at or after the end of the mapping
  before it, and covers that text; the starts increase strictly when no mapping is
  empty. Two mappings that cover the same text, as those of two sections with identical
  text that both have one, are mappings of different sections that do not overlap, the
  later starting at or after the end of the earlier, and after its start when the text is
  not empty. A section has a mapping exactly when its text occurs in the output at or
  after its cursor; a section whose text does not occur in the output has none.
\<close>

theorem render_provenance_ordered:
  assumes "render host p ctx = Inr cp"
  shows "\<exists>ordered. orderedSections host p ctx = Inr ordered
       \<and> sectionsIncreasing (dataMappings (sourceMap (meta cp)))
       \<and> nonOverlapping (dataMappings (sourceMap (meta cp)))
       \<and> chained 0 (dataMappings (sourceMap (meta cp)))
       \<and> startsIncreasing (dataMappings (sourceMap (meta cp)))
       \<and> located (outText cp) ordered 0 (dataMappings (sourceMap (meta cp)))
       \<and> list_all (\<lambda>m. case sectionOf ordered m of
                         None \<Rightarrow> False
                       | Some s \<Rightarrow> covered (outText cp) m = content s)
           (dataMappings (sourceMap (meta cp)))
       \<and> (list_all (\<lambda>m. start (outputPos m) < finish (outputPos m)) (dataMappings (sourceMap (meta cp)))
            \<longrightarrow> startsStrictlyIncreasing (dataMappings (sourceMap (meta cp))))
       \<and> (\<forall>a b. a < b \<and> b < length (dataMappings (sourceMap (meta cp)))
              \<and> covered (outText cp) (dataMappings (sourceMap (meta cp)) ! a)
                  = covered (outText cp) (dataMappings (sourceMap (meta cp)) ! b)
            \<longrightarrow> sectionIndex (source (dataMappings (sourceMap (meta cp)) ! a))
                  \<noteq> sectionIndex (source (dataMappings (sourceMap (meta cp)) ! b))
                \<and> \<not> overlaps (dataMappings (sourceMap (meta cp)) ! a) (dataMappings (sourceMap (meta cp)) ! b)
                \<and> finish (outputPos (dataMappings (sourceMap (meta cp)) ! a))
                    \<le> start (outputPos (dataMappings (sourceMap (meta cp)) ! b))
                \<and> (covered (outText cp) (dataMappings (sourceMap (meta cp)) ! a) \<noteq> []
                     \<longrightarrow> start (outputPos (dataMappings (sourceMap (meta cp)) ! a))
                           < start (outputPos (dataMappings (sourceMap (meta cp)) ! b))))
       \<and> (\<forall>i. i < length ordered \<longrightarrow>
             (mapped (dataMappings (sourceMap (meta cp))) (int i)
                \<longleftrightarrow> indexOf (outText cp) (content (ordered ! i))
                      (cursorFrom 0 (dataMappings (sourceMap (meta cp))) (int i)) \<noteq> - 1))
       \<and> (\<forall>i. i < length ordered \<and> indexOf (outText cp) (content (ordered ! i)) 0 = - 1
             \<longrightarrow> \<not> mapped (dataMappings (sourceMap (meta cp))) (int i))"
proof -
  define ms where "ms = dataMappings (sourceMap (meta cp))"
  define rt where "rt = outText cp"
  from render_parts[OF assms] obtain ordered where o: "orderedSections host p ctx = Inr ordered"
    and ms: "ms = mappings (buildLoop rt ordered 0 0 (setRenderedText rt (newSourceMap (pname p))))"
    unfolding ms_def rt_def by blast
  from buildLoop_table[of 0 rt ordered 0 ordered "setRenderedText rt (newSourceMap (pname p))"]
  have t: "chained 0 ms" "located rt ordered 0 ms" "sectionsIncreasing ms"
    "\<forall>i. 0 \<le> i \<and> nat i < length ordered \<longrightarrow>
        (mapped ms i \<longleftrightarrow> indexOf rt (content (ordered ! nat i)) (cursorFrom 0 ms i) \<noteq> - 1)"
    unfolding ms by (auto simp: setRenderedText_def newSourceMap_def)
  have cov: "list_all (\<lambda>m. case sectionOf ordered m of None \<Rightarrow> False | Some s \<Rightarrow> covered rt m = content s) ms"
    using located_covered[OF t(2)] by simp
  have strict: "list_all (\<lambda>m. start (outputPos m) < finish (outputPos m)) ms \<longrightarrow> startsStrictlyIncreasing ms"
    using chained_strict[OF t(1)] by (simp add: list_all_iff)
  have comp: "mapped ms (int i) \<longleftrightarrow> indexOf rt (content (ordered ! i)) (cursorFrom 0 ms (int i)) \<noteq> - 1"
    if "i < length ordered" for i
    using t(4)[rule_format, of "int i"] that by simp
  have none: "\<not> mapped ms (int i)" if "i < length ordered \<and> indexOf rt (content (ordered ! i)) 0 = - 1" for i
    using comp[of i] that indexOf_from_start[of rt "content (ordered ! i)" "cursorFrom 0 ms (int i)"] by auto
  have pairs: "sectionIndex (source (ms ! a)) \<noteq> sectionIndex (source (ms ! b))
      \<and> \<not> overlaps (ms ! a) (ms ! b)
      \<and> finish (outputPos (ms ! a)) \<le> start (outputPos (ms ! b))
      \<and> (covered rt (ms ! a) \<noteq> [] \<longrightarrow> start (outputPos (ms ! a)) < start (outputPos (ms ! b)))"
    if ab: "a < b \<and> b < length ms \<and> covered rt (ms ! a) = covered rt (ms ! b)" for a b
  proof -
    from ab have lt: "a < b" "b < length ms" by auto
    have f: "finish (outputPos (ms ! a)) \<le> start (outputPos (ms ! b))"
      using sorted_wrt_nth_less[OF chained_pairs[OF t(1)] lt] .
    have i: "sectionIndex (source (ms ! a)) \<noteq> sectionIndex (source (ms ! b))"
      using sorted_wrt_nth_less[OF t(3)[unfolded sectionsIncreasing_def] lt]
      by (auto split: option.splits)
    have "\<not> overlaps (ms ! a) (ms ! b)" using f by (auto simp: overlaps_def)
    moreover have "start (outputPos (ms ! a)) < start (outputPos (ms ! b))" if "covered rt (ms ! a) \<noteq> []"
      using nonempty_range[OF that] f by simp
    ultimately show ?thesis using f i by blast
  qed
  show ?thesis
    unfolding ms_def[symmetric] rt_def[symmetric]
    using o t(1,2,3) chained_nonOverlapping[OF t(1)] chained_startsIncreasing[OF t(1)] cov strict
      pairs comp none
    by blast
qed

lemma empty_render:
  "map outputPos (renderMappings (host0 h) emptyPrompt []) =
       [\<lparr>start = 0, finish = 0, line = 1, column = 1\<rparr>,
        \<lparr>start = 0, finish = 0, line = 1, column = 1\<rparr>]"
  by code_simp

text \<open>
  Two sections with empty text: both mappings are \<open>[0, 0)\<close>, so the starts do not
  increase strictly.
\<close>

theorem empty_sections_counterexample:
  "\<forall>h. \<not> startsStrictlyIncreasing (renderMappings (host0 h) emptyPrompt [])"
proof
  fix h
  from empty_render[of h] obtain m1 m2 where "renderMappings (host0 h) emptyPrompt [] = [m1, m2]"
    "outputPos m1 = \<lparr>start = 0, finish = 0, line = 1, column = 1\<rparr>"
    "outputPos m2 = \<lparr>start = 0, finish = 0, line = 1, column = 1\<rparr>"
    by auto
  then show "\<not> startsStrictlyIncreasing (renderMappings (host0 h) emptyPrompt [])"
    by (simp add: startsStrictlyIncreasing_def)
qed

lemma helpful_render: "render (host0 h) helpfulPrompt [] = Inr helpfulCompiled"
  by code_simp

lemma helpful_covered:
  "map (covered (outText helpfulCompiled)) (dataMappings (sourceMap (meta helpfulCompiled)))
     = [''Be helpful.'', ''Be helpful.'']"
  by code_simp

lemma leading_ordered: "orderedSections (host0 h) leadingPrompt [] = Inr leadingSections"
  by code_simp

lemma leading_render: "renderText (host0 h) leadingPrompt [] = Inr leadingText"
  by code_simp

lemma leading_missing: "indexOf leadingText (content (leadingSections ! 0)) 0 = - 1"
  by code_simp

text \<open>
  Two sections with the text \<open>Be helpful.\<close>: the first has the mapping \<open>[10, 21)\<close>, the
  second \<open>[47, 58)\<close>. A section with the text \<open> Be helpful.\<close>, which the output does not
  hold, has no mapping.
\<close>

theorem render_provenance_ordered_witness:
  "\<forall>h. render (host0 h) helpfulPrompt [] = Inr helpfulCompiled
     \<and> map (\<lambda>m. (start (outputPos m), finish (outputPos m), covered (outText helpfulCompiled) m))
          (dataMappings (sourceMap (meta helpfulCompiled)))
        = [(10, 21, ''Be helpful.''), (47, 58, ''Be helpful.'')]
     \<and> sectionsIncreasing (dataMappings (sourceMap (meta helpfulCompiled)))
     \<and> nonOverlapping (dataMappings (sourceMap (meta helpfulCompiled)))
     \<and> startsStrictlyIncreasing (dataMappings (sourceMap (meta helpfulCompiled)))
     \<and> \<not> overlaps (dataMappings (sourceMap (meta helpfulCompiled)) ! 0)
                  (dataMappings (sourceMap (meta helpfulCompiled)) ! 1)
     \<and> (case render (host0 h) leadingPrompt [] of
           Inl e \<Rightarrow> False
         | Inr cp \<Rightarrow> outText cp = leadingText \<and> \<not> mapped (dataMappings (sourceMap (meta cp))) 0)"
proof
  fix h
  let ?ms = "dataMappings (sourceMap (meta helpfulCompiled))"
  note t = render_provenance_ordered [OF helpful_render[of h]]
  have ne: "list_all (\<lambda>m. start (outputPos m) < finish (outputPos m)) ?ms"
    by (simp add: helpfulCompiled_def)
  have len: "(0::nat) < 1 \<and> 1 < length ?ms \<and> covered (outText helpfulCompiled) (?ms ! 0)
      = covered (outText helpfulCompiled) (?ms ! 1)"
    using helpful_covered by (simp add: helpfulCompiled_def)
  from t ne have a: "sectionsIncreasing ?ms" "nonOverlapping ?ms" "startsStrictlyIncreasing ?ms"
    by blast+
  from t len have b: "\<not> overlaps (?ms ! 0) (?ms ! 1)" by blast
  have c: "map (\<lambda>m. (start (outputPos m), finish (outputPos m), covered (outText helpfulCompiled) m)) ?ms
        = [(10, 21, ''Be helpful.''), (47, 58, ''Be helpful.'')]"
    using helpful_covered by (simp add: helpfulCompiled_def)
  from leading_render[of h] obtain cp where cp: "render (host0 h) leadingPrompt [] = Inr cp"
    "outText cp = leadingText"
    by (cases "render (host0 h) leadingPrompt []") (auto simp: renderText_def)
  from render_provenance_ordered [OF cp(1)] leading_ordered[of h]
  have "0 < length leadingSections \<and> indexOf (outText cp) (content (leadingSections ! 0)) 0 = - 1
        \<longrightarrow> \<not> mapped (dataMappings (sourceMap (meta cp))) (int 0)"
    by auto
  with leading_missing cp(2) have d: "\<not> mapped (dataMappings (sourceMap (meta cp))) 0"
    by (simp add: leadingSections_def)
  show "render (host0 h) helpfulPrompt [] = Inr helpfulCompiled
     \<and> map (\<lambda>m. (start (outputPos m), finish (outputPos m), covered (outText helpfulCompiled) m)) ?ms
        = [(10, 21, ''Be helpful.''), (47, 58, ''Be helpful.'')]
     \<and> sectionsIncreasing ?ms \<and> nonOverlapping ?ms \<and> startsStrictlyIncreasing ?ms
     \<and> \<not> overlaps (?ms ! 0) (?ms ! 1)
     \<and> (case render (host0 h) leadingPrompt [] of
           Inl e \<Rightarrow> False
         | Inr cp \<Rightarrow> outText cp = leadingText \<and> \<not> mapped (dataMappings (sourceMap (meta cp))) 0)"
    using helpful_render[of h] a b c cp d by simp
qed

section \<open>Cache-aware ordering is a stable, idempotent sort\<close>

lemma optimize_parts:
  "filter cacheable (optimizeForCaching xs) = sort_key priority (filter cacheable xs)"
  "filter (\<lambda>s. \<not> cacheable s) (optimizeForCaching xs) = sort_key priority (filter (\<lambda>s. \<not> cacheable s) xs)"
  by (simp_all add: optimizeForCaching_def Let_def filter_sort)

text \<open>
  C3. \<open>optimizeForCaching\<close> returns the cacheable sections followed by the others, each
  group sorted by ascending priority and stable (sections of equal priority keep the
  order of the input), and it is idempotent.
\<close>

theorem optimizeForCaching_stable_idempotent:
  "optimizeForCaching xs =
     filter cacheable (optimizeForCaching xs) @ filter (\<lambda>s. \<not> cacheable s) (optimizeForCaching xs)
   \<and> sorted (map priority (filter cacheable (optimizeForCaching xs)))
   \<and> sorted (map priority (filter (\<lambda>s. \<not> cacheable s) (optimizeForCaching xs)))
   \<and> (\<forall>k. filter (\<lambda>s. priority s = k) (filter cacheable (optimizeForCaching xs))
           = filter (\<lambda>s. priority s = k) (filter cacheable xs))
   \<and> (\<forall>k. filter (\<lambda>s. priority s = k) (filter (\<lambda>s. \<not> cacheable s) (optimizeForCaching xs))
           = filter (\<lambda>s. priority s = k) (filter (\<lambda>s. \<not> cacheable s) xs))
   \<and> mset (optimizeForCaching xs) = mset xs
   \<and> optimizeForCaching (optimizeForCaching xs) = optimizeForCaching xs"
proof -
  have parts: "optimizeForCaching xs =
     filter cacheable (optimizeForCaching xs) @ filter (\<lambda>s. \<not> cacheable s) (optimizeForCaching xs)"
    unfolding optimize_parts by (simp add: optimizeForCaching_def Let_def)
  have s1: "sorted (map priority (filter cacheable (optimizeForCaching xs)))"
    and s2: "sorted (map priority (filter (\<lambda>s. \<not> cacheable s) (optimizeForCaching xs)))"
    unfolding optimize_parts by simp_all
  have st1: "filter (\<lambda>s. priority s = k) (filter cacheable (optimizeForCaching xs))
           = filter (\<lambda>s. priority s = k) (filter cacheable xs)" for k
    unfolding optimize_parts by (rule sort_key_stable)
  have st2: "filter (\<lambda>s. priority s = k) (filter (\<lambda>s. \<not> cacheable s) (optimizeForCaching xs))
           = filter (\<lambda>s. priority s = k) (filter (\<lambda>s. \<not> cacheable s) xs)" for k
    unfolding optimize_parts by (rule sort_key_stable)
  have ms: "mset (optimizeForCaching xs) = mset xs"
    by (simp add: optimizeForCaching_def Let_def)
  have idem: "optimizeForCaching (optimizeForCaching xs) = optimizeForCaching xs"
  proof -
    have "optimizeForCaching (optimizeForCaching xs) =
        sort_key priority (filter cacheable (optimizeForCaching xs))
        @ sort_key priority (filter (\<lambda>s. \<not> cacheable s) (optimizeForCaching xs))"
      by (simp add: optimizeForCaching_def Let_def)
    also have "\<dots> = filter cacheable (optimizeForCaching xs)
        @ filter (\<lambda>s. \<not> cacheable s) (optimizeForCaching xs)"
      using s1 s2 by (simp add: sort_key_id_if_sorted)
    also have "\<dots> = optimizeForCaching xs" using parts by simp
    finally show ?thesis .
  qed
  show ?thesis using parts s1 s2 st1 st2 ms idem by blast
qed


section \<open>Serializing the provenance table\<close>

lemma fold_addMapping:
  "mappings (fold addMapping ms sm) = mappings sm @ ms
   \<and> prompt (fold addMapping ms sm) = prompt sm
   \<and> renderedText (fold addMapping ms sm) = renderedText sm"
  by (induction ms arbitrary: sm) (simp_all add: addMapping_def)

lemma roundtrip:
  "fromJSON (toJSON sm) = \<lparr>prompt = prompt sm, mappings = mappings sm, renderedText = []\<rparr>"
proof -
  have "mappings (fromJSON (toJSON sm)) = mappings sm" "prompt (fromJSON (toJSON sm)) = prompt sm"
    "renderedText (fromJSON (toJSON sm)) = []"
    using fold_addMapping[of "mappings sm" "newSourceMap (prompt sm)"]
    by (simp_all add: fromJSON_def toJSON_def newSourceMap_def)
  then show ?thesis by (cases "fromJSON (toJSON sm)") simp
qed

text \<open>
  C4 (as amended). \<open>fromJSON (toJSON sm)\<close> has the subject and the mappings of \<open>sm\<close> in
  their order, and answers \<open>originAtOffset\<close> and \<open>positionsFrom\<close> as \<open>sm\<close> does. The
  rendered text is not part of the plain record: the restored table has the empty text,
  so its \<open>originAt (line, column)\<close> is the origin at offset \<open>column - 1\<close>; once the text
  is set again with \<open>setRenderedText\<close>, \<open>originAt\<close> answers as on \<open>sm\<close>.
\<close>

theorem roundtrip_preserves_offset_queries:
  "mappings (fromJSON (toJSON sm)) = mappings sm
   \<and> prompt (fromJSON (toJSON sm)) = prompt sm
   \<and> (\<forall>offset. originAtOffset (fromJSON (toJSON sm)) offset = originAtOffset sm offset)
   \<and> (\<forall>i. positionsFrom (fromJSON (toJSON sm)) i = positionsFrom sm i)
   \<and> (\<forall>ln col. originAt (setRenderedText (renderedText sm) (fromJSON (toJSON sm))) ln col
                  = originAt sm ln col)
   \<and> renderedText (fromJSON (toJSON sm)) = []
   \<and> (\<forall>ln col. originAt (fromJSON (toJSON sm)) ln col = originAtOffset sm (col - 1))"
  by (simp add: roundtrip originAtOffset_def positionsFrom_def originAt_def setRenderedText_def
      getCharOffset_def)

text \<open>
  On the table over \<open>Hello World / Line two\<close>, line 2 column 1 is offset 12 and belongs
  to the dynamic section; on the restored table it is read as offset 0, the fragment.
\<close>

theorem roundtrip_originAt_counterexample:
  "originAt helloTable 2 1 = Some userOrigin
   \<and> originAt (fromJSON (toJSON helloTable)) 2 1 = Some greetingOrigin
   \<and> userOrigin \<noteq> greetingOrigin"
proof -
  have ms: "map outputPos (mappings helloTable) =
      [\<lparr>start = 0, finish = 11, line = 1, column = 1\<rparr>, \<lparr>start = 12, finish = 20, line = 2, column = 1\<rparr>]"
    and srcs: "map source (mappings helloTable) = [greetingOrigin, userOrigin]"
    and rt: "renderedText helloTable = ''Hello World'' @ [CHR 0x0A] @ ''Line two''"
    by (simp_all add: helloTable_def addDynamicMapping_def addFragmentMapping_def setRenderedText_def
        newSourceMap_def getLineColumn_def greetingOrigin_def userOrigin_def)
  then obtain m1 m2 where m: "mappings helloTable = [m1, m2]"
    "outputPos m1 = \<lparr>start = 0, finish = 11, line = 1, column = 1\<rparr>"
    "outputPos m2 = \<lparr>start = 12, finish = 20, line = 2, column = 1\<rparr>"
    "source m1 = greetingOrigin" "source m2 = userOrigin"
    by auto
  have "originAt helloTable 2 1 = Some userOrigin"
    by (simp add: originAt_def getCharOffset_def rt m inRange_def)
  moreover have "originAt (fromJSON (toJSON helloTable)) 2 1 = Some greetingOrigin"
    by (simp add: roundtrip originAt_def getCharOffset_def m inRange_def)
  moreover have "userOrigin \<noteq> greetingOrigin"
    by (simp add: userOrigin_def greetingOrigin_def)
  ultimately show ?thesis by simp
qed

section \<open>The semantic parser never fails\<close>

text \<open>
  C7. For every raw text and whatever \<open>JSON.parse\<close> does, \<open>parseSemanticResponse\<close> returns
  a list of findings: every throw of a strategy is a branch of \<open>tryParse\<close>. The strategies
  are tried in the order direct parse, code fence, first \<open>[\<close> to last \<open>]\<close>, and the first
  value is the result, \<open>null\<close> when there is none; a result that is not an array gives
  exactly the finding \<open>semantic-parse-error\<close> of severity \<open>info\<close>. The text \<open>not json\<close>,
  which \<open>JSON.parse\<close> rejects, gives exactly that finding.
\<close>

theorem parseSemanticResponse_resilient:
  "(directParse parse (trim raw) = Some v \<longrightarrow> tryParse parse raw = v)
   \<and> (directParse parse (trim raw) = None \<and> fenceParse parse (trim raw) = Some v
        \<longrightarrow> tryParse parse raw = v)
   \<and> (directParse parse (trim raw) = None \<and> fenceParse parse (trim raw) = None
        \<and> bracketParse parse (trim raw) = Some v \<longrightarrow> tryParse parse raw = v)
   \<and> (directParse parse (trim raw) = None \<and> fenceParse parse (trim raw) = None
        \<and> bracketParse parse (trim raw) = None \<longrightarrow> tryParse parse raw = JNull)
   \<and> ((\<forall>items. tryParse parse raw \<noteq> JArray items)
        \<longrightarrow> parseSemanticResponse parse raw = [parseErrorWarning])
   \<and> (\<forall>items. tryParse parse raw = JArray items
        \<longrightarrow> parseSemanticResponse parse raw = concat (map findingOf items))
   \<and> wid parseErrorWarning = ''semantic-parse-error'' \<and> severity parseErrorWarning = info
   \<and> (parse ''not json'' = None \<longrightarrow> parseSemanticResponse parse ''not json'' = [parseErrorWarning])"
proof -
  have nj: "parseSemanticResponse parse ''not json'' = [parseErrorWarning]" if "parse ''not json'' = None"
  proof -
    have t: "trim ''not json'' = ''not json''" by code_simp
    have f: "exec fenceRegex ''not json'' = None" by code_simp
    have b: "indexOf ''not json'' ''['' 0 = - 1" by code_simp
    have "tryParse parse ''not json'' = JNull"
      using that by (simp add: tryParse_def directParse_def fenceParse_def bracketParse_def t f b)
    then show ?thesis by (simp add: parseSemanticResponse_def)
  qed
  have na: "parseSemanticResponse parse raw = [parseErrorWarning]"
    if "\<forall>items. tryParse parse raw \<noteq> JArray items"
    using that by (cases "tryParse parse raw") (simp_all add: parseSemanticResponse_def)
  show ?thesis
    using nj na
    by (simp add: tryParse_def parseSemanticResponse_def parseErrorWarning_def)
qed

theorem parseSemanticResponse_resilient_witness:
  "miniJSON ''not json'' = None
   \<and> parseSemanticResponse miniJSON ''not json'' = [parseErrorWarning]
   \<and> directParse miniJSON (trim ''  []  '') = Some (JArray [])
   \<and> tryParse miniJSON ''  []  '' = JArray []
   \<and> parseSemanticResponse miniJSON ''  []  '' = []
   \<and> directParse miniJSON (trim fencedAnswer) = None
   \<and> fenceParse miniJSON (trim fencedAnswer) = Some (JArray [JObject [(''id'', JString ''semantic-ambiguity''), (''message'', JString ''Vague'')]])
   \<and> parseSemanticResponse miniJSON fencedAnswer = [vagueFinding]
   \<and> directParse miniJSON (trim chattyAnswer) = None
   \<and> fenceParse miniJSON (trim chattyAnswer) = None
   \<and> bracketParse miniJSON (trim chattyAnswer) = Some (JArray [JObject [(''id'', JString ''semantic-ambiguity''), (''message'', JString ''Vague'')]])
   \<and> parseSemanticResponse miniJSON chattyAnswer = [vagueFinding]
   \<and> tryParse miniJSON ''{}'' = JObject []
   \<and> parseSemanticResponse miniJSON ''{}'' = [parseErrorWarning]"
proof -
  have h1: "miniJSON ''not json'' = None" by code_simp
  have h2: "directParse miniJSON (trim ''  []  '') = Some (JArray [])" by code_simp
  have h3: "directParse miniJSON (trim fencedAnswer) = None" by code_simp
  have h4: "fenceParse miniJSON (trim fencedAnswer) = Some (JArray [JObject [(''id'', JString ''semantic-ambiguity''), (''message'', JString ''Vague'')]])"
    by code_simp
  have h5: "directParse miniJSON (trim chattyAnswer) = None" by code_simp
  have h6: "fenceParse miniJSON (trim chattyAnswer) = None" by code_simp
  have h7: "bracketParse miniJSON (trim chattyAnswer) = Some (JArray [JObject [(''id'', JString ''semantic-ambiguity''), (''message'', JString ''Vague'')]])"
    by code_simp
  have h8: "directParse miniJSON (trim ''{}'') = Some (JObject [])" by code_simp
  have f: "findingOf (JObject [(''id'', JString ''semantic-ambiguity''), (''message'', JString ''Vague'')]) = [vagueFinding]"
    by code_simp
  note T = parseSemanticResponse_resilient [where parse = miniJSON]
  from T [of "''not json''"] h1
  have a: "parseSemanticResponse miniJSON ''not json'' = [parseErrorWarning]" by blast
  from T [of "''  []  ''" "JArray []"] h2
  have b: "tryParse miniJSON ''  []  '' = JArray []" by blast
  with T [of "''  []  ''"] have b': "parseSemanticResponse miniJSON ''  []  '' = []" by simp
  from T [of fencedAnswer "JArray [JObject [(''id'', JString ''semantic-ambiguity''), (''message'', JString ''Vague'')]]"] h3 h4
  have c: "tryParse miniJSON fencedAnswer = JArray [JObject [(''id'', JString ''semantic-ambiguity''), (''message'', JString ''Vague'')]]"
    by blast
  with T [of fencedAnswer] f have c': "parseSemanticResponse miniJSON fencedAnswer = [vagueFinding]" by simp
  from T [of chattyAnswer "JArray [JObject [(''id'', JString ''semantic-ambiguity''), (''message'', JString ''Vague'')]]"] h5 h6 h7
  have d: "tryParse miniJSON chattyAnswer = JArray [JObject [(''id'', JString ''semantic-ambiguity''), (''message'', JString ''Vague'')]]"
    by blast
  with T [of chattyAnswer] f have d': "parseSemanticResponse miniJSON chattyAnswer = [vagueFinding]" by simp
  from T [of "''{}''" "JObject []"] h8
  have e: "tryParse miniJSON ''{}'' = JObject []" by blast
  with T [of "''{}''"] have e': "parseSemanticResponse miniJSON ''{}'' = [parseErrorWarning]" by simp
  show ?thesis using h1 a h2 b b' h3 h4 c' h5 h6 h7 d' e e' by simp
qed

section \<open>Trimmed output, untrimmed search\<close>

lemma trim_idem: "trim (trim s) = trim s"
proof -
  define u where "u = dropWhile isSpace s"
  define v where "v = dropWhile isSpace (rev u)"
  have t: "trim s = rev v" by (simp add: trim_def u_def v_def)
  have 1: "dropWhile isSpace (rev v) = rev v"
  proof (cases v)
    case Nil
    then show ?thesis by simp
  next
    case (Cons a w)
    then have "v \<noteq> []" by simp
    then have "rev u \<noteq> []" unfolding v_def by auto
    then have "u \<noteq> []" by simp
    then have "\<not> isSpace (hd u)" unfolding u_def by (metis hd_dropWhile)
    moreover have "hd (rev v) = hd u"
    proof -
      have "rev u = takeWhile isSpace (rev u) @ v" by (simp add: v_def)
      then have "u = rev v @ rev (takeWhile isSpace (rev u))"
        by (metis rev_append rev_rev_ident)
      with \<open>v \<noteq> []\<close> show ?thesis by (metis hd_append2 rev_is_Nil_conv)
    qed
    ultimately have "\<not> isSpace (hd (rev v))" by simp
    then show ?thesis using Cons by (cases "rev v") auto
  qed
  have 2: "dropWhile isSpace v = v" unfolding v_def by (rule dropWhile_idem)
  show ?thesis unfolding t by (simp add: trim_def 1 2)
qed

lemma formatSection_trim:
  "formatSection fmt (s\<lparr>content := trim (content s)\<rparr>) = formatSection fmt s"
  by (cases fmt) (simp_all add: trim_idem getTagName_def getHeader_def getLabel_def Let_def)

lemma formatSection_contains:
  "\<exists>pre post. formatSection fmt s = pre @ trim (content s) @ post"
proof (cases "trim (content s) = []")
  case True
  then have "formatSection fmt s = formatSection fmt s @ trim (content s) @ []" by simp
  then show ?thesis by blast
next
  case False
  show ?thesis
  proof (cases fmt)
    case XmlFormatter
    show ?thesis
    proof (cases "CHR 0x0A \<notin> set (trim (content s)) \<and> length (trim (content s)) < 80")
      case True
      with False have "formatSection fmt s =
          (''<'' @ getTagName s @ ''>'') @ trim (content s) @ (''</'' @ getTagName s @ ''>'')"
        by (simp add: XmlFormatter Let_def)
      then show ?thesis by blast
    next
      case nl: False
      with False have "formatSection fmt s =
          (''<'' @ getTagName s @ ''>'' @ [CHR 0x0A]) @ trim (content s)
            @ ([CHR 0x0A] @ ''</'' @ getTagName s @ ''>'')"
        by (auto simp add: XmlFormatter Let_def)
      then show ?thesis by blast
    qed
  next
    case (MarkdownFormatter n)
    have "formatSection fmt s =
        (replicate n CHR ''#'' @ '' '' @ getHeader s @ [CHR 0x0A, CHR 0x0A]) @ trim (content s) @ []"
      using False by (simp add: MarkdownFormatter Let_def)
    then show ?thesis by blast
  next
    case (PlainFormatter sep lab)
    show ?thesis
    proof (cases lab)
      case True
      have "formatSection fmt s = (''['' @ getLabel s @ '']'' @ [CHR 0x0A]) @ trim (content s) @ []"
        using False True by (simp add: PlainFormatter Let_def)
      then show ?thesis by blast
    next
      case nolab: False
      have "formatSection fmt s = [] @ trim (content s) @ []"
        using nolab by (simp add: PlainFormatter Let_def)
      then show ?thesis by blast
    qed
  qed
qed

lemma sectionMapping_pos:
  "\<exists>m. mappings (sectionMapping sm s i a b) = mappings sm @ [m]
       \<and> outputPos m = \<lparr>start = a, finish = b, line = fst (getLineColumn sm a),
                         column = snd (getLineColumn sm a)\<rparr>"
  by (simp add: sectionMapping_def Let_def)

lemma sectionMapping_text: "renderedText (sectionMapping sm s i a b) = renderedText sm"
  by (simp add: sectionMapping_def Let_def addDynamicMapping_def addLiteralMapping_def
      addFragmentMapping_def split: prod.splits)

text \<open>
  The ranges of the mappings the loop adds do not depend on the index it counts from nor
  on the mappings of the table it starts with.
\<close>

lemma buildLoop_positions:
  "renderedText sm = renderedText sm' \<Longrightarrow>
     \<exists>new new'. mappings (buildLoop text ss i offset sm) = mappings sm @ new
        \<and> mappings (buildLoop text ss j offset sm') = mappings sm' @ new'
        \<and> map outputPos new = map outputPos new'"
proof (induction ss arbitrary: i j offset sm sm')
  case Nil
  then show ?case by simp
next
  case (Cons s ss)
  define r where "r = indexOf text (content s) offset"
  show ?case
  proof (cases "r = - 1")
    case True
    from Cons.IH[OF Cons.prems, of "i + 1" offset "j + 1"] True
    show ?thesis unfolding buildLoop_step r_def[symmetric] by (simp add: Let_def)
  next
    case False
    define e where "e = r + int (length (content s))"
    obtain m where m: "mappings (sectionMapping sm s i r e) = mappings sm @ [m]"
      "outputPos m = \<lparr>start = r, finish = e, line = fst (getLineColumn sm r),
                       column = snd (getLineColumn sm r)\<rparr>"
      using sectionMapping_pos by blast
    obtain m' where m': "mappings (sectionMapping sm' s j r e) = mappings sm' @ [m']"
      "outputPos m' = \<lparr>start = r, finish = e, line = fst (getLineColumn sm' r),
                        column = snd (getLineColumn sm' r)\<rparr>"
      using sectionMapping_pos by blast
    have pos: "outputPos m = outputPos m'" using m(2) m'(2) Cons.prems by (simp add: getLineColumn_def)
    have "renderedText (sectionMapping sm s i r e) = renderedText (sectionMapping sm' s j r e)"
      using Cons.prems by (simp add: sectionMapping_text)
    from Cons.IH[OF this, of "i + 1" e "j + 1"]
    obtain new new' where new:
      "mappings (buildLoop text ss (i + 1) e (sectionMapping sm s i r e))
         = mappings (sectionMapping sm s i r e) @ new"
      "mappings (buildLoop text ss (j + 1) e (sectionMapping sm' s j r e))
         = mappings (sectionMapping sm' s j r e) @ new'"
      "map outputPos new = map outputPos new'" by blast
    have 1: "mappings (buildLoop text (s # ss) i offset sm) = mappings sm @ (m # new)"
      unfolding buildLoop_step r_def[symmetric] using False new(1) m(1) by (simp add: Let_def e_def)
    have 2: "mappings (buildLoop text (s # ss) j offset sm') = mappings sm' @ (m' # new')"
      unfolding buildLoop_step r_def[symmetric] using False new(2) m'(1) by (simp add: Let_def e_def)
    have 3: "map outputPos (m # new) = map outputPos (m' # new')" using pos new(3) by simp
    from 1 2 3 show ?thesis by blast
  qed
qed

lemma buildLoop_without:
  assumes "indexOf text (content s) offset = - 1"
  shows "map outputPos (mappings (buildLoop text (s # ss) i offset sm))
           = map outputPos (mappings (buildLoop text ss i offset sm))"
proof -
  have "buildLoop text (s # ss) i offset sm = buildLoop text ss (i + 1) offset sm"
    unfolding buildLoop_step using assms by (simp add: Let_def)
  moreover from buildLoop_positions[of sm sm "text" ss "i + 1" offset i]
  have "map outputPos (mappings (buildLoop text ss (i + 1) offset sm))
           = map outputPos (mappings (buildLoop text ss i offset sm))" by auto
  ultimately show ?thesis by simp
qed

lemma firstOrigin_member:
  "firstOrigin ms offset = Some src \<Longrightarrow> \<exists>m \<in> set ms. source m = src"
  by (induction ms) (auto split: if_splits)

text \<open>The loop at the section \<open>s\<close> of the ordered list \<open>pre @ s # post\<close>.\<close>

lemma buildLoop_at:
  assumes "0 \<le> c" "c \<le> int (length text)"
  shows "\<exists>new. mappings (buildLoop text (s # post) (int (length pre)) c sm) = mappings sm @ new
      \<and> chained c new \<and> located text (pre @ s # post) c new
      \<and> (mapped new (int (length pre)) \<longleftrightarrow> indexOf text (content s) c \<noteq> - 1)
      \<and> (\<forall>m \<in> set new. \<exists>j. sectionIndex (source m) = Some j \<and> int (length pre) \<le> j)"
proof -
  have d: "s # post = drop (length pre) (pre @ s # post)" by simp
  from buildLoop_table[OF assms d, of sm]
  obtain new where new: "mappings (buildLoop text (s # post) (int (length pre)) c sm) = mappings sm @ new"
    "chained c new" "located text (pre @ s # post) c new"
    "\<forall>m \<in> set new. \<exists>j. sectionIndex (source m) = Some j \<and> int (length pre) \<le> j"
    "\<forall>i. int (length pre) \<le> i \<and> nat i < length (pre @ s # post) \<longrightarrow>
        (mapped new i \<longleftrightarrow> indexOf text (content ((pre @ s # post) ! nat i)) (cursorFrom c new i) \<noteq> - 1)"
    by blast
  have "cursorFrom c new (int (length pre)) = c" using new(4) by (rule cursorFrom_later)
  with new(5)[rule_format, of "int (length pre)"]
  have "mapped new (int (length pre)) \<longleftrightarrow> indexOf text (content s) c \<noteq> - 1" by simp
  with new show ?thesis by blast
qed

lemma buildMetadata_returns:
  assumes "\<forall>t. \<not> isl (countTokens host t (model p))"
  shows "\<exists>m. buildMetadata host p t ordered sm = Inr m \<and> sourceMap m = toJSON sm"
proof -
  have tl: "\<exists>tbs. tokensLoop host (model p) ss acc = Inr tbs" for ss acc
  proof (induction ss arbitrary: acc)
    case Nil
    then show ?case by simp
  next
    case (Cons s ss)
    from assms obtain n where "countTokens host (content s) (model p) = Inr n"
      by (cases "countTokens host (content s) (model p)") (auto dest: spec[of _ "content s"])
    then show ?case using Cons by simp
  qed
  from assms obtain n where n: "countTokens host t (model p) = Inr n"
    by (cases "countTokens host t (model p)") (auto dest: spec[of _ t])
  from tl[of ordered "[]"] obtain tbs where "tokensLoop host (model p) ordered [] = Inr tbs" by blast
  with n show ?thesis by (simp add: buildMetadata_def)
qed

lemma render_returns:
  assumes "orderedSections host p ctx = Inr ordered" "\<forall>t. \<not> isl (countTokens host t (model p))"
  shows "\<exists>cp. render host p ctx = Inr cp \<and> outText cp = formatWith host p ordered
           \<and> dataMappings (sourceMap (meta cp))
               = mappings (buildSourceMap (pname p) (formatWith host p ordered) ordered)"
proof -
  from buildMetadata_returns[OF assms(2), of "formatWith host p ordered" ordered
      "buildSourceMap (pname p) (formatWith host p ordered) ordered"]
  obtain m where "buildMetadata host p (formatWith host p ordered) ordered
      (buildSourceMap (pname p) (formatWith host p ordered) ordered) = Inr m"
    "sourceMap m = toJSON (buildSourceMap (pname p) (formatWith host p ordered) ordered)" by blast
  with assms(1) show ?thesis by (simp add: render_def Let_def toJSON_def)
qed

text \<open>
  C10 (as amended). A built-in formatter writes the trimmed text of a section and
  nothing else of it: its output is the same for the text and for the trimmed text, and
  holds the trimmed text between the decoration. The assembler searches the untrimmed
  text. When the loop reaches the section \<open>s\<close> of the ordered list \<open>pre @ s # post\<close> with
  the cursor \<open>c\<close> and the table \<open>sm\<close>, the search succeeds exactly when the untrimmed
  text occurs in the final text at or after the cursor. The section then has a mapping,
  of the untrimmed length, on the first such occurrence, and every later mapping starts
  at or after its end. Otherwise the section has no mapping, the ranges that the loop
  adds are those it adds for the list without the section, from the same cursor, and no
  origin query gives the section. The render returns in both cases: when the sections
  resolve and the count of tokens never throws, it returns the formatted text and the
  table that the loop builds over it.
\<close>

theorem untrimmed_search:
  "formatSection fmt (s\<lparr>content := trim (content s)\<rparr>) = formatSection fmt s
   \<and> (\<exists>before after. formatSection fmt s = before @ trim (content s) @ after)
   \<and> (indexOf text (content s) c \<noteq> - 1 \<longleftrightarrow>
        (\<exists>j. nat (min (max c 0) (int (length text))) \<le> j \<and> j + length (content s) \<le> length text
             \<and> take (length (content s)) (drop j text) = content s))
   \<and> (0 \<le> c \<and> c \<le> int (length text) \<and> indexOf text (content s) c \<noteq> - 1
        \<longrightarrow> (\<exists>m rest. mappings (buildLoop text (s # post) (int (length (pre :: RenderedSection list))) c sm)
                          = mappings sm @ m # rest
               \<and> sectionIndex (source m) = Some (int (length pre))
               \<and> start (outputPos m) = indexOf text (content s) c
               \<and> finish (outputPos m) = start (outputPos m) + int (length (content s))
               \<and> covered text m = content s
               \<and> chained (finish (outputPos m)) rest))
   \<and> (0 \<le> c \<and> c \<le> int (length text) \<and> indexOf text (content s) c = - 1
        \<longrightarrow> (\<exists>rest. mappings (buildLoop text (s # post) (int (length pre)) c sm) = mappings sm @ rest
               \<and> \<not> mapped rest (int (length pre)))
            \<and> map outputPos (mappings (buildLoop text (s # post) (int (length pre)) c sm))
                = map outputPos (mappings (buildLoop text post (int (length pre)) c sm))
            \<and> (\<not> mapped (mappings sm) (int (length pre))
                 \<longrightarrow> (\<forall>offset. map_option sectionIndex
                                 (originAtOffset (buildLoop text (s # post) (int (length pre)) c sm) offset)
                               \<noteq> Some (Some (int (length pre))))))
   \<and> (orderedSections host p ctx = Inr ordered \<and> (\<forall>t. \<not> isl (countTokens host t (model p)))
        \<longrightarrow> (\<exists>cp. render host p ctx = Inr cp \<and> outText cp = formatWith host p ordered
               \<and> dataMappings (sourceMap (meta cp))
                   = mappings (buildSourceMap (pname p) (formatWith host p ordered) ordered)))"
proof -
  let ?k = "int (length pre)"
  let ?T = "buildLoop text (s # post) ?k c sm"
  have found: "\<exists>m rest. mappings ?T = mappings sm @ m # rest
               \<and> sectionIndex (source m) = Some ?k
               \<and> start (outputPos m) = indexOf text (content s) c
               \<and> finish (outputPos m) = start (outputPos m) + int (length (content s))
               \<and> covered text m = content s
               \<and> chained (finish (outputPos m)) rest"
    if a: "0 \<le> c \<and> c \<le> int (length text) \<and> indexOf text (content s) c \<noteq> - 1"
  proof -
    from a have c: "0 \<le> c" "c \<le> int (length text)" by auto
    from buildLoop_at[OF c, of s post pre sm]
    obtain new where new: "mappings ?T = mappings sm @ new" "chained c new"
      "located text (pre @ s # post) c new" "mapped new ?k"
      "\<forall>m \<in> set new. \<exists>j. sectionIndex (source m) = Some j \<and> ?k \<le> j"
      using a by blast
    from new(4) obtain m rest where mr: "new = m # rest" by (cases new) (auto simp: mapped_def)
    have inc: "sectionsIncreasing new"
      using buildLoop_table[OF c, of "s # post" "length pre" "pre @ s # post" sm] new(1) by auto
    have idx: "sectionIndex (source m) = Some ?k"
    proof -
      from new(4) obtain m' where m': "m' \<in> set new" "sectionIndex (source m') = Some ?k"
        by (auto simp: mapped_def list_ex_iff)
      show ?thesis
      proof (cases "m' = m")
        case True
        with m' show ?thesis by simp
      next
        case False
        with m' mr have "m' \<in> set rest" by simp
        with inc mr m'(2) obtain j where "sectionIndex (source m) = Some j" "j < ?k"
          by (auto simp: sectionsIncreasing_def split: option.splits)
        with new(5) mr show ?thesis by auto
      qed
    qed
    have so: "sectionOf (pre @ s # post) m = Some s" using idx by (simp add: sectionOf_def)
    from new(3) mr so have l: "start (outputPos m) = indexOf text (content s) c"
      "finish (outputPos m) = start (outputPos m) + int (length (content s))" by auto
    from located_covered[OF new(3) c(1)] mr so have cv: "covered text m = content s" by simp
    from new(2) mr have ch: "chained (finish (outputPos m)) rest" by simp
    show ?thesis using new(1) mr idx l cv ch by blast
  qed
  have missing: "(\<exists>rest. mappings ?T = mappings sm @ rest \<and> \<not> mapped rest ?k)
            \<and> map outputPos (mappings ?T) = map outputPos (mappings (buildLoop text post ?k c sm))
            \<and> (\<not> mapped (mappings sm) ?k
                 \<longrightarrow> (\<forall>offset. map_option sectionIndex (originAtOffset ?T offset) \<noteq> Some (Some ?k)))"
    if a: "0 \<le> c \<and> c \<le> int (length text) \<and> indexOf text (content s) c = - 1"
  proof -
    from a have c: "0 \<le> c" "c \<le> int (length text)" by auto
    from buildLoop_at[OF c, of s post pre sm]
    obtain new where new: "mappings ?T = mappings sm @ new" "\<not> mapped new ?k"
      using a by blast
    have q: "map_option sectionIndex (originAtOffset ?T offset) \<noteq> Some (Some ?k)"
      if n: "\<not> mapped (mappings sm) ?k" for offset
    proof
      assume "map_option sectionIndex (originAtOffset ?T offset) = Some (Some ?k)"
      then obtain src where src: "originAtOffset ?T offset = Some src" "sectionIndex src = Some ?k"
        by auto
      from firstOrigin_member[OF src(1)[unfolded originAtOffset_def]]
      obtain m where "m \<in> set (mappings ?T)" "source m = src" by blast
      with src(2) new n show False by (auto simp: mapped_def list_ex_iff)
    qed
    from new q buildLoop_without[of "text" s c post ?k sm] a show ?thesis by blast
  qed
  show ?thesis
    using formatSection_trim[of fmt s] formatSection_contains[of fmt s]
      indexOf_iff[of "text" "content s" c] found missing
      render_returns[of host p ctx ordered]
    by blast
qed

lemma count_host0:
  "countTokens (host0 h) t ''claude-sonnet-4-20250514'' = Inr ((int (length t) + 3) div 4)"
  by (simp add: countTokens_def getModelConfig_def models_def host0_def getEncoding_def
      estimate_def Let_def)

lemma leading_format: "formatWith (host0 h) leadingPrompt leadingSections = leadingText"
  by code_simp

lemma leading_section: "formatSection XmlFormatter (leadingSections ! 0) = ''<identity>Be helpful.</identity>''"
  by code_simp

lemma leading_found: "indexOf leadingText (content (leadingSections ! 1)) 0 = 42"
  by code_simp

lemma leading_rest:
  "map outputPos (mappings (buildLoop leadingText [leadingSections ! 1] 0 0
       (setRenderedText leadingText (newSourceMap ''leading''))))
     = [\<lparr>start = 42, finish = 58, line = 3, column = 9\<rparr>]"
  by code_simp

lemma leading_queries:
  "map (originAtOffset (buildSourceMap ''leading'' leadingText leadingSections)) [10, 15, 20]
     = [None, None, None]"
  by code_simp

lemma trailing_render:
  "map outputPos (renderMappings (host0 h) trailingPrompt [])
     = [\<lparr>start = 11, finish = 38, line = 2, column = 1\<rparr>]"
  by code_simp

lemma trailing_text:
  "renderText (host0 h) trailingPrompt [] =
     Inr (''<identity>'' @ [CHR 0x0A] @ ''You are helpful.'' @ [CHR 0x0A] @ ''Be brief.'' @ [CHR 0x0A] @ ''</identity>'')"
  by code_simp

text \<open>
  A section of two lines that ends with a line break: the formatter writes the trimmed
  lines between two line breaks of its own, the untrimmed text is found, and the section
  has the mapping \<open>[11, 38)\<close>.
\<close>

theorem trailing_newline_counterexample:
  "\<forall>h. trim trailingContent \<noteq> trailingContent
   \<and> renderText (host0 h) trailingPrompt [] =
        Inr (''<identity>'' @ [CHR 0x0A] @ ''You are helpful.'' @ [CHR 0x0A] @ ''Be brief.'' @ [CHR 0x0A] @ ''</identity>'')
   \<and> map outputPos (renderMappings (host0 h) trailingPrompt [])
        = [\<lparr>start = 11, finish = 38, line = 2, column = 1\<rparr>]"
proof -
  have "trim trailingContent \<noteq> trailingContent" by code_simp
  with trailing_render trailing_text show ?thesis by simp
qed

text \<open>
  A section with the text \<open> Be helpful.\<close> before a section with the text
  \<open>Respond in JSON.\<close>: the formatter writes \<open>Be helpful.\<close>, the search for the first
  section fails and the second is found at 42; the table is the one of the second section
  alone, the queries at the offsets 10, 15 and 20 of the first give nothing, and the
  render returns the text with that table.
\<close>

theorem untrimmed_search_witness:
  "\<forall>h. formatSection XmlFormatter (leadingSections ! 0) = ''<identity>Be helpful.</identity>''
     \<and> indexOf leadingText (content (leadingSections ! 0)) 0 = - 1
     \<and> indexOf leadingText (content (leadingSections ! 1)) 0 = 42
     \<and> map outputPos (mappings (buildSourceMap ''leading'' leadingText leadingSections))
          = [\<lparr>start = 42, finish = 58, line = 3, column = 9\<rparr>]
     \<and> map (originAtOffset (buildSourceMap ''leading'' leadingText leadingSections)) [10, 15, 20]
          = [None, None, None]
     \<and> (\<exists>m. mappings (buildLoop leadingText [leadingSections ! 1] 1 0
                  (setRenderedText leadingText (newSourceMap ''leading''))) = [m]
            \<and> start (outputPos m) = 42 \<and> finish (outputPos m) = 58
            \<and> covered leadingText m = ''Respond in JSON.'')
     \<and> (case render (host0 h) leadingPrompt [] of
           Inl e \<Rightarrow> False
         | Inr cp \<Rightarrow> outText cp = leadingText
             \<and> map outputPos (dataMappings (sourceMap (meta cp)))
                 = [\<lparr>start = 42, finish = 58, line = 3, column = 9\<rparr>])"
proof
  fix h
  let ?sm = "setRenderedText leadingText (newSourceMap ''leading'')"
  define s0 where "s0 = leadingSections ! 0"
  define s1 where "s1 = leadingSections ! 1"
  have l: "leadingSections = [s0, s1]"
    by (simp add: s0_def s1_def leadingSections_def)
  have len: "0 \<le> (0::int) \<and> 0 \<le> int (length leadingText)" by simp
  have e: "mappings ?sm = []" "\<not> mapped (mappings ?sm) 0"
    by (simp_all add: setRenderedText_def newSourceMap_def mapped_def)
  have tok: "\<forall>t. \<not> isl (countTokens (host0 h) t (model leadingPrompt))"
    by (simp add: leadingPrompt_def count_host0)
  note first = untrimmed_search [of XmlFormatter s0 leadingText 0 "[s1]" "[]" ?sm
      "host0 h" leadingPrompt "[]" leadingSections]
  from first leading_missing[folded s0_def] len
  have w: "map outputPos (mappings (buildLoop leadingText [s0, s1] 0 0 ?sm))
      = map outputPos (mappings (buildLoop leadingText [s1] 0 0 ?sm))"
    by (simp del: buildLoop.simps)
  have t: "map outputPos (mappings (buildSourceMap ''leading'' leadingText leadingSections))
          = [\<lparr>start = 42, finish = 58, line = 3, column = 9\<rparr>]"
    unfolding buildSourceMap_def l using w leading_rest[folded s1_def] by (simp del: buildLoop.simps)
  from first leading_ordered[of h] tok
  obtain cp where cp: "render (host0 h) leadingPrompt [] = Inr cp"
    "outText cp = formatWith (host0 h) leadingPrompt leadingSections"
    "dataMappings (sourceMap (meta cp))
       = mappings (buildSourceMap (pname leadingPrompt) (formatWith (host0 h) leadingPrompt leadingSections)
           leadingSections)"
    by blast
  have r: "outText cp = leadingText
      \<and> map outputPos (dataMappings (sourceMap (meta cp))) = [\<lparr>start = 42, finish = 58, line = 3, column = 9\<rparr>]"
  proof -
    have pn: "pname leadingPrompt = ''leading''" by (simp add: leadingPrompt_def)
    show ?thesis using cp(2,3) t by (simp add: leading_format pn)
  qed
  note second = untrimmed_search [of XmlFormatter s1 leadingText 0 "[]" "[s0]" ?sm
      "host0 h" leadingPrompt "[]" leadingSections]
  from second leading_found[folded s1_def] len
  obtain m rest where m: "mappings (buildLoop leadingText [s1] 1 0 ?sm) = mappings ?sm @ m # rest"
    "start (outputPos m) = 42" "finish (outputPos m) = start (outputPos m) + int (length (content s1))"
    "covered leadingText m = content s1"
    by (auto simp del: buildLoop.simps)
  have "length (mappings (buildLoop leadingText [s1] 1 0 ?sm)) \<le> 1"
    by (simp add: Let_def sectionMapping_def addLiteralMapping_def addFragmentMapping_def
        addDynamicMapping_def setRenderedText_def newSourceMap_def split: prod.splits)
  with m(1) e(1) have rest: "rest = []" by simp
  have c1: "content s1 = ''Respond in JSON.''"
    by (simp add: s1_def leadingSections_def renderedSection_def)
  have f: "\<exists>m. mappings (buildLoop leadingText [leadingSections ! 1] 1 0 ?sm) = [m]
            \<and> start (outputPos m) = 42 \<and> finish (outputPos m) = 58
            \<and> covered leadingText m = ''Respond in JSON.''"
    unfolding s1_def[symmetric] using m rest e(1) c1 by (auto simp del: buildLoop.simps)
  show "formatSection XmlFormatter (leadingSections ! 0) = ''<identity>Be helpful.</identity>''
     \<and> indexOf leadingText (content (leadingSections ! 0)) 0 = - 1
     \<and> indexOf leadingText (content (leadingSections ! 1)) 0 = 42
     \<and> map outputPos (mappings (buildSourceMap ''leading'' leadingText leadingSections))
          = [\<lparr>start = 42, finish = 58, line = 3, column = 9\<rparr>]
     \<and> map (originAtOffset (buildSourceMap ''leading'' leadingText leadingSections)) [10, 15, 20]
          = [None, None, None]
     \<and> (\<exists>m. mappings (buildLoop leadingText [leadingSections ! 1] 1 0 ?sm) = [m]
            \<and> start (outputPos m) = 42 \<and> finish (outputPos m) = 58
            \<and> covered leadingText m = ''Respond in JSON.'')
     \<and> (case render (host0 h) leadingPrompt [] of
           Inl e \<Rightarrow> False
         | Inr cp \<Rightarrow> outText cp = leadingText
             \<and> map outputPos (dataMappings (sourceMap (meta cp)))
                 = [\<lparr>start = 42, finish = 58, line = 3, column = 9\<rparr>])"
    using leading_section leading_missing leading_found t leading_queries f cp(1) r by simp
qed

section \<open>The loop over the rules\<close>

lemma runRule_eq:
  "runRule config ig ctx (ruleId, rule) (a, n) =
     (case map_of config ruleId of
        None \<Rightarrow> (a, n)
      | Some rc \<Rightarrow>
          if fst (parseRuleConfig rc) = offS \<or> ''*'' \<in> set ig \<or> ruleId \<in> set ig then (a, n)
          else case check rule (ruleContext (snd (parseRuleConfig rc)) ctx) of
                 Inl e \<Rightarrow> (a, n + 1)
               | Inr found \<Rightarrow> (a @ map (applySeverity (fst (parseRuleConfig rc))) found, n + 1))"
proof (cases "map_of config ruleId")
  case None
  then show ?thesis by simp
next
  case (Some rc)
  obtain sv opts where p: "parseRuleConfig rc = (sv, opts)" by (cases "parseRuleConfig rc")
  show ?thesis using Some p by (simp add: Let_def split: sum.splits)
qed

declare runRule.simps [simp del]


lemma runRule_ignored:
  "''*'' \<in> set ig \<or> fst r \<in> set ig \<Longrightarrow> runRule config ig ctx r acc = acc"
  by (cases r; cases acc) (auto simp add: runRule_eq split: option.splits)

lemma runRule_ignored_set:
  "fst r \<noteq> R \<Longrightarrow> R \<noteq> ''*'' \<Longrightarrow>
     runRule config ig ctx r acc = runRule config (removeAll R ig) ctx r acc"
  by (cases r; cases acc) (simp add: runRule_eq split: option.splits)

lemma runRule_throws:
  "map_of config ruleId = Some rc \<Longrightarrow>
   check rule (ruleContext (snd (parseRuleConfig rc)) ctx) = Inl e \<Longrightarrow>
   fst (runRule config ig ctx (ruleId, rule) acc) = fst acc
   \<and> runRule config ig ctx (ruleId, rule) acc
       = runRule config ig ctx (ruleId, rule\<lparr>check := \<lambda>c. Inr []\<rparr>) acc"
  by (cases acc) (simp add: runRule_eq)


lemma runRules_Cons:
  "runRules (r # rs) config ig ctx acc = runRules rs config ig ctx (runRule config ig ctx r acc)"
  by (simp add: runRules_def)

lemma runRules_Nil: "runRules [] config ig ctx acc = acc"
  by (simp add: runRules_def)



lemma runRules_unregister:
  "R \<in> set ig \<Longrightarrow> R \<noteq> ''*'' \<Longrightarrow>
     runRules rs config ig ctx acc
       = runRules (filter (\<lambda>r. fst r \<noteq> R) rs) config (removeAll R ig) ctx acc"
proof (induction rs arbitrary: acc)
  case Nil
  then show ?case by (simp add: runRules_Nil)
next
  case (Cons r rs)
  note IH = Cons.IH[OF Cons.prems]
  show ?case
  proof (cases "fst r = R")
    case True
    with Cons.prems have 1: "runRule config ig ctx r acc = acc" by (simp add: runRule_ignored)
    have "runRules (r # rs) config ig ctx acc = runRules rs config ig ctx acc"
      unfolding runRules_Cons 1 ..
    also have "\<dots> = runRules (filter (\<lambda>r. fst r \<noteq> R) rs) config (removeAll R ig) ctx acc"
      by (rule IH)
    also have "filter (\<lambda>r. fst r \<noteq> R) rs = filter (\<lambda>r. fst r \<noteq> R) (r # rs)"
      using True by simp
    finally show ?thesis .
  next
    case False
    then have 1: "runRule config ig ctx r acc = runRule config (removeAll R ig) ctx r acc"
      using Cons.prems(2) by (rule runRule_ignored_set)
    have "runRules (r # rs) config ig ctx acc = runRules rs config ig ctx (runRule config ig ctx r acc)"
      by (rule runRules_Cons)
    also have "\<dots> = runRules (filter (\<lambda>r. fst r \<noteq> R) rs) config (removeAll R ig) ctx
        (runRule config (removeAll R ig) ctx r acc)"
      unfolding 1 by (rule IH)
    also have "\<dots> = runRules (r # filter (\<lambda>r. fst r \<noteq> R) rs) config (removeAll R ig) ctx acc"
      by (simp only: runRules_Cons)
    also have "r # filter (\<lambda>r. fst r \<noteq> R) rs = filter (\<lambda>r. fst r \<noteq> R) (r # rs)"
      using False by simp
    finally show ?thesis .
  qed
qed



lemma runRule_withoutFailures:
  "runRule config ig ctx (ruleId, withoutFailures rule) acc = runRule config ig ctx (ruleId, rule) acc"
  by (cases acc) (simp add: runRule_eq withoutFailures_def split: option.splits sum.splits)

lemma runRules_withoutFailures:
  "runRules (map (\<lambda>r. (fst r, withoutFailures (snd r))) rs) config ig ctx acc = runRules rs config ig ctx acc"
proof (induction rs arbitrary: acc)
  case Nil
  then show ?case by (simp add: runRules_Nil)
next
  case (Cons r rs)
  then show ?case by (cases r) (simp add: runRules_Cons runRule_withoutFailures)
qed



lemma lint_Inr:
  "render host p [] = Inr cp \<Longrightarrow>
     lint host l p = Inr (lintRendered host l p cp (parseIgnoredRules (outText cp)))"
  by (simp add: lint_def)

lemma lint_Inl_iff: "lint host l p = Inl e \<longleftrightarrow> render host p [] = Inl e"
  by (simp add: lint_def split: sum.splits)

lemma aggregate_llmCalls: "llmCalls (stats (aggregate r)) = 0"
  by (simp add: aggregate_def Let_def)

lemma lint_llmCalls: "lint host l p = Inr r \<Longrightarrow> llmCalls (stats r) = 0"
  by (auto simp add: lint_def lintRendered_def aggregate_llmCalls split: sum.splits)

lemma newLinter_llm: "newLinter body (config\<lparr>llm := x\<rparr>) = newLinter body config"
  by (simp add: newLinter_def)

lemma resolveLoop_fails:
  "list_all (\<lambda>x. \<not> isl (resolveContent h (scontent x) ctx)) before \<Longrightarrow>
   resolveContent h (scontent s) ctx = Inl e \<Longrightarrow>
   resolveLoop h (before @ s # after) i ctx = Inl e"
  by (induction before arbitrary: i) (auto split: sum.splits)

lemma resolveLoop_isl:
  "isl (resolveLoop h ss i ctx) \<longleftrightarrow> list_ex (\<lambda>x. isl (resolveContent h (scontent x) ctx)) ss"
proof (induction ss arbitrary: i)
  case Nil
  then show ?case by simp
next
  case (Cons s ss)
  show ?case using Cons.IH[of "i + 1"] by (auto split: sum.splits)
qed

lemma orderedSections_isl:
  "isl (orderedSections host p ctx)
     \<longleftrightarrow> list_ex (\<lambda>x. isl (resolveContent (builtins host) (scontent x) (enrich host p ctx))) (sections p)"
  using resolveLoop_isl[of "builtins host" "sections p" 0 "enrich host p ctx"]
  by (auto simp add: orderedSections_def resolveSections_def split: sum.splits)

lemma render_isl:
  assumes "\<forall>t. \<not> isl (countTokens host t (model p))"
  shows "isl (render host p ctx)
           \<longleftrightarrow> list_ex (\<lambda>x. isl (resolveContent (builtins host) (scontent x) (enrich host p ctx))) (sections p)"
proof (cases "orderedSections host p ctx")
  case (Inl e)
  then have "isl (orderedSections host p ctx)" by simp
  moreover have "isl (render host p ctx)" using Inl by (simp add: render_def)
  ultimately show ?thesis by (simp add: orderedSections_isl)
next
  case (Inr ordered)
  then have "\<not> isl (orderedSections host p ctx)" by simp
  moreover from render_returns[OF Inr assms] have "\<not> isl (render host p ctx)" by auto
  ultimately show ?thesis by (simp add: orderedSections_isl)
qed

lemma render_generator_fails:
  "sections p = before @ s # after \<Longrightarrow>
   list_all (\<lambda>x. \<not> isl (resolveContent (builtins host) (scontent x) (enrich host p ctx))) before \<Longrightarrow>
   scontent s = Dynamic f \<Longrightarrow> f (enrich host p ctx) = Inl e \<Longrightarrow>
   render host p ctx = Inl e"
  using resolveLoop_fails[of "builtins host" "enrich host p ctx" before s e after 0]
  by (simp add: render_def orderedSections_def resolveSections_def)

lemma lint_withoutFailures:
  "lint host (l\<lparr>rules := map (\<lambda>r. (fst r, withoutFailures (snd r))) (rules l)\<rparr>) p = lint host l p"
  by (simp add: lint_def lintRendered_def runRules_withoutFailures split: sum.splits)

text \<open>A placeholder fails exactly when \<open>JSON.stringify\<close> throws on its value.\<close>

lemma substitute_isl:
  "isl (substitute h ctx m key) \<longleftrightarrow> isl (stringify h (getNestedValue h ctx (orEmpty key)))"
  by (cases "getNestedValue h ctx (orEmpty key)") (auto split: sum.splits option.splits)

lemma replacePieces_isl:
  "isl (replacePieces f ps)
     \<longleftrightarrow> list_ex (\<lambda>pc. case pc of Match m cap \<Rightarrow> isl (f m cap) | Gap g \<Rightarrow> False) ps"
proof (induction ps)
  case Nil
  then show ?case by simp
next
  case (Cons pc ps)
  then show ?case by (cases pc) (auto split: sum.splits)
qed

lemma interpolate_isl:
  "isl (interpolate h c ctx)
     \<longleftrightarrow> list_ex (\<lambda>pc. case pc of
                          Match m cap \<Rightarrow> isl (stringify h (getNestedValue h ctx (orEmpty cap)))
                        | Gap g \<Rightarrow> False) (pieces placeholder c)"
proof -
  have "(\<lambda>pc. case pc of Match m cap \<Rightarrow> isl (substitute h ctx m cap) | Gap g \<Rightarrow> False)
      = (\<lambda>pc. case pc of
                 Match m cap \<Rightarrow> isl (stringify h (getNestedValue h ctx (orEmpty cap)))
               | Gap g \<Rightarrow> False)"
    by (auto simp add: fun_eq_iff substitute_isl simp del: substitute.simps split: piece.splits)
  then show ?thesis unfolding interpolate_def replacePieces_isl by (simp only:)
qed




lemma heuristic_ids:
  "map rid (heuristicRules body) =
     [''token-limit-exceeded'', ''token-limit-warning'', ''xml-tags-with-gpt'', ''markdown-with-claude'',
      ''dynamic-before-static'', ''missing-identity'', ''format-not-last'', ''duplicate-instructions'',
      ''user-input-in-system'', ''empty-sections'', ''conflicting-patterns'']"
  by (simp add: heuristicRules_def missingIdentity_def)







lemma aggregate_errors_passed: "w \<in> set (errors (aggregate r)) \<Longrightarrow> \<not> passed (aggregate r)"
  by (auto simp add: aggregate_def Let_def filter_empty_conv)

lemma aggregate_warnings: "w \<in> set (warnings (aggregate r)) \<Longrightarrow> severity w = warning"
  by (auto simp add: aggregate_def Let_def)




lemma lint_ignore_one:
  "render host p [] = Inr cp \<Longrightarrow> R \<in> set (parseIgnoredRules (outText cp)) \<Longrightarrow> R \<noteq> ''*'' \<Longrightarrow>
     lint host l p = Inr (lintRendered host (l\<lparr>rules := filter (\<lambda>r. fst r \<noteq> R) (rules l)\<rparr>) p cp
                            (removeAll R (parseIgnoredRules (outText cp))))"
  using runRules_unregister[of R "parseIgnoredRules (outText cp)" "rules l" "ruleConfig l"
      "lintContext host p cp" "([], 0)"]
  by (simp add: lint_def lintRendered_def)

section \<open>Directives in a text\<close>











section \<open>The results of a lint run\<close>







section \<open>Semantic analysis is not wired in\<close>

lemma assistant_lint:
  "lint (host0 h) (newLinter silentBody semanticConfig) assistantPrompt
     = Inr \<lparr>passed = True, errors = [], warnings = [], infos = [],
            stats = \<lparr>rulesChecked = 11, llmCalls = 0\<rparr>\<rparr>"
  by code_simp

text \<open>
  C5 does not hold of the program. The constructor of the linter does not read the field
  \<open>llm\<close> of its configuration: the linter of a configuration is the same whatever that
  field holds, so no run can call a provider. The count \<open>llmCalls\<close> is set to 0 and never
  changed: every run that returns reports 0. With semantic analysis enabled, a client
  that answers the empty array and rules that find nothing, the run of the prompt of the
  repository's test \<open>increments llmCalls stat\<close> has no error and reports 0 calls, where
  the test expects 1.
\<close>

theorem lint_makes_no_semantic_call:
  "newLinter body (config\<lparr>llm := x\<rparr>) = newLinter body config
   \<and> map_sum id (\<lambda>r. llmCalls (stats r)) (lint host l p) = map_sum id (\<lambda>r. 0) (lint host l p)
   \<and> (\<forall>h. lint (host0 h) (newLinter silentBody semanticConfig) assistantPrompt
            = Inr \<lparr>passed = True, errors = [], warnings = [], infos = [],
                   stats = \<lparr>rulesChecked = 11, llmCalls = 0\<rparr>\<rparr>)"
proof -
  have "map_sum id (\<lambda>r. llmCalls (stats r)) (lint host l p) = map_sum id (\<lambda>r. 0) (lint host l p)"
    by (cases "lint host l p") (simp_all add: lint_llmCalls)
  then show ?thesis using newLinter_llm[of body x config] assistant_lint by blast
qed

section \<open>What lint and render throw\<close>

lemma literal_resolves:
  "resolveContent h' (scontent (createSection identityT (Literal ''You are helpful.''))) ctx
     = Inr ''You are helpful.''"
  by code_simp

lemma throwing_rule_lint:
  "lint (host0 h) (addRule alwaysThrows None (newLinter silentBody defaultConfig)) formatOnlyPrompt
     = Inr \<lparr>passed = True, errors = [], warnings = [missingIdentityFinding], infos = [],
            stats = \<lparr>rulesChecked = 12, llmCalls = 0\<rparr>\<rparr>"
  by code_simp

lemma bigint_render:
  "render (host0 h) bigintPrompt [(''n'', JBigInt 10)]
     = Inl (TypeError ''Do not know how to serialize a BigInt'')"
  by code_simp

text \<open>
  C6 (as amended). \<open>lint\<close> throws exactly what the render of the prompt throws, and
  nothing for a rule: a run gives the same result when every check that throws is
  replaced by a check that returns no finding, so a rule that fails adds nothing, is
  counted as checked, and leaves the findings of the other rules as they are. \<open>render\<close>
  throws the error of a generator that throws, when the sections before it resolve. When
  the count of tokens never throws, \<open>render\<close> throws exactly when the content of some
  section fails to resolve; a generator fails when it throws, and a literal or a fragment
  fails exactly when \<open>JSON.stringify\<close> throws on the value of one of its placeholders.
\<close>

theorem exception_contract:
  "(lint host l p = Inl e \<longleftrightarrow> render host p [] = Inl e)
   \<and> lint host (l\<lparr>rules := map (\<lambda>r. (fst r, withoutFailures (snd r))) (rules l)\<rparr>) p = lint host l p
   \<and> (sections p = before @ s # after
        \<and> list_all (\<lambda>x. \<not> isl (resolveContent (builtins host) (scontent x) (enrich host p ctx))) before
        \<and> scontent s = Dynamic f \<and> f (enrich host p ctx) = Inl e
      \<longrightarrow> render host p ctx = Inl e)
   \<and> ((\<forall>t. \<not> isl (countTokens host t (model p)))
      \<longrightarrow> (isl (render host p ctx)
            \<longleftrightarrow> list_ex (\<lambda>x. isl (resolveContent (builtins host) (scontent x) (enrich host p ctx)))
                  (sections p)))
   \<and> resolveContent h' (Dynamic f) c = f c
   \<and> (isl (resolveContent h' (Literal t) c)
        \<longleftrightarrow> list_ex (\<lambda>pc. case pc of
                             Match m cap \<Rightarrow> isl (stringify h' (getNestedValue h' c (orEmpty cap)))
                           | Gap g \<Rightarrow> False) (pieces placeholder t))
   \<and> (isl (resolveContent h' (FragmentContent fr) c)
        \<longleftrightarrow> list_ex (\<lambda>pc. case pc of
                             Match m cap \<Rightarrow> isl (stringify h' (getNestedValue h' c (orEmpty cap)))
                           | Gap g \<Rightarrow> False) (pieces placeholder (fcontent fr)))"
  using lint_Inl_iff[of host l p e] lint_withoutFailures[of host l p]
    render_generator_fails[of p before s after host ctx f e] render_isl[of host p ctx]
    interpolate_isl[of h' t c] interpolate_isl[of h' "fcontent fr" c]
  by (simp only: resolveContent.simps) blast

text \<open>
  A prompt with one literal section and no generator, rendered with a context that gives
  a BigInt for its placeholder: \<open>render\<close> throws the \<open>TypeError\<close> of \<open>JSON.stringify\<close>.
\<close>

theorem bigint_placeholder_counterexample:
  "\<forall>h. list_all (\<lambda>s. \<not> isDynamic s) (sections bigintPrompt)
     \<and> render (host0 h) bigintPrompt [(''n'', JBigInt 10)]
         = Inl (TypeError ''Do not know how to serialize a BigInt'')"
proof -
  have "list_all (\<lambda>s. \<not> isDynamic s) (sections bigintPrompt)"
    by (simp add: bigintPrompt_def literalPrompt_def createSection_def)
  with bigint_render show ?thesis by simp
qed

text \<open>
  A generator that throws after a literal section: \<open>render\<close> and \<open>lint\<close> throw its error.
  A custom rule that throws, on a prompt with no identity section: the run returns the
  finding of \<open>missing-identity\<close> and counts twelve rules.
\<close>

theorem exception_contract_witness:
  "\<forall>h. render (host0 h) failingPrompt [] = Inl (Error ''generator failed'')
     \<and> lint (host0 h) (newLinter silentBody defaultConfig) failingPrompt = Inl (Error ''generator failed'')
     \<and> isl (render (host0 h) failingPrompt [])
     \<and> lint (host0 h)
          ((addRule alwaysThrows None (newLinter silentBody defaultConfig))
             \<lparr>rules := map (\<lambda>r. (fst r, withoutFailures (snd r)))
                         (rules (addRule alwaysThrows None (newLinter silentBody defaultConfig)))\<rparr>)
          formatOnlyPrompt
         = Inr \<lparr>passed = True, errors = [], warnings = [missingIdentityFinding], infos = [],
                stats = \<lparr>rulesChecked = 12, llmCalls = 0\<rparr>\<rparr>
     \<and> lint (host0 h) (addRule alwaysThrows None (newLinter silentBody defaultConfig)) formatOnlyPrompt
         = Inr \<lparr>passed = True, errors = [], warnings = [missingIdentityFinding], infos = [],
                stats = \<lparr>rulesChecked = 12, llmCalls = 0\<rparr>\<rparr>"
proof
  fix h
  let ?l = "newLinter silentBody defaultConfig"
  let ?t = "addRule alwaysThrows None ?l"
  let ?e = "Error ''generator failed''"
  let ?s0 = "createSection identityT (Literal ''You are helpful.'')"
  let ?s1 = "contextSection failingGenerator"
  have secs: "sections failingPrompt = [?s0] @ ?s1 # []" by (simp add: failingPrompt_def)
  have ok: "list_all (\<lambda>x. \<not> isl (resolveContent (builtins (host0 h)) (scontent x)
      (enrich (host0 h) failingPrompt []))) [?s0]"
    by (simp add: literal_resolves)
  have dyn: "scontent ?s1 = Dynamic failingGenerator" by (simp add: contextSection_def)
  have thr: "failingGenerator (enrich (host0 h) failingPrompt []) = Inl ?e"
    by (simp add: failingGenerator_def)
  have tok: "\<forall>t. \<not> isl (countTokens (host0 h) t (model failingPrompt))"
    by (simp add: failingPrompt_def count_host0)
  note a = exception_contract [of "host0 h" ?l failingPrompt ?e "[?s0]" ?s1 "[]" "[]" failingGenerator]
  from a secs ok dyn thr have r: "render (host0 h) failingPrompt [] = Inl ?e" by blast
  with a have l: "lint (host0 h) ?l failingPrompt = Inl ?e" by blast
  from r have i: "isl (render (host0 h) failingPrompt [])" by simp
  note b = exception_contract [of "host0 h" ?t formatOnlyPrompt]
  from b have w: "lint (host0 h) (?t\<lparr>rules := map (\<lambda>r. (fst r, withoutFailures (snd r))) (rules ?t)\<rparr>)
      formatOnlyPrompt = lint (host0 h) ?t formatOnlyPrompt" by blast
  show "render (host0 h) failingPrompt [] = Inl ?e
     \<and> lint (host0 h) ?l failingPrompt = Inl ?e
     \<and> isl (render (host0 h) failingPrompt [])
     \<and> lint (host0 h) (?t\<lparr>rules := map (\<lambda>r. (fst r, withoutFailures (snd r))) (rules ?t)\<rparr>) formatOnlyPrompt
         = Inr \<lparr>passed = True, errors = [], warnings = [missingIdentityFinding], infos = [],
                stats = \<lparr>rulesChecked = 12, llmCalls = 0\<rparr>\<rparr>
     \<and> lint (host0 h) ?t formatOnlyPrompt
         = Inr \<lparr>passed = True, errors = [], warnings = [missingIdentityFinding], infos = [],
                stats = \<lparr>rulesChecked = 12, llmCalls = 0\<rparr>\<rparr>"
    using r l i w throwing_rule_lint[of h] by (simp only:)
qed

section \<open>Inline ignore directives\<close>











section \<open>The configured severity\<close>








end
